(* ===== verification/Prelude.thy ===== *)
theory Prelude
  imports Complex_Main "HOL-Library.Word" "HOL-Library.List_Lexorder" "HOL-Library.Multiset"
begin

text \<open>
  Shared vocabulary of the development: Rust results, Unicode strings with their UTF-8 and
  UTF-16 views, byte predicates, three-way comparison, and the generic list and map lemmas
  the components use.

  A Rust \<open>str\<close> is a list of Unicode scalar values (\<open>rstr\<close>). Byte-oriented code
  (\<open>as_bytes\<close>, \<open>len\<close>, slicing) goes through \<open>str_bytes\<close>, code that counts or compares
  UTF-16 code units through \<open>utf16_units\<close>. A Rust \<open>Result\<close> is a sum with the error on
  the left.
\<close>

named_theorems wire_simps \<open>unfolding equations of the wire primitives\<close>
named_theorems text_simps \<open>equations of the text primitives\<close>
named_theorems step_simps \<open>unfolding equations of the locked coordinator segments\<close>
named_theorems json_simps \<open>unfolding equations of the typed JSON decoders\<close>

type_synonym scalar = nat
type_synonym rstr = "scalar list"
type_synonym u8 = "8 word"
type_synonym u16 = "16 word"
type_synonym u32 = "32 word"
type_synonym epoch_ms = int

section \<open>Results\<close>

fun rbind :: "'e + 'a \<Rightarrow> ('a \<Rightarrow> 'e + 'b) \<Rightarrow> 'e + 'b" where
  "rbind (Inl e) f = Inl e"
| "rbind (Inr a) f = f a"

fun map_err :: "('e \<Rightarrow> 'f) \<Rightarrow> 'e + 'a \<Rightarrow> 'f + 'a" where
  "map_err g (Inl e) = Inl (g e)"
| "map_err g (Inr a) = Inr a"

fun ok_or :: "'e \<Rightarrow> 'a option \<Rightarrow> 'e + 'a" where
  "ok_or e None = Inl e"
| "ok_or e (Some a) = Inr a"

fun is_ok :: "'e + 'a \<Rightarrow> bool" where
  "is_ok (Inl e) = False"
| "is_ok (Inr a) = True"

text \<open>\<open>Option<Result<T, E>>::transpose\<close> after a \<open>map\<close>.\<close>

fun map_transpose :: "('a \<Rightarrow> 'e + 'b) \<Rightarrow> 'a option \<Rightarrow> 'e + 'b option" where
  "map_transpose f None = Inr None"
| "map_transpose f (Some a) = rbind (f a) (\<lambda>b. Inr (Some b))"

lemma rbind_Inr_iff [simp]: "rbind m f = Inr b \<longleftrightarrow> (\<exists>a. m = Inr a \<and> f a = Inr b)"
  by (cases m) auto

lemma rbind_Inl_iff [simp]:
  "rbind m f = Inl e \<longleftrightarrow> m = Inl e \<or> (\<exists>a. m = Inr a \<and> f a = Inl e)"
  by (cases m) auto

lemma is_ok_iff: "is_ok m \<longleftrightarrow> (\<exists>a. m = Inr a)"
  by (cases m) auto

lemma ok_or_Inr_iff [simp]: "ok_or e m = Inr a \<longleftrightarrow> m = Some a"
  by (cases m) auto

lemma map_err_Inr_iff [simp]: "map_err g m = Inr a \<longleftrightarrow> m = Inr a"
  by (cases m) auto

lemma map_transpose_Inr_iff:
  "map_transpose f m = Inr r \<longleftrightarrow>
     (m = None \<and> r = None) \<or> (\<exists>a b. m = Some a \<and> f a = Inr b \<and> r = Some b)"
  by (cases m) auto

section \<open>Three-way comparison\<close>

text \<open>\<open>std::cmp::Ordering\<close>, \<open>Ord::cmp\<close>, \<open>Ordering::then\<close> and \<open>Ordering::reverse\<close>.\<close>

datatype ordering = Less | Equal | Greater

definition cmp :: "'a::linorder \<Rightarrow> 'a \<Rightarrow> ordering" where
  "cmp a b = (if a < b then Less else if a = b then Equal else Greater)"

fun ord_then :: "ordering \<Rightarrow> ordering \<Rightarrow> ordering" where
  "ord_then Equal o2 = o2"
| "ord_then Less o2 = Less"
| "ord_then Greater o2 = Greater"

fun ord_rev :: "ordering \<Rightarrow> ordering" where
  "ord_rev Less = Greater"
| "ord_rev Equal = Equal"
| "ord_rev Greater = Less"

lemma cmp_simps [simp]:
  "cmp a b = Less \<longleftrightarrow> a < b" "cmp a b = Equal \<longleftrightarrow> a = b" "cmp a b = Greater \<longleftrightarrow> b < a"
  by (auto simp: cmp_def)

lemma cmp_rev: "cmp b a = ord_rev (cmp a b)"
  by (auto simp: cmp_def)

lemma ord_then_Equal_iff [simp]: "ord_then a b = Equal \<longleftrightarrow> a = Equal \<and> b = Equal"
  by (cases a) auto

lemma ord_then_Less_iff: "ord_then a b = Less \<longleftrightarrow> a = Less \<or> a = Equal \<and> b = Less"
  by (cases a) auto

lemma ord_then_rev: "ord_rev (ord_then a b) = ord_then (ord_rev a) (ord_rev b)"
  by (cases a) auto

section \<open>Strings\<close>

definition lit :: "string \<Rightarrow> rstr" where
  "lit s = map of_char s"

definition is_scalar :: "nat \<Rightarrow> bool" where
  "is_scalar c \<longleftrightarrow> c < 55296 \<or> 57344 \<le> c \<and> c < 1114112"

definition wf_str :: "rstr \<Rightarrow> bool" where
  "wf_str s \<longleftrightarrow> list_all is_scalar s"

text \<open>UTF-8 encoding of one scalar and of a string.\<close>

definition utf8 :: "scalar \<Rightarrow> u8 list" where
  "utf8 c =
     (if c < 128 then [word_of_nat c]
      else if c < 2048 then [word_of_nat (192 + c div 64), word_of_nat (128 + c mod 64)]
      else if c < 65536 then
        [word_of_nat (224 + c div 4096), word_of_nat (128 + c div 64 mod 64),
         word_of_nat (128 + c mod 64)]
      else
        [word_of_nat (240 + c div 262144), word_of_nat (128 + c div 4096 mod 64),
         word_of_nat (128 + c div 64 mod 64), word_of_nat (128 + c mod 64)])"

definition str_bytes :: "rstr \<Rightarrow> u8 list" where
  "str_bytes s = concat (map utf8 s)"

text \<open>UTF-16 code units of a string, and \<open>String::from_utf16\<close>.\<close>

definition utf16 :: "scalar \<Rightarrow> nat list" where
  "utf16 c = (if c < 65536 then [c]
              else [55296 + (c - 65536) div 1024, 56320 + (c - 65536) mod 1024])"

definition utf16_units :: "rstr \<Rightarrow> nat list" where
  "utf16_units s = concat (map utf16 s)"

fun from_utf16 :: "nat list \<Rightarrow> rstr option" where
  "from_utf16 [] = Some []"
| "from_utf16 (u # us) =
     (if u < 55296 \<or> 57344 \<le> u then map_option ((#) u) (from_utf16 us)
      else if u < 56320 then
        (case us of
           v # vs \<Rightarrow>
             if 56320 \<le> v \<and> v < 57344
             then map_option ((#) (65536 + (u - 55296) * 1024 + (v - 56320))) (from_utf16 vs)
             else None
         | [] \<Rightarrow> None)
      else None)"

text \<open>\<open>a.encode_utf16().cmp(b.encode_utf16())\<close>: the comparator of JavaScript's \<open><\<close>.\<close>

definition cmp_utf16 :: "rstr \<Rightarrow> rstr \<Rightarrow> ordering" where
  "cmp_utf16 a b = cmp (utf16_units a) (utf16_units b)"

text \<open>\<open>str::trim_matches\<close>, \<open>str::split\<close> on one char, \<open>str::find\<close> on one char.\<close>

definition trim_matches :: "(scalar \<Rightarrow> bool) \<Rightarrow> rstr \<Rightarrow> rstr" where
  "trim_matches p s = rev (dropWhile p (rev (dropWhile p s)))"

text \<open>\<open>char::is_whitespace\<close>, the \<open>White_Space\<close> property that \<open>str::trim\<close> uses.\<close>

definition is_white_space :: "scalar \<Rightarrow> bool" where
  "is_white_space c \<longleftrightarrow>
     9 \<le> c \<and> c \<le> 13 \<or> c = 32 \<or> c = 133 \<or> c = 160 \<or> c = 5760 \<or> 8192 \<le> c \<and> c \<le> 8202 \<or>
     c = 8232 \<or> c = 8233 \<or> c = 8239 \<or> c = 8287 \<or> c = 12288"

definition str_trim :: "rstr \<Rightarrow> rstr" where
  "str_trim s = trim_matches is_white_space s"

fun str_split :: "scalar \<Rightarrow> rstr \<Rightarrow> rstr list" where
  "str_split d [] = [[]]"
| "str_split d (c # s) =
     (if c = d then [] # str_split d s
      else case str_split d s of p # ps \<Rightarrow> (c # p) # ps | [] \<Rightarrow> [[c]])"

text \<open>\<open>s.find(d)\<close> together with the two slices \<open>&s[..i]\<close> and \<open>&s[i + 1..]\<close>.\<close>

fun split_once :: "scalar \<Rightarrow> rstr \<Rightarrow> (rstr \<times> rstr) option" where
  "split_once d [] = None"
| "split_once d (c # s) =
     (if c = d then Some ([], s) else map_option (\<lambda>(a, b). (c # a, b)) (split_once d s))"

definition ascii_digit :: "u8 \<Rightarrow> bool" where
  "ascii_digit b \<longleftrightarrow> 48 \<le> b \<and> b \<le> 57"

definition ascii_upper :: "u8 \<Rightarrow> bool" where
  "ascii_upper b \<longleftrightarrow> 65 \<le> b \<and> b \<le> 90"

definition ascii_lower :: "u8 \<Rightarrow> bool" where
  "ascii_lower b \<longleftrightarrow> 97 \<le> b \<and> b \<le> 122"

definition ascii_alphanumeric :: "u8 \<Rightarrow> bool" where
  "ascii_alphanumeric b \<longleftrightarrow> ascii_digit b \<or> ascii_upper b \<or> ascii_lower b"

definition ascii_hexdigit :: "u8 \<Rightarrow> bool" where
  "ascii_hexdigit b \<longleftrightarrow> ascii_digit b \<or> 65 \<le> b \<and> b \<le> 70 \<or> 97 \<le> b \<and> b \<le> 102"

text \<open>\<open>u8::eq_ignore_ascii_case\<close> on byte strings: both sides lowered.\<close>

definition lower_byte :: "u8 \<Rightarrow> u8" where
  "lower_byte b = (if ascii_upper b then b + 32 else b)"

definition eq_ignore_ascii_case :: "u8 list \<Rightarrow> u8 list \<Rightarrow> bool" where
  "eq_ignore_ascii_case a b \<longleftrightarrow> map lower_byte a = map lower_byte b"

text \<open>\<open>bytes.iter().enumerate().all(|(i, c)| ...)\<close>.\<close>

definition all_indexed :: "(nat \<Rightarrow> 'a \<Rightarrow> bool) \<Rightarrow> 'a list \<Rightarrow> bool" where
  "all_indexed p xs \<longleftrightarrow> list_all (\<lambda>(i, x). p i x) (List.enumerate 0 xs)"

section \<open>Lemmas on strings\<close>

lemma lit_eq_iff [simp]: "lit s = lit t \<longleftrightarrow> s = t"
proof -
  have "inj (of_char :: char \<Rightarrow> nat)" by (rule injI) simp
  then show ?thesis unfolding lit_def by (rule inj_map_eq_map)
qed

lemma str_bytes_Nil [simp]: "str_bytes [] = []"
  by (simp add: str_bytes_def)

lemma str_bytes_Cons [simp]: "str_bytes (c # s) = utf8 c @ str_bytes s"
  by (simp add: str_bytes_def)

lemma str_bytes_append: "str_bytes (s @ t) = str_bytes s @ str_bytes t"
  by (simp add: str_bytes_def)

lemma utf8_not_Nil [simp]: "utf8 c \<noteq> []"
  by (simp add: utf8_def)

lemma str_bytes_eq_Nil [simp]: "str_bytes s = [] \<longleftrightarrow> s = []"
  by (cases s) auto

lemma utf8_ascii: "c < 128 \<Longrightarrow> utf8 c = [word_of_nat c]"
  by (simp add: utf8_def)

lemma str_bytes_ascii: "list_all (\<lambda>c. c < 128) s \<Longrightarrow> str_bytes s = map word_of_nat s"
  by (induction s) (auto simp: utf8_ascii)

lemma utf16_units_Nil [simp]: "utf16_units [] = []"
  by (simp add: utf16_units_def)

lemma utf16_units_Cons [simp]: "utf16_units (c # s) = utf16 c @ utf16_units s"
  by (simp add: utf16_units_def)

lemma from_utf16_utf16:
  assumes "is_scalar c"
  shows "from_utf16 (utf16 c @ us) = map_option ((#) c) (from_utf16 us)"
proof (cases "c < 65536")
  case True
  then show ?thesis using assms by (auto simp: utf16_def is_scalar_def)
next
  case False
  let ?hi = "(c - 65536) div 1024" and ?lo = "(c - 65536) mod 1024"
  have "?hi < 1024" using assms False by (auto simp: is_scalar_def)
  moreover have "?lo < 1024" by simp
  moreover have "65536 + (?hi * 1024 + ?lo) = c" using False by simp
  ultimately show ?thesis using False by (simp add: utf16_def)
qed

lemma from_utf16_units: "wf_str s \<Longrightarrow> from_utf16 (utf16_units s) = Some s"
  by (induction s) (auto simp: wf_str_def from_utf16_utf16)

lemma utf16_units_inj: "wf_str s \<Longrightarrow> wf_str t \<Longrightarrow> utf16_units s = utf16_units t \<Longrightarrow> s = t"
  by (metis from_utf16_units option.inject)

lemma utf16_unit_bound: "is_scalar c \<Longrightarrow> u \<in> set (utf16 c) \<Longrightarrow> u < 65536"
  by (auto simp: utf16_def is_scalar_def split: if_splits)

lemma utf16_units_bound: "wf_str s \<Longrightarrow> u \<in> set (utf16_units s) \<Longrightarrow> u < 65536"
  by (induction s) (auto simp: wf_str_def dest: utf16_unit_bound)

lemma dropWhile_head: "dropWhile p s = c # t \<Longrightarrow> \<not> p c"
  by (metis hd_dropWhile list.distinct(1) list.sel(1))

lemma trim_matches_idem [simp]: "trim_matches p (trim_matches p s) = trim_matches p s"
proof -
  have fix1: "dropWhile p (dropWhile p t) = dropWhile p t" for t
    by (simp add: dropWhile_idem)
  have front: "dropWhile p (rev (dropWhile p (rev (dropWhile p s)))) =
      rev (dropWhile p (rev (dropWhile p s)))"
  proof (cases "rev (dropWhile p (rev (dropWhile p s)))")
    case Nil
    then have "dropWhile p (rev (dropWhile p s)) = []" by (simp only: rev_is_Nil_conv)
    then show ?thesis by (simp only: rev.simps dropWhile.simps)
  next
    case (Cons c u)
    obtain w where w: "dropWhile p s = c # u @ w"
      using Cons by (metis append_Cons append_take_drop_id dropWhile_eq_drop rev_append
          rev_rev_ident takeWhile_dropWhile_id)
    then show ?thesis using Cons by (simp add: dropWhile_head [OF w])
  qed
  show ?thesis unfolding trim_matches_def front by (simp add: fix1)
qed

lemma trim_matches_ends:
  assumes "trim_matches p s \<noteq> []"
  shows "\<not> p (hd (trim_matches p s))" and "\<not> p (last (trim_matches p s))"
proof -
  let ?t = "trim_matches p s"
  have idem: "trim_matches p ?t = ?t" by simp
  show "\<not> p (last ?t)"
    using assms unfolding trim_matches_def
    by (metis hd_dropWhile last_rev rev_is_Nil_conv)
  show "\<not> p (hd ?t)"
  proof
    assume "p (hd ?t)"
    moreover obtain c u where cu: "?t = c # u" using assms by (cases ?t) auto
    ultimately have "length (dropWhile p ?t) < length ?t"
      by (simp add: le_imp_less_Suc length_dropWhile_le)
    then have "length (trim_matches p ?t) < length ?t"
      unfolding trim_matches_def [of p ?t]
      by (metis le_less_trans length_dropWhile_le length_rev)
    then show False by (simp only: idem less_irrefl)
  qed
qed

lemma trim_matches_length: "length (trim_matches p s) \<le> length s"
  unfolding trim_matches_def by (metis le_trans length_dropWhile_le length_rev)

lemma trim_matches_set: "set (trim_matches p s) \<subseteq> set s"
  unfolding trim_matches_def by (metis set_dropWhileD set_rev subsetI)

lemma all_indexed_Nil [simp]: "all_indexed p []"
  by (simp add: all_indexed_def)

lemma enumerate_all_nth:
  "list_all (\<lambda>(i, x). p i x) (List.enumerate n xs) \<longleftrightarrow> (\<forall>i < length xs. p (n + i) (xs ! i))"
proof (induction xs arbitrary: n)
  case Nil
  then show ?case by simp
next
  case (Cons x xs)
  show ?case by (simp add: Cons.IH All_less_Suc2)
qed

lemma all_indexed_nth: "all_indexed p xs \<longleftrightarrow> (\<forall>i < length xs. p i (xs ! i))"
  by (simp add: all_indexed_def enumerate_all_nth)

lemma str_split_not_Nil [simp]: "str_split d s \<noteq> []"
  by (cases s) (auto split: list.splits)

lemma str_split_no_sep: "p \<in> set (str_split d s) \<Longrightarrow> d \<notin> set p"
  by (induction s arbitrary: p) (fastforce split: if_splits list.splits)+

lemma split_once_Some:
  "split_once d s = Some (a, b) \<Longrightarrow> s = a @ d # b \<and> d \<notin> set a"
  by (induction s arbitrary: a b) (auto split: if_splits)

lemma split_once_None: "split_once d s = None \<longleftrightarrow> d \<notin> set s"
  by (induction s) auto

fun str_join :: "scalar \<Rightarrow> rstr list \<Rightarrow> rstr" where
  "str_join d [] = []"
| "str_join d [p] = p"
| "str_join d (p # q # ps) = p @ d # str_join d (q # ps)"

lemma str_join_split: "str_join d (str_split d s) = s"
proof (induction s)
  case (Cons c s)
  obtain p ps where "str_split d s = p # ps" by (cases "str_split d s") auto
  with Cons show ?case by (cases ps) auto
qed simp

section \<open>Comparators with a key\<close>

text \<open>
  A comparator that compares by a key in a linear order is a total preorder. The laws the
  clients use are proved once here.
\<close>

locale keyed_order =
  fixes compare :: "'a \<Rightarrow> 'a \<Rightarrow> ordering"
    and key :: "'a \<Rightarrow> 'k::linorder"
  assumes compare_key: "compare a b = cmp (key a) (key b)"
begin

lemma compare_refl: "compare a a = Equal"
  by (simp add: compare_key)

lemma compare_rev: "compare b a = ord_rev (compare a b)"
  unfolding compare_key by (rule cmp_rev)

lemma compare_le_trans: "compare a b \<noteq> Greater \<Longrightarrow> compare b c \<noteq> Greater \<Longrightarrow> compare a c \<noteq> Greater"
  by (simp add: compare_key)

lemma compare_less_trans: "compare a b = Less \<Longrightarrow> compare b c \<noteq> Greater \<Longrightarrow> compare a c = Less"
  by (simp add: compare_key)

lemma compare_ge_less: "compare a b \<noteq> Less \<Longrightarrow> compare c a \<noteq> Less \<Longrightarrow> compare c b \<noteq> Less"
  by (simp add: compare_key)

lemma compare_Equal_iff: "compare a b = Equal \<longleftrightarrow> key a = key b"
  by (simp add: compare_key)

end

section \<open>Sorting by a key\<close>

text \<open>
  \<open>slice::sort_by\<close> is a stable sort, and so is the library's \<open>sort_key\<close>. When no two
  elements share a key, the result depends on the elements only, not on their order.
\<close>

lemma sort_key_mset_eq:
  assumes "mset xs = mset ys" and "inj_on f (set xs)"
  shows "sort_key f xs = sort_key f ys"
  by (rule sort_key_inj_key_eq) (use assms in simp_all)

end
