(* ===== verification/Float64.thy ===== *)
theory Float64
  imports Prelude "HOL-Library.Log_Nat"
begin

text \<open>
  IEEE 754 binary64 as the program uses it: finite values are the rationals they denote,
  arithmetic rounds the exact result to nearest, ties to even, with 53 bits of precision,
  subnormals and overflow to infinity. Negative zero is not distinguished from zero: every
  use in the program compares values, clamps them or prints an integral one through \<open>as i64\<close>.
\<close>

datatype f64 = Fin rat | PosInf | NegInf | NaN

section \<open>Rounding\<close>

definition pow2r :: "int \<Rightarrow> rat" where
  "pow2r k = (if 0 \<le> k then 2 ^ nat k else 1 / 2 ^ nat (- k))"

text \<open>The binary exponent of a positive rational: \<open>2 ^ e \<le> x < 2 ^ (e + 1)\<close>.\<close>

definition ilog2 :: "rat \<Rightarrow> int" where
  "ilog2 x = (let (n, d) = quotient_of x; e = bitlen n - bitlen d
              in if pow2r e \<le> x then e else e - 1)"

definition round_half_even :: "rat \<Rightarrow> int" where
  "round_half_even x =
     (let f = \<lfloor>x\<rfloor>; d = x - of_int f
      in if d < 1 / 2 then f else if 1 / 2 < d then f + 1 else if even f then f else f + 1)"

definition quantum :: "rat \<Rightarrow> rat" where
  "quantum x = pow2r (max (ilog2 \<bar>x\<bar> - 52) (- 1074))"

definition f_round :: "rat \<Rightarrow> f64" where
  "f_round x =
     (if x = 0 then Fin 0
      else let r = of_int (round_half_even (x / quantum x)) * quantum x
           in if 2 ^ 1024 \<le> r then PosInf else if r \<le> - (2 ^ 1024) then NegInf else Fin r)"

definition f_of_int :: "int \<Rightarrow> f64" where
  "f_of_int n = f_round (of_int n)"

section \<open>Operations\<close>

fun is_finite :: "f64 \<Rightarrow> bool" where
  "is_finite (Fin x) = True"
| "is_finite _ = False"

text \<open>\<open>value.fract() == 0.0\<close> (the fractional part of an infinity or NaN is NaN).\<close>

fun fract_is_zero :: "f64 \<Rightarrow> bool" where
  "fract_is_zero (Fin x) \<longleftrightarrow> of_int \<lfloor>x\<rfloor> = x"
| "fract_is_zero _ \<longleftrightarrow> False"

fun f_lt :: "f64 \<Rightarrow> f64 \<Rightarrow> bool" where
  "f_lt NaN _ = False"
| "f_lt _ NaN = False"
| "f_lt (Fin x) (Fin y) = (x < y)"
| "f_lt NegInf NegInf = False"
| "f_lt NegInf _ = True"
| "f_lt _ NegInf = False"
| "f_lt PosInf _ = False"
| "f_lt (Fin x) PosInf = True"

fun f_eq :: "f64 \<Rightarrow> f64 \<Rightarrow> bool" where
  "f_eq NaN _ = False"
| "f_eq a b = (a = b)"

definition f_le :: "f64 \<Rightarrow> f64 \<Rightarrow> bool" where
  "f_le a b \<longleftrightarrow> f_lt a b \<or> f_eq a b"

fun f_abs :: "f64 \<Rightarrow> f64" where
  "f_abs (Fin x) = Fin \<bar>x\<bar>"
| "f_abs NaN = NaN"
| "f_abs _ = PosInf"

text \<open>\<open>f64::max\<close> and \<open>f64::min\<close>: a NaN operand is ignored.\<close>

definition f_max :: "f64 \<Rightarrow> f64 \<Rightarrow> f64" where
  "f_max a b = (if a = NaN then b else if b = NaN then a else if f_lt a b then b else a)"

definition f_min :: "f64 \<Rightarrow> f64 \<Rightarrow> f64" where
  "f_min a b = (if a = NaN then b else if b = NaN then a else if f_lt b a then b else a)"

fun f_add :: "f64 \<Rightarrow> f64 \<Rightarrow> f64" where
  "f_add (Fin x) (Fin y) = f_round (x + y)"
| "f_add NaN _ = NaN"
| "f_add _ NaN = NaN"
| "f_add PosInf NegInf = NaN"
| "f_add NegInf PosInf = NaN"
| "f_add PosInf _ = PosInf"
| "f_add _ PosInf = PosInf"
| "f_add NegInf _ = NegInf"
| "f_add _ NegInf = NegInf"

text \<open>
  Multiplication and division by a positive constant, the only uses in the program
  (\<open>seconds * 1000.0\<close>, \<open>ticks / 10_000_000.0\<close>, \<open>elapsed / 1000.0\<close>, \<open>lease / 3.0\<close>).
\<close>

fun f_scale :: "f64 \<Rightarrow> rat \<Rightarrow> f64" where
  "f_scale (Fin x) k = f_round (x * k)"
| "f_scale a k = a"

fun f_div_by :: "f64 \<Rightarrow> rat \<Rightarrow> f64" where
  "f_div_by (Fin x) k = f_round (x / k)"
| "f_div_by a k = a"

text \<open>\<open>f64::round\<close>: half away from zero. The result is integral, hence exact.\<close>

definition round_half_away :: "rat \<Rightarrow> int" where
  "round_half_away x = (if 0 \<le> x then \<lfloor>x + 1 / 2\<rfloor> else - \<lfloor>- x + 1 / 2\<rfloor>)"

fun f_round_int :: "f64 \<Rightarrow> f64" where
  "f_round_int (Fin x) = Fin (of_int (round_half_away x))"
| "f_round_int a = a"

text \<open>The \<open>as u64\<close> and \<open>as i64\<close> casts: truncate, saturate, NaN to zero.\<close>

definition rat_trunc :: "rat \<Rightarrow> int" where
  "rat_trunc x = (if 0 \<le> x then \<lfloor>x\<rfloor> else - \<lfloor>- x\<rfloor>)"

fun as_u64 :: "f64 \<Rightarrow> nat" where
  "as_u64 (Fin x) = nat (min (rat_trunc x) (2 ^ 64 - 1))"
| "as_u64 PosInf = 2 ^ 64 - 1"
| "as_u64 _ = 0"

fun as_i64 :: "f64 \<Rightarrow> int" where
  "as_i64 (Fin x) = max (- (2 ^ 63)) (min (rat_trunc x) (2 ^ 63 - 1))"
| "as_i64 PosInf = 2 ^ 63 - 1"
| "as_i64 NegInf = - (2 ^ 63)"
| "as_i64 NaN = 0"

section \<open>Lemmas\<close>

lemma f_round_zero [simp]: "f_round 0 = Fin 0"
  by (simp add: f_round_def)

lemma f_round_not_NaN [simp]: "f_round x \<noteq> NaN"
  by (simp add: f_round_def Let_def)

lemma pow2r_pos [simp]: "0 < pow2r k"
  by (simp add: pow2r_def)

lemma quantum_pos [simp]: "0 < quantum x"
  by (simp add: quantum_def)

lemma round_half_even_int [simp]: "round_half_even (of_int n) = n"
  by (simp add: round_half_even_def)

lemma round_half_even_nonneg: "0 \<le> x \<Longrightarrow> 0 \<le> round_half_even x"
  by (auto simp: round_half_even_def Let_def)

lemma f_round_nonneg:
  assumes "0 \<le> x"
  shows "f_round x = PosInf \<or> (\<exists>y. f_round x = Fin y \<and> 0 \<le> y)"
proof -
  have "0 \<le> of_int (round_half_even (x / quantum x)) * quantum x"
    using assms less_imp_le [OF quantum_pos [of x]]
    by (intro mult_nonneg_nonneg) (auto intro!: round_half_even_nonneg divide_nonneg_nonneg)
  moreover have "\<not> y \<le> - K" if "0 \<le> y" "0 < K" for y K :: rat
    using that by linarith
  ultimately show ?thesis by (auto simp: f_round_def Let_def)
qed

lemma pow2r_mono_bit: "0 < n \<Longrightarrow> pow2r (bitlen n - 1) \<le> of_int n" for n :: int
proof -
  assume n: "0 < n"
  then have "2 ^ nat (bitlen n - 1) \<le> n" by (rule bitlen_bounds [THEN conjunct1])
  then have "(2 ^ nat (bitlen n - 1) :: rat) \<le> of_int n"
    by (metis of_int_le_iff of_int_numeral of_int_power)
  moreover have "0 \<le> bitlen n - 1"
    using n bitlen_nonneg [of n] bitlen_eq_zero_iff [of n] by linarith
  ultimately show ?thesis by (simp add: pow2r_def)
qed

lemma ilog2_int:
  fixes n :: int
  assumes "0 < n"
  shows "ilog2 (of_int n) = bitlen n - 1"
proof -
  have b: "n < 2 ^ nat (bitlen n)" using assms by (rule bitlen_bounds [THEN conjunct2])
  have "(of_int n :: rat) < 2 ^ nat (bitlen n)"
    using b by (metis of_int_less_iff of_int_numeral of_int_power)
  then have lt: "of_int n < pow2r (bitlen n)"
    using assms by (simp add: pow2r_def bitlen_nonneg)
  have one: "bitlen 1 = 1" by (simp add: bitlen_alt_def)
  show ?thesis
    using pow2r_mono_bit [OF assms] lt
    by (simp add: ilog2_def Let_def one)
qed

lemma f_round_int:
  fixes n :: int
  assumes "\<bar>n\<bar> \<le> 2 ^ 53"
  shows "f_round (of_int n) = Fin (of_int n)"
proof (cases "n = 0")
  case False
  define m where "m = \<bar>n\<bar>"
  have m: "0 < m" "m \<le> 2 ^ 53" using False assms by (auto simp: m_def)
  have il: "ilog2 \<bar>of_int n\<bar> = bitlen m - 1"
    using ilog2_int [OF m(1)] by (simp add: m_def)
  have "\<exists>k :: int. of_int n / quantum (of_int n) = (of_int k :: rat) \<and>
      of_int k * quantum (of_int n) = (of_int n :: rat)"
  proof (cases "m = 2 ^ 53")
    case True
    have "bitlen (1 * 2 ^ 53 :: int) = bitlen 1 + int 53" by (rule bitlen_pow2) simp
    then have "bitlen m = 54" by (simp add: True bitlen_alt_def [of 1])
    then have q: "quantum (of_int n) = 2" by (simp add: quantum_def il pow2r_def)
    have "n = 2 ^ 53 \<or> n = - (2 ^ 53)" using True by (auto simp: m_def)
    then have "even n" by auto
    then have "n = 2 * (n div 2)" by simp
    then show ?thesis unfolding q
      by (intro exI [of _ "n div 2"])
        (metis (no_types, opaque_lifting) mult.commute nonzero_mult_div_cancel_left of_int_mult of_int_numeral
          zero_neq_numeral)
  next
    case False
    then have "m < 2 ^ 53" using m by simp
    then have "nat m < 2 ^ 53" using m(1) by simp
    then have "bitlen m \<le> 53"
      by (simp add: bitlen_le_iff_floorlog floorlog_le_iff)
    moreover define j where "j = nat (53 - bitlen m)"
    ultimately have "bitlen m - 1 - 52 = - int j" and "j \<le> 53"
      using bitlen_nonneg [of m] by (auto simp: j_def)
    then have q: "quantum (of_int n) = 1 / 2 ^ j" by (simp add: quantum_def il pow2r_def)
    show ?thesis unfolding q by (intro exI [of _ "n * 2 ^ j"]) simp
  qed
  then obtain k :: int where k: "of_int n / quantum (of_int n) = (of_int k :: rat)"
      "of_int k * quantum (of_int n) = (of_int n :: rat)" by blast
  have "\<bar>of_int n :: rat\<bar> < 2 ^ 1024"
  proof -
    have "\<bar>n\<bar> < 2 ^ 1024" using assms by (rule le_less_trans) simp
    then show ?thesis by (metis of_int_abs of_int_less_iff of_int_numeral of_int_power)
  qed
  then have "\<not> 2 ^ 1024 \<le> (of_int n :: rat)" "\<not> (of_int n :: rat) \<le> - (2 ^ 1024)"
    by (auto simp only: abs_less_iff not_le minus_less_iff)
  then show ?thesis
    using False unfolding f_round_def Let_def k(1) round_half_even_int k(2) by simp
qed simp

lemma f_round_nat: "n \<le> 2 ^ 53 \<Longrightarrow> f_round (of_nat n) = Fin (of_nat n)"
  using f_round_int [of "int n"] by (simp add: nat_le_iff)

lemma as_u64_of_nat: "n < 2 ^ 64 \<Longrightarrow> as_u64 (Fin (of_nat n)) = n"
  by (simp add: rat_trunc_def)

lemma round_half_away_nonneg: "0 \<le> x \<Longrightarrow> 0 \<le> round_half_away x"
  by (simp add: round_half_away_def)

lemma f_lt_irrefl [simp]: "\<not> f_lt a a"
  by (cases a) auto

lemma f_le_Fin [simp]: "f_le (Fin x) (Fin y) \<longleftrightarrow> x \<le> y"
  by (auto simp: f_le_def)

section \<open>The rounding error\<close>

lemma pow2r_powi: "pow2r k = 2 powi k"
  unfolding pow2r_def power_int_def by (simp add: inverse_eq_divide power_one_over)

lemma pow2r_add: "pow2r (j + k) = pow2r j * pow2r k"
  by (simp add: pow2r_powi power_int_add)

lemma pow2r_mono: "j \<le> k \<Longrightarrow> pow2r j \<le> pow2r k"
  by (simp add: pow2r_powi power_int_increasing)

lemma pow2r_ilog2_le:
  assumes "0 < x"
  shows "pow2r (ilog2 x) \<le> x"
proof -
  obtain n d where q: "quotient_of x = (n, d)" by force
  have d: "0 < d" and x: "x = of_int n / of_int d"
    using quotient_of_denom_pos [OF q] quotient_of_div [OF q] by auto
  then have n: "0 < n" using assms by (simp add: zero_less_divide_iff)
  define e where "e = bitlen n - bitlen d"
  have "(of_int d :: rat) \<le> pow2r (bitlen d)"
  proof -
    have "d < 2 ^ nat (bitlen d)" using d by (rule bitlen_bounds [THEN conjunct2])
    then have "(of_int d :: rat) < 2 ^ nat (bitlen d)"
      by (metis of_int_less_iff of_int_numeral of_int_power)
    then show ?thesis using d by (simp add: pow2r_def bitlen_nonneg)
  qed
  then have "pow2r (e - 1) * of_int d \<le> pow2r (e - 1) * pow2r (bitlen d)"
    using less_imp_le [OF pow2r_pos [of "e - 1"]] by (intro mult_left_mono)
  also have "\<dots> = pow2r (bitlen n - 1)" by (simp add: e_def flip: pow2r_add)
  also have "\<dots> \<le> of_int n" by (rule pow2r_mono_bit [OF n])
  finally have "pow2r (e - 1) \<le> x" using d by (simp add: x pos_le_divide_eq)
  then show ?thesis by (simp add: ilog2_def q e_def Let_def)
qed

lemma round_half_even_close: "\<bar>of_int (round_half_even y) - y\<bar> \<le> 1 / 2"
proof -
  have "of_int \<lfloor>y\<rfloor> \<le> y" "y < of_int \<lfloor>y\<rfloor> + 1" by linarith+
  then show ?thesis by (auto simp: round_half_even_def Let_def abs_le_iff)
qed

lemma f_round_close:
  assumes "1 \<le> x" and "x \<le> 2 ^ 100"
  shows "\<exists>r. f_round x = Fin r \<and> \<bar>r - x\<bar> \<le> x / 2 ^ 53"
proof -
  let ?q = "quantum x"
  define r where "r = of_int (round_half_even (x / ?q)) * ?q"
  have q: "0 < ?q" by simp
  have q52: "?q \<le> x / 2 ^ 52"
  proof (cases "- 1074 \<le> ilog2 x - 52")
    case True
    then have "?q = pow2r (ilog2 x) * pow2r (- 52)"
      using assms(1) by (simp add: quantum_def flip: pow2r_add)
    also have "pow2r (- 52) = 1 / 2 ^ 52" by (simp add: pow2r_def)
    finally show ?thesis using pow2r_ilog2_le [of x] assms(1) by (simp add: divide_right_mono)
  next
    case False
    then have "?q = pow2r (- 1074)" using assms(1) by (simp add: quantum_def)
    also have "\<dots> \<le> pow2r (- 52)" by (rule pow2r_mono) simp
    also have "pow2r (- 52) = 1 / 2 ^ 52" by (simp add: pow2r_def)
    finally show ?thesis using assms(1) by simp
  qed
  have "r - x = (of_int (round_half_even (x / ?q)) - x / ?q) * ?q"
    using less_imp_neq [OF q] by (simp add: r_def left_diff_distrib)
  then have "\<bar>r - x\<bar> = \<bar>of_int (round_half_even (x / ?q)) - x / ?q\<bar> * ?q"
    using abs_of_pos [OF q] by (simp add: abs_mult)
  also have "\<dots> \<le> 1 / 2 * ?q"
    using round_half_even_close less_imp_le [OF q] by (rule mult_right_mono)
  finally have close: "\<bar>r - x\<bar> \<le> x / 2 ^ 53" using q52 by simp
  have "r - x \<le> x / 2 ^ 53" "- (r - x) \<le> x / 2 ^ 53"
    using close abs_le_D1 abs_le_D2 by blast+
  then have "r \<le> x + x / 2 ^ 53" "x - x / 2 ^ 53 \<le> r" by linarith+
  moreover have "x / 2 ^ 53 \<le> x" using assms(1) by simp
  ultimately have "0 \<le> r" "r \<le> 2 * 2 ^ 100" using assms by linarith+
  moreover have "(2 :: rat) * 2 ^ 100 < 2 ^ 1024"
  proof -
    have "(2 :: rat) * 2 ^ 100 = 2 ^ 101" by simp
    also have "\<dots> < 2 ^ 1024" by (rule power_strict_increasing) simp_all
    finally show ?thesis .
  qed
  ultimately have "\<not> 2 ^ 1024 \<le> r" by linarith
  moreover have "\<not> r \<le> - (2 ^ 1024)"
  proof -
    have "- (2 ^ 1024 :: rat) < 0" by simp
    with \<open>0 \<le> r\<close> show ?thesis by linarith
  qed
  ultimately have "f_round x = Fin r"
    using assms(1) by (auto simp: f_round_def Let_def r_def simp del: power_numeral)
  with close show ?thesis by blast
qed

end
