(* ===== verification/Datamodel.thy ===== *)
theory Datamodel
  imports Float64
begin

text \<open>
  The cross-module data model (\<open>core/src/model.rs\<close>): privacy configuration, core
  configuration, raw capture types, sanitized presence, preview, runtime state and the
  error codes, field by field. Field names carry a prefix per struct, since record fields
  are global constants here.
\<close>

text \<open>Largest integer legal on the wire, 2^53 - 1.\<close>

definition MAXIMUM_SAFE_WIRE_INTEGER :: nat where
  "MAXIMUM_SAFE_WIRE_INTEGER = 9007199254740991"

section \<open>Privacy configuration\<close>

datatype privacy_default = DShare | DHide

datatype privacy_override = Inherit | OShare | OHide

record application_privacy_rule =
  app_id :: rstr
  rule_application :: privacy_override
  rule_window_title :: privacy_override
  rule_media :: privacy_override
  display_alias :: "rstr option"

datatype privacy_mapping_type = ProcessName | MediaProcessName | MediaPlayerName

record privacy_mapping =
  mapping_type :: privacy_mapping_type
  map_from :: rstr
  map_to :: rstr

record privacy_defaults =
  def_application :: privacy_default
  def_window_title :: privacy_default
  def_media :: privacy_default

record privacy_sources =
  src_application :: bool
  src_media :: bool

record privacy_config =
  defaults :: privacy_defaults
  rules :: "application_privacy_rule list"
  mappings :: "privacy_mapping list"
  share_window_titles :: bool
  ignore_null_artist :: bool
  sources :: privacy_sources

definition default_privacy_config :: privacy_config where
  "default_privacy_config =
     \<lparr>defaults = \<lparr>def_application = DShare, def_window_title = DHide, def_media = DShare\<rparr>,
      rules = [], mappings = [],
      share_window_titles = False, ignore_null_artist = False,
      sources = \<lparr>src_application = True, src_media = True\<rparr>\<rparr>"

section \<open>Core configuration\<close>

datatype media_provider_choice = Auto | Npm | Powershell

datatype credential_backend = Keyring | Dpapi

record media_config =
  provider :: media_provider_choice

record stored_connection =
  base_url :: rstr
  device_id :: rstr
  device_name :: rstr
  scopes :: "rstr list"
  pairing_next_sequence :: nat
  live_desk_enabled :: bool

record core_config =
  version :: nat
  privacy :: privacy_config
  connection :: "stored_connection option"
  media_conf :: media_config
  cred_backend :: "credential_backend option"

definition default_core_config :: core_config where
  "default_core_config =
     \<lparr>version = 1, privacy = default_privacy_config, connection = None,
      media_conf = \<lparr>provider = Auto\<rparr>, cred_backend = None\<rparr>"

section \<open>Raw capture types\<close>

record foreground_info =
  fg_app_id :: rstr
  fg_exe_path :: "rstr option"
  fg_display_name :: rstr
  fg_window_title :: "rstr option"

datatype media_kind = Music | Podcast | Video | UnknownKind

record media_snapshot =
  ms_app_id :: "rstr option"
  ms_source_aumid :: "rstr option"
  ms_player_display_name :: "rstr option"
  ms_kind :: media_kind
  ms_title :: "rstr option"
  ms_artist :: "rstr option"
  ms_album :: "rstr option"
  ms_playing :: bool
  ms_duration_seconds :: "f64 option"
  ms_position_seconds :: "f64 option"
  ms_sampled_at :: epoch_ms

section \<open>Sanitized presence\<close>

datatype playback_state = Playing | Paused

record sanitized_application =
  sa_display_name :: rstr
  sa_window_title :: "rstr option"

record sanitized_playback =
  pb_state :: playback_state
  pb_duration_seconds :: "f64 option"
  pb_position_seconds :: "f64 option"
  pb_sampled_at :: epoch_ms
  pb_rate :: f64

record sanitized_media =
  sm_session_id :: rstr
  sm_kind :: media_kind
  sm_title :: "rstr option"
  sm_artist :: "rstr option"
  sm_album :: "rstr option"
  sm_player_display_name :: "rstr option"
  sm_playback :: sanitized_playback

record sanitized_snapshot =
  observed_at :: epoch_ms
  snap_application :: "sanitized_application option"
  snap_media :: "sanitized_media option"

section \<open>Runtime state and the state shown to the UI\<close>

datatype runtime_state =
    NotPaired | Disabled | Connecting | Active | Degraded | Suspended
  | UpdateRequired | ServerFeatureUnavailable

fun runtime_state_as_str :: "runtime_state \<Rightarrow> rstr" where
  "runtime_state_as_str NotPaired = lit ''notPaired''"
| "runtime_state_as_str Disabled = lit ''disabled''"
| "runtime_state_as_str Connecting = lit ''connecting''"
| "runtime_state_as_str Active = lit ''active''"
| "runtime_state_as_str Degraded = lit ''degraded''"
| "runtime_state_as_str Suspended = lit ''suspended''"
| "runtime_state_as_str UpdateRequired = lit ''updateRequired''"
| "runtime_state_as_str ServerFeatureUnavailable = lit ''serverFeatureUnavailable''"

record connection_summary =
  cs_base_url :: rstr
  cs_device_id :: rstr
  cs_device_name :: rstr
  cs_scopes :: "rstr list"
  cs_live_desk_enabled :: bool

record preview_application =
  pa_display_name :: rstr
  pa_window_title :: "rstr option"

record preview_playback =
  pp_state :: playback_state
  pp_duration_seconds :: "f64 option"
  pp_rate :: f64

record preview_media =
  pm_kind :: media_kind
  pm_title :: "rstr option"
  pm_artist :: "rstr option"
  pm_album :: "rstr option"
  pm_player_display_name :: "rstr option"
  pm_playback :: preview_playback

record preview_projection =
  proj_application :: "preview_application option"
  proj_media :: "preview_media option"

record preview =
  projection :: preview_projection
  policy_fp :: rstr
  preview_observed_at :: epoch_ms

datatype media_provider_kind = Winrt | NoProvider

record media_provider_health =
  mph_kind :: media_provider_kind
  mph_healthy :: bool
  mph_detail :: "rstr option"

record core_state_snapshot =
  css_version :: rstr
  css_runtime_state :: runtime_state
  css_connection :: "connection_summary option"
  css_privacy :: privacy_config
  css_preview :: "preview option"
  css_media_provider :: media_provider_health
  css_recent_app_ids :: "rstr list"
  css_last_publish_at :: "epoch_ms option"
  css_last_error :: "rstr option"

section \<open>Error codes and wire-facing shared types\<close>

datatype ipc_error_code =
    PreviewOutOfDate | ENotPaired | AlreadyPaired | PairingExpired | PairingFailed
  | RequiredScopeMissing | ClientUpdateRequired | EServerFeatureUnavailable | RateLimited
  | ValidationFailed | CredentialStoreUnavailable | ENetwork | InvalidInput | Internal

fun ipc_error_code_as_str :: "ipc_error_code \<Rightarrow> rstr" where
  "ipc_error_code_as_str PreviewOutOfDate = lit ''previewOutOfDate''"
| "ipc_error_code_as_str ENotPaired = lit ''notPaired''"
| "ipc_error_code_as_str AlreadyPaired = lit ''alreadyPaired''"
| "ipc_error_code_as_str PairingExpired = lit ''pairingExpired''"
| "ipc_error_code_as_str PairingFailed = lit ''pairingFailed''"
| "ipc_error_code_as_str RequiredScopeMissing = lit ''requiredScopeMissing''"
| "ipc_error_code_as_str ClientUpdateRequired = lit ''clientUpdateRequired''"
| "ipc_error_code_as_str EServerFeatureUnavailable = lit ''serverFeatureUnavailable''"
| "ipc_error_code_as_str RateLimited = lit ''rateLimited''"
| "ipc_error_code_as_str ValidationFailed = lit ''validationFailed''"
| "ipc_error_code_as_str CredentialStoreUnavailable = lit ''credentialStoreUnavailable''"
| "ipc_error_code_as_str ENetwork = lit ''network''"
| "ipc_error_code_as_str InvalidInput = lit ''invalidInput''"
| "ipc_error_code_as_str Internal = lit ''internal''"

datatype clear_reason = CPaused | CSleep | CShutdown | CPrivacyChanged | CConnectionRemoved

record negotiated_configuration =
  supports_media_timeline :: bool
  maximum_payload_bytes :: nat
  requests_per_minute :: nat
  lease_min_seconds :: int
  lease_max_seconds :: int
  recommended_heartbeat_seconds :: int
  maximum_clock_skew_seconds :: int

record companion_credential =
  cred_device_id :: rstr
  cred_device_token :: rstr

section \<open>The enum literals are pairwise distinct\<close>

lemma ipc_error_code_as_str_inj: "ipc_error_code_as_str a = ipc_error_code_as_str b \<longleftrightarrow> a = b"
  by (cases a; cases b) (simp_all add: lit_def)

lemma runtime_state_as_str_inj: "runtime_state_as_str a = runtime_state_as_str b \<longleftrightarrow> a = b"
  by (cases a; cases b) (simp_all add: lit_def)

end
