(* ===== verification/Disk.thy ===== *)
theory Disk
  imports Datamodel
begin

text \<open>
  JSON values as \<open>serde_json::Value\<close> has them, and the files of the data directory. A file
  is kept up to the JSON document of its bytes, with the members of an object in their order and as
  often as they occur, or text that is no JSON; \<open>None\<close> is a file that is missing or cannot be opened.
  \<open>atomic_write_json\<close> and \<open>read_json_object\<close> are the helpers of \<open>core/src/store/config.rs\<close> that the stores
  share; the system call that fails, if any, is an explicit argument, also the read of a file that is
  there.
\<close>

datatype json =
    JNull | JBool bool | JInt int | JFloat f64 | JStr rstr
  | JArr "json list" | JObj "(rstr \<times> json) list"

section \<open>Objects: \<open>serde_json::Map\<close>\<close>

fun obj_get :: "(rstr \<times> json) list \<Rightarrow> rstr \<Rightarrow> json option" where
  "obj_get [] k = None"
| "obj_get ((k', v) # m) k = (if k' = k then Some v else obj_get m k)"

fun obj_set :: "(rstr \<times> json) list \<Rightarrow> rstr \<Rightarrow> json \<Rightarrow> (rstr \<times> json) list" where
  "obj_set [] k v = [(k, v)]"
| "obj_set ((k', v') # m) k v = (if k' = k then (k, v) # m else (k', v') # obj_set m k v)"

definition obj_remove :: "(rstr \<times> json) list \<Rightarrow> rstr \<Rightarrow> (rstr \<times> json) list" where
  "obj_remove m k = filter (\<lambda>(k', _). k' \<noteq> k) m"

lemma obj_get_set [simp]: "obj_get (obj_set m k v) k' = (if k' = k then Some v else obj_get m k')"
  by (induction m) auto

lemma obj_get_remove [simp]: "obj_get (obj_remove m k) k' = (if k' = k then None else obj_get m k')"
  by (induction m) (auto simp: obj_remove_def)

lemma obj_get_None_iff: "obj_get m k = None \<longleftrightarrow> k \<notin> fst ` set m"
proof (induction m)
  case (Cons a m)
  then show ?case by (cases a) simp
qed simp

lemma obj_set_keys: "fst ` set (obj_set m k v) = insert k (fst ` set m)"
proof (induction m)
  case (Cons a m)
  then show ?case by (cases a) auto
qed simp

lemma obj_set_distinct: "distinct (map fst m) \<Longrightarrow> distinct (map fst (obj_set m k v))"
proof (induction m)
  case (Cons a m)
  then show ?case by (cases a) (auto simp flip: set_map simp: obj_set_keys [unfolded image_set])
qed simp

text \<open>\<open>serde_json\<close> collects the members of a document into a map: a repeated key keeps its last value.\<close>

definition obj_of_members :: "(rstr \<times> json) list \<Rightarrow> (rstr \<times> json) list" where
  "obj_of_members ms = foldl (\<lambda>m (k, v). obj_set m k v) [] ms"

lemma obj_set_fresh: "k \<notin> fst ` set m \<Longrightarrow> obj_set m k v = m @ [(k, v)]"
proof (induction m)
  case (Cons a m)
  then show ?case by (cases a) auto
qed simp

lemma obj_of_members_distinct [simp]: "distinct (map fst (obj_of_members ms))"
proof -
  have "distinct (map fst (foldl (\<lambda>m (k, v). obj_set m k v) m ms))" if "distinct (map fst m)" for m
    using that by (induction ms arbitrary: m) (auto intro: obj_set_distinct)
  then show ?thesis by (simp add: obj_of_members_def)
qed

lemma obj_of_members_id: "distinct (map fst ms) \<Longrightarrow> obj_of_members ms = ms"
proof -
  have "foldl (\<lambda>m (k, v). obj_set m k v) m ms = m @ ms" if "distinct (map fst (m @ ms))" for m
    using that
  proof (induction ms arbitrary: m)
    case (Cons a ms)
    then show ?case by (cases a) (simp add: obj_set_fresh)
  qed simp
  then show "distinct (map fst ms) \<Longrightarrow> ?thesis" by (simp add: obj_of_members_def)
qed

lemma obj_of_members_set [simp]: "distinct (map fst m) \<Longrightarrow> obj_of_members (obj_set m k v) = obj_set m k v"
  by (rule obj_of_members_id) (rule obj_set_distinct)

lemma obj_of_members_remove [simp]: "distinct (map fst m) \<Longrightarrow> obj_of_members (obj_remove m k) = obj_remove m k"
  by (rule obj_of_members_id) (simp add: obj_remove_def distinct_map_filter)

lemma obj_of_members_Nil [simp]: "obj_of_members [] = []"
  by (simp add: obj_of_members_def)

lemma obj_remove_Nil_iff: "obj_remove m k = [] \<longleftrightarrow> (\<forall>k'. k' \<noteq> k \<longrightarrow> obj_get m k' = None)"
  by (induction m) (auto simp: obj_remove_def)

text \<open>\<open>Value::as_i64\<close> and \<open>Value::as_str\<close>.\<close>

fun json_as_i64 :: "json \<Rightarrow> int option" where
  "json_as_i64 (JInt i) = (if - (2 ^ 63) \<le> i \<and> i < 2 ^ 63 then Some i else None)"
| "json_as_i64 _ = None"

fun json_as_str :: "json \<Rightarrow> rstr option" where
  "json_as_str (JStr s) = Some s"
| "json_as_str _ = None"

section \<open>Files\<close>

type_synonym path = rstr

datatype content = Parsed json | Unparseable

type_synonym disk = "path \<Rightarrow> content option"

text \<open>
  The step of an atomic write that fails, and the error it returns. \<open>DirectoryError\<close> is the error of
  a store whose directory is unknown or cannot be created.
\<close>

datatype io_fault = NoFault | FailCreate | FailWrite | FailSync | FailRename

datatype io_error = IoError io_fault | DirectoryError

definition sibling_with_suffix :: "path \<Rightarrow> string \<Rightarrow> path" where
  "sibling_with_suffix p suffix = p @ lit suffix"

text \<open>
  Write the temporary sibling, sync it, rename it over \<open>path\<close>. A failed write leaves
  a truncated temporary file behind, a failed sync or rename a complete one.
\<close>

definition atomic_write_json :: "io_fault \<Rightarrow> disk \<Rightarrow> path \<Rightarrow> json \<Rightarrow> (io_error + unit) \<times> disk" where
  "atomic_write_json flt d p v =
     (let tmp = sibling_with_suffix p ''.tmp'' in
      case flt of
        FailCreate \<Rightarrow> (Inl (IoError flt), d)
      | FailWrite \<Rightarrow> (Inl (IoError flt), d(tmp \<mapsto> Unparseable))
      | FailSync \<Rightarrow> (Inl (IoError flt), d(tmp \<mapsto> Parsed v))
      | FailRename \<Rightarrow> (Inl (IoError flt), d(tmp \<mapsto> Parsed v))
      | NoFault \<Rightarrow> (Inr (), (d(tmp := None))(p \<mapsto> Parsed v)))"

text \<open>
  \<open>readable\<close> is the outcome of this \<open>fs::read\<close>: a file that is there may fail to be read once and not the
  next time, and a failed read gives the empty object, like a missing file and any other content.
\<close>

definition read_json_object :: "bool \<Rightarrow> disk \<Rightarrow> path \<Rightarrow> (rstr \<times> json) list" where
  "read_json_object readable d p =
     (if \<not> readable then []
      else case d p of Some (Parsed (JObj ms)) \<Rightarrow> obj_of_members ms | _ \<Rightarrow> [])"

text \<open>What a read-modify-write of a file meets: whether its read succeeds, and the fault of its write.\<close>

record rw_fault =
  rw_reads :: bool
  rw_write :: io_fault

abbreviation no_rw_fault :: rw_fault where
  "no_rw_fault \<equiv> \<lparr>rw_reads = True, rw_write = NoFault\<rparr>"

lemma read_json_object_distinct [simp]: "distinct (map fst (read_json_object r d p))"
  by (simp add: read_json_object_def split: option.split content.split json.split)

lemma read_json_object_unreadable [simp]: "read_json_object False d p = []"
  by (simp add: read_json_object_def)

lemma read_json_object_cong: "d' p = d p \<Longrightarrow> read_json_object r d' p = read_json_object r d p"
  by (simp add: read_json_object_def)

lemma read_json_object_parsed:
  "d p = Some (Parsed (JObj m)) \<Longrightarrow> distinct (map fst m) \<Longrightarrow> read_json_object True d p = m"
  by (simp add: read_json_object_def obj_of_members_id)

lemma read_json_object_missing [simp]: "d p = None \<Longrightarrow> read_json_object r d p = []"
  by (simp add: read_json_object_def)

lemma sibling_not_self [simp]: "sibling_with_suffix p ''.tmp'' \<noteq> p" "sibling_with_suffix p ''.bak'' \<noteq> p"
  by (simp_all add: sibling_with_suffix_def lit_def)

lemma atomic_write_Inr:
  "atomic_write_json flt d p v = (Inr u, d') \<Longrightarrow> d' p = Some (Parsed v) \<and> flt = NoFault"
  by (auto simp: atomic_write_json_def Let_def split: io_fault.splits)

lemma atomic_write_Inl: "atomic_write_json flt d p v = (Inl e, d') \<Longrightarrow> d' p = d p"
  by (auto simp: atomic_write_json_def Let_def sibling_not_self [symmetric] split: io_fault.splits
      dest: sym)

lemma atomic_write_other:
  "atomic_write_json flt d p v = (r, d') \<Longrightarrow> q \<noteq> p \<Longrightarrow> q \<noteq> sibling_with_suffix p ''.tmp'' \<Longrightarrow>
   d' q = d q"
  by (auto simp: atomic_write_json_def Let_def split: io_fault.splits)

lemma atomic_write_ok: "\<exists>d'. atomic_write_json NoFault d p v = (Inr (), d')"
  by (simp add: atomic_write_json_def Let_def)

text \<open>Reading back what was written.\<close>

lemma read_written_set:
  "atomic_write_json flt d p (JObj (obj_set (read_json_object r d p) k v)) = (Inr u, d') \<Longrightarrow>
   read_json_object True d' p = obj_set (read_json_object r d p) k v"
  by (auto dest!: atomic_write_Inr intro!: read_json_object_parsed obj_set_distinct)

lemma read_written_remove:
  "atomic_write_json flt d p (JObj (obj_remove (read_json_object r d p) k)) = (Inr u, d') \<Longrightarrow>
   read_json_object True d' p = obj_remove (read_json_object r d p) k"
  by (auto dest!: atomic_write_Inr intro!: read_json_object_parsed simp: obj_remove_def distinct_map_filter)

text \<open>
  Whatever fails, the file holds the old content or the new one, never a torn one.
\<close>

lemma atomic_write_old_or_new:
  "atomic_write_json flt d p v = (r, d') \<Longrightarrow> d' p = d p \<or> d' p = Some (Parsed v)"
  by (cases r) (auto dest: atomic_write_Inl atomic_write_Inr)

end
