(* ===== verification/Json_Codec.thy ===== *)
theory Json_Codec
  imports Disk
begin

text \<open>
  How \<open>serde\<close> reads and writes the types of \<open>core/src/model.rs\<close>. The derives are declarative;
  the readers below give them their documented meaning for the attributes the source uses: a
  struct is read from an object by name or from an array by position, unknown keys are
  ignored, a plain \<open>Option\<close> field may be absent or null, \<open>deserialize_with\<close> without
  \<open>default\<close> makes a key required, a unit variant is read from its string. The text of a serde
  message is not modelled: every serde failure is \<open>SerdeError\<close>; the refinements the code adds
  itself keep their own constructors.
\<close>

datatype decode_error =
    SerdeError | ExpectedIdentifier | ExpectedWireDate | ExpectedSafeInteger | EmptyToken
  | RuleAppIdEmpty | MappingFromEmpty | MappingToEmpty

section \<open>Readers\<close>

datatype shape = ByName "(rstr \<times> json) list" | ByPosition "(string \<times> json) list"

text \<open>A field that occurs twice in a document is an error; unknown keys may repeat.\<close>

definition repeats :: "string list \<Rightarrow> (rstr \<times> json) list \<Rightarrow> bool" where
  "repeats names m \<longleftrightarrow> list_ex (\<lambda>k. 1 < length (filter (\<lambda>(k', _). k' = lit k) m)) names"

fun struct_shape :: "string list \<Rightarrow> json \<Rightarrow> decode_error + shape" where
  "struct_shape names (JObj m) = (if repeats names m then Inl SerdeError else Inr (ByName m))"
| "struct_shape names (JArr xs) =
     (if length xs \<le> length names then Inr (ByPosition (zip names xs)) else Inl SerdeError)"
| "struct_shape names _ = Inl SerdeError"

fun fld :: "shape \<Rightarrow> string \<Rightarrow> json option" where
  "fld (ByName m) k = obj_get m (lit k)"
| "fld (ByPosition m) k = map_of m k"

definition nullable :: "(json \<Rightarrow> decode_error + 'a) \<Rightarrow> json \<Rightarrow> decode_error + 'a option" where
  "nullable dec v = (if v = JNull then Inr None else rbind (dec v) (\<lambda>x. Inr (Some x)))"

definition req :: "(json \<Rightarrow> decode_error + 'a) \<Rightarrow> shape \<Rightarrow> string \<Rightarrow> decode_error + 'a" where
  "req dec s k = (case fld s k of None \<Rightarrow> Inl SerdeError | Some v \<Rightarrow> dec v)"

definition opt_field ::
  "(json \<Rightarrow> decode_error + 'a) \<Rightarrow> shape \<Rightarrow> string \<Rightarrow> decode_error + 'a option" where
  "opt_field dec s k =
     (case fld s k of
        Some v \<Rightarrow> nullable dec v
      | None \<Rightarrow> (case s of ByName _ \<Rightarrow> Inr None | ByPosition _ \<Rightarrow> Inl SerdeError))"

definition default_opt ::
  "(json \<Rightarrow> decode_error + 'a) \<Rightarrow> shape \<Rightarrow> string \<Rightarrow> decode_error + 'a option" where
  "default_opt dec s k = (case fld s k of None \<Rightarrow> Inr None | Some v \<Rightarrow> nullable dec v)"

text \<open>\<open>default, deserialize_with = "de_present_string"\<close>: absent, or a string, never null.\<close>

definition present_opt ::
  "(json \<Rightarrow> decode_error + 'a) \<Rightarrow> shape \<Rightarrow> string \<Rightarrow> decode_error + 'a option" where
  "present_opt dec s k =
     (case fld s k of None \<Rightarrow> Inr None | Some v \<Rightarrow> rbind (dec v) (\<lambda>x. Inr (Some x)))"

fun traverse :: "('a \<Rightarrow> 'e + 'b) \<Rightarrow> 'a list \<Rightarrow> 'e + 'b list" where
  "traverse f [] = Inr []"
| "traverse f (x # xs) = rbind (f x) (\<lambda>y. rbind (traverse f xs) (\<lambda>ys. Inr (y # ys)))"

fun de_list :: "(json \<Rightarrow> decode_error + 'a) \<Rightarrow> json \<Rightarrow> decode_error + 'a list" where
  "de_list dec (JArr xs) = traverse dec xs"
| "de_list dec _ = Inl SerdeError"

fun de_bool :: "json \<Rightarrow> decode_error + bool" where
  "de_bool (JBool b) = Inr b"
| "de_bool _ = Inl SerdeError"

fun de_string :: "json \<Rightarrow> decode_error + rstr" where
  "de_string (JStr s) = Inr s"
| "de_string _ = Inl SerdeError"

definition de_present_string :: "json \<Rightarrow> decode_error + rstr option" where
  "de_present_string v = rbind (de_string v) (\<lambda>s. Inr (Some s))"

text \<open>Unsigned and signed integers of a given width; a float is no integer.\<close>

fun de_unsigned :: "nat \<Rightarrow> json \<Rightarrow> decode_error + nat" where
  "de_unsigned w (JInt i) = (if 0 \<le> i \<and> i < 2 ^ w then Inr (nat i) else Inl SerdeError)"
| "de_unsigned w _ = Inl SerdeError"

fun de_i64 :: "json \<Rightarrow> decode_error + int" where
  "de_i64 (JInt i) = (if - (2 ^ 63) \<le> i \<and> i < 2 ^ 63 then Inr i else Inl SerdeError)"
| "de_i64 _ = Inl SerdeError"

text \<open>A unit variant: its string, or the externally tagged object with a null payload.\<close>

fun enum_tag :: "json \<Rightarrow> rstr option" where
  "enum_tag (JStr s) = Some s"
| "enum_tag (JObj [(s, JNull)]) = Some s"
| "enum_tag _ = None"

definition de_enum :: "(rstr \<times> 'a) list \<Rightarrow> json \<Rightarrow> decode_error + 'a" where
  "de_enum table v = ok_or SerdeError (Option.bind (enum_tag v) (map_of table))"

definition de_wire_u64 :: "json \<Rightarrow> decode_error + nat" where
  "de_wire_u64 v =
     rbind (de_unsigned 64 v) (\<lambda>n.
       if n > MAXIMUM_SAFE_WIRE_INTEGER then Inl SerdeError else Inr n)"

definition de_required_nullable_wire_u64 :: "json \<Rightarrow> decode_error + nat option" where
  "de_required_nullable_wire_u64 v =
     rbind (nullable (de_unsigned 64) v) (\<lambda>r.
       case r of Some n \<Rightarrow> if n > MAXIMUM_SAFE_WIRE_INTEGER then Inl SerdeError else Inr r
       | None \<Rightarrow> Inr r)"

definition de_required_nullable_value :: "json \<Rightarrow> decode_error + json option" where
  "de_required_nullable_value v = nullable Inr v"

definition de_presence_schema_literal :: "json \<Rightarrow> decode_error + rstr" where
  "de_presence_schema_literal v =
     rbind (de_string v) (\<lambda>s.
       if s \<noteq> lit ''yohaku.companion.presence'' then Inl SerdeError else Inr s)"

definition de_schema_version_literal :: "json \<Rightarrow> decode_error + nat" where
  "de_schema_version_literal v =
     rbind (de_unsigned 32 v) (\<lambda>n. if n \<noteq> 2 then Inl SerdeError else Inr n)"

definition de_config_version_literal :: "json \<Rightarrow> decode_error + nat" where
  "de_config_version_literal v =
     rbind (de_unsigned 32 v) (\<lambda>n. if n \<noteq> 1 then Inl SerdeError else Inr n)"

lemmas reader_defs = req_def opt_field_def default_opt_def present_opt_def

lemma repeats_distinct [simp]:
  assumes "distinct (map fst m)"
  shows "\<not> repeats names m"
proof -
  have "length (filter (\<lambda>(k', _). k' = x) m) \<le> 1" for x
    using assms
  proof (induction m)
    case (Cons a m)
    have "filter (\<lambda>(k', _). k' = fst a) m = []"
      using Cons.prems by (auto simp: filter_empty_conv intro: rev_image_eqI)
    then show ?case using Cons by (cases a) auto
  qed simp
  then show ?thesis by (auto simp: repeats_def list_ex_iff not_less [symmetric])
qed

lemma traverse_map_Inr: "(\<And>x. x \<in> set xs \<Longrightarrow> f (g x) = Inr x) \<Longrightarrow> traverse f (map g xs) = Inr xs"
  by (induction xs) auto

lemma traverse_Inr_length: "traverse f xs = Inr ys \<Longrightarrow> length ys = length xs"
  by (induction xs arbitrary: ys) auto

lemma de_list_map [json_simps]:
  "(\<And>x. x \<in> set xs \<Longrightarrow> dec (enc x) = Inr x) \<Longrightarrow> de_list dec (JArr (map enc xs)) = Inr xs"
  by (simp add: traverse_map_Inr)

lemma de_unsigned_Inr: "de_unsigned w v = Inr n \<Longrightarrow> v = JInt (int n) \<and> n < 2 ^ w"
  by (cases v) (auto split: if_splits)

lemma de_wire_u64_Inr: "de_wire_u64 v = Inr n \<Longrightarrow> v = JInt (int n) \<and> n \<le> MAXIMUM_SAFE_WIRE_INTEGER"
  by (auto simp: de_wire_u64_def dest: de_unsigned_Inr split: if_splits)

lemma de_required_nullable_wire_u64_Inr:
  "de_required_nullable_wire_u64 v = Inr (Some n) \<Longrightarrow> n \<le> MAXIMUM_SAFE_WIRE_INTEGER"
  by (cases "nullable (de_unsigned 64) v")
    (auto simp: de_required_nullable_wire_u64_def split: if_splits option.splits simp del: rbind_Inr_iff)

section \<open>Privacy configuration\<close>

definition privacy_default_table :: "(rstr \<times> privacy_default) list" where
  "privacy_default_table = [(lit ''share'', DShare), (lit ''hide'', DHide)]"

definition privacy_override_table :: "(rstr \<times> privacy_override) list" where
  "privacy_override_table =
     [(lit ''inherit'', Inherit), (lit ''share'', OShare), (lit ''hide'', OHide)]"

definition mapping_type_table :: "(rstr \<times> privacy_mapping_type) list" where
  "mapping_type_table =
     [(lit ''process_name'', ProcessName), (lit ''media_process_name'', MediaProcessName),
      (lit ''media_player_name'', MediaPlayerName)]"

definition provider_table :: "(rstr \<times> media_provider_choice) list" where
  "provider_table = [(lit ''auto'', Auto), (lit ''npm'', Npm), (lit ''powershell'', Powershell)]"

definition backend_table :: "(rstr \<times> credential_backend) list" where
  "backend_table = [(lit ''keyring'', Keyring), (lit ''dpapi'', Dpapi)]"

text \<open>Writing a unit variant: the string of its table.\<close>

fun en_enum :: "(rstr \<times> 'a) list \<Rightarrow> 'a \<Rightarrow> json" where
  "en_enum [] x = JNull"
| "en_enum ((s, y) # t) x = (if x = y then JStr s else en_enum t x)"

fun en_opt :: "('a \<Rightarrow> json) \<Rightarrow> 'a option \<Rightarrow> json" where
  "en_opt enc None = JNull"
| "en_opt enc (Some x) = enc x"

definition de_rule :: "json \<Rightarrow> decode_error + application_privacy_rule" where
  "de_rule v =
     rbind (struct_shape [''appId'', ''application'', ''windowTitle'', ''media'', ''displayAlias''] v) (\<lambda>s.
     rbind (req de_string s ''appId'') (\<lambda>i.
     rbind (req (de_enum privacy_override_table) s ''application'') (\<lambda>a.
     rbind (req (de_enum privacy_override_table) s ''windowTitle'') (\<lambda>w.
     rbind (req (de_enum privacy_override_table) s ''media'') (\<lambda>m.
     rbind (present_opt de_string s ''displayAlias'') (\<lambda>al.
       Inr \<lparr>app_id = i, rule_application = a, rule_window_title = w, rule_media = m,
            display_alias = al\<rparr>))))))"

definition en_rule :: "application_privacy_rule \<Rightarrow> json" where
  "en_rule r =
     JObj ([(lit ''appId'', JStr (app_id r)),
            (lit ''application'', en_enum privacy_override_table (rule_application r)),
            (lit ''windowTitle'', en_enum privacy_override_table (rule_window_title r)),
            (lit ''media'', en_enum privacy_override_table (rule_media r))] @
           (case display_alias r of None \<Rightarrow> [] | Some al \<Rightarrow> [(lit ''displayAlias'', JStr al)]))"

definition de_mapping :: "json \<Rightarrow> decode_error + privacy_mapping" where
  "de_mapping v =
     rbind (struct_shape [''type'', ''from'', ''to''] v) (\<lambda>s.
     rbind (req (de_enum mapping_type_table) s ''type'') (\<lambda>t.
     rbind (req de_string s ''from'') (\<lambda>f.
     rbind (req de_string s ''to'') (\<lambda>u.
       Inr \<lparr>mapping_type = t, map_from = f, map_to = u\<rparr>))))"

definition en_mapping :: "privacy_mapping \<Rightarrow> json" where
  "en_mapping m =
     JObj [(lit ''type'', en_enum mapping_type_table (mapping_type m)),
           (lit ''from'', JStr (map_from m)), (lit ''to'', JStr (map_to m))]"

definition de_defaults :: "json \<Rightarrow> decode_error + privacy_defaults" where
  "de_defaults v =
     rbind (struct_shape [''application'', ''windowTitle'', ''media''] v) (\<lambda>s.
     rbind (req (de_enum privacy_default_table) s ''application'') (\<lambda>a.
     rbind (req (de_enum privacy_default_table) s ''windowTitle'') (\<lambda>w.
     rbind (req (de_enum privacy_default_table) s ''media'') (\<lambda>m.
       Inr \<lparr>def_application = a, def_window_title = w, def_media = m\<rparr>))))"

definition en_defaults :: "privacy_defaults \<Rightarrow> json" where
  "en_defaults d =
     JObj [(lit ''application'', en_enum privacy_default_table (def_application d)),
           (lit ''windowTitle'', en_enum privacy_default_table (def_window_title d)),
           (lit ''media'', en_enum privacy_default_table (def_media d))]"

definition de_sources :: "json \<Rightarrow> decode_error + privacy_sources" where
  "de_sources v =
     rbind (struct_shape [''application'', ''media''] v) (\<lambda>s.
     rbind (req de_bool s ''application'') (\<lambda>a.
     rbind (req de_bool s ''media'') (\<lambda>m.
       Inr \<lparr>src_application = a, src_media = m\<rparr>)))"

definition en_sources :: "privacy_sources \<Rightarrow> json" where
  "en_sources x =
     JObj [(lit ''application'', JBool (src_application x)), (lit ''media'', JBool (src_media x))]"

definition de_privacy :: "json \<Rightarrow> decode_error + privacy_config" where
  "de_privacy v =
     rbind (struct_shape [''defaults'', ''rules'', ''mappings'', ''shareWindowTitles'',
                          ''ignoreNullArtist'', ''sources''] v) (\<lambda>s.
     rbind (req de_defaults s ''defaults'') (\<lambda>d.
     rbind (req (de_list de_rule) s ''rules'') (\<lambda>r.
     rbind (req (de_list de_mapping) s ''mappings'') (\<lambda>m.
     rbind (req de_bool s ''shareWindowTitles'') (\<lambda>w.
     rbind (req de_bool s ''ignoreNullArtist'') (\<lambda>n.
     rbind (req de_sources s ''sources'') (\<lambda>src.
       Inr \<lparr>defaults = d, rules = r, mappings = m, share_window_titles = w,
            ignore_null_artist = n, sources = src\<rparr>)))))))"

definition en_privacy :: "privacy_config \<Rightarrow> json" where
  "en_privacy p =
     JObj [(lit ''defaults'', en_defaults (defaults p)),
           (lit ''rules'', JArr (map en_rule (rules p))),
           (lit ''mappings'', JArr (map en_mapping (mappings p))),
           (lit ''shareWindowTitles'', JBool (share_window_titles p)),
           (lit ''ignoreNullArtist'', JBool (ignore_null_artist p)),
           (lit ''sources'', en_sources (sources p))]"

section \<open>Core configuration\<close>

definition de_connection :: "json \<Rightarrow> decode_error + stored_connection" where
  "de_connection v =
     rbind (struct_shape [''baseUrl'', ''deviceId'', ''deviceName'', ''scopes'',
                          ''pairingNextSequence'', ''liveDeskEnabled''] v) (\<lambda>s.
     rbind (req de_string s ''baseUrl'') (\<lambda>b.
     rbind (req de_string s ''deviceId'') (\<lambda>i.
     rbind (req de_string s ''deviceName'') (\<lambda>n.
     rbind (req (de_list de_string) s ''scopes'') (\<lambda>sc.
     rbind (req (de_unsigned 64) s ''pairingNextSequence'') (\<lambda>q.
     rbind (req de_bool s ''liveDeskEnabled'') (\<lambda>l.
       Inr \<lparr>base_url = b, device_id = i, device_name = n, scopes = sc,
            pairing_next_sequence = q, live_desk_enabled = l\<rparr>)))))))"

definition en_connection :: "stored_connection \<Rightarrow> json" where
  "en_connection c =
     JObj [(lit ''baseUrl'', JStr (base_url c)), (lit ''deviceId'', JStr (device_id c)),
           (lit ''deviceName'', JStr (device_name c)),
           (lit ''scopes'', JArr (map JStr (scopes c))),
           (lit ''pairingNextSequence'', JInt (int (pairing_next_sequence c))),
           (lit ''liveDeskEnabled'', JBool (live_desk_enabled c))]"

definition de_media_config :: "json \<Rightarrow> decode_error + media_config" where
  "de_media_config v =
     rbind (struct_shape [''provider''] v) (\<lambda>s.
     rbind (req (de_enum provider_table) s ''provider'') (\<lambda>p. Inr \<lparr>provider = p\<rparr>))"

definition en_media_config :: "media_config \<Rightarrow> json" where
  "en_media_config m = JObj [(lit ''provider'', en_enum provider_table (provider m))]"

definition de_core_config :: "json \<Rightarrow> decode_error + core_config" where
  "de_core_config v =
     rbind (struct_shape [''version'', ''privacy'', ''connection'', ''media'',
                          ''credentialBackend''] v) (\<lambda>s.
     rbind (req de_config_version_literal s ''version'') (\<lambda>n.
     rbind (req de_privacy s ''privacy'') (\<lambda>p.
     rbind (opt_field de_connection s ''connection'') (\<lambda>c.
     rbind (req de_media_config s ''media'') (\<lambda>m.
     rbind (opt_field (de_enum backend_table) s ''credentialBackend'') (\<lambda>b.
       Inr \<lparr>version = n, privacy = p, connection = c, media_conf = m, cred_backend = b\<rparr>))))))"

definition en_core_config :: "core_config \<Rightarrow> json" where
  "en_core_config c =
     JObj [(lit ''version'', JInt (int (version c))), (lit ''privacy'', en_privacy (privacy c)),
           (lit ''connection'', en_opt en_connection (connection c)),
           (lit ''media'', en_media_config (media_conf c)),
           (lit ''credentialBackend'', en_opt (en_enum backend_table) (cred_backend c))]"

section \<open>Round trips\<close>

lemma de_en_default [json_simps]: "de_enum privacy_default_table (en_enum privacy_default_table x) = Inr x"
  by (cases x) (simp_all add: de_enum_def privacy_default_table_def)

lemma de_en_override [json_simps]: "de_enum privacy_override_table (en_enum privacy_override_table x) = Inr x"
  by (cases x) (simp_all add: de_enum_def privacy_override_table_def)

lemma de_en_mapping_type [json_simps]: "de_enum mapping_type_table (en_enum mapping_type_table x) = Inr x"
  by (cases x) (simp_all add: de_enum_def mapping_type_table_def)

lemma de_en_provider [json_simps]: "de_enum provider_table (en_enum provider_table x) = Inr x"
  by (cases x) (simp_all add: de_enum_def provider_table_def)

lemma de_en_backend [json_simps]: "de_enum backend_table (en_enum backend_table x) = Inr x"
  by (cases x) (simp_all add: de_enum_def backend_table_def)

lemma de_en_rule [json_simps]: "de_rule (en_rule r) = Inr r"
  by (cases "display_alias r") (simp_all add: de_rule_def en_rule_def reader_defs json_simps)

lemma de_en_mapping [json_simps]: "de_mapping (en_mapping m) = Inr m"
  by (simp add: de_mapping_def en_mapping_def reader_defs json_simps)

lemma de_en_defaults [json_simps]: "de_defaults (en_defaults d) = Inr d"
  by (simp add: de_defaults_def en_defaults_def reader_defs json_simps)

lemma de_en_sources [json_simps]: "de_sources (en_sources x) = Inr x"
  by (simp add: de_sources_def en_sources_def reader_defs)

lemma de_en_privacy [json_simps]: "de_privacy (en_privacy p) = Inr p"
  by (simp add: de_privacy_def en_privacy_def reader_defs json_simps del: de_list.simps)

lemma de_strings [json_simps]: "de_list de_string (JArr (map JStr xs)) = Inr xs"
  by (rule de_list_map) simp

lemma de_en_connection [json_simps]:
  "pairing_next_sequence c < 2 ^ 64 \<Longrightarrow> de_connection (en_connection c) = Inr c"
  by (simp add: de_connection_def en_connection_def reader_defs json_simps del: de_list.simps)

lemma de_en_media_config [json_simps]: "de_media_config (en_media_config m) = Inr m"
  by (simp add: de_media_config_def en_media_config_def reader_defs json_simps)

lemma nullable_en_opt:
  assumes "\<And>x. r = Some x \<Longrightarrow> dec (enc x) = Inr x" and "\<And>x. enc x \<noteq> JNull"
  shows "nullable dec (en_opt enc r) = Inr r"
  using assms by (cases r) (auto simp: nullable_def)

lemma en_connection_not_null: "en_connection c \<noteq> JNull"
  by (simp add: en_connection_def)

lemma en_backend_not_null: "en_enum backend_table b \<noteq> JNull"
  by (cases b) (simp_all add: backend_table_def)

text \<open>The machine-width side condition on an in-memory configuration.\<close>

definition config_widths :: "core_config \<Rightarrow> bool" where
  "config_widths c \<longleftrightarrow> version c < 2 ^ 32 \<and>
     (case connection c of None \<Rightarrow> True | Some x \<Rightarrow> pairing_next_sequence x < 2 ^ 64)"

lemma de_en_core_config:
  assumes "config_widths c"
  shows "de_core_config (en_core_config c) = (if version c = 1 then Inr c else Inl SerdeError)"
proof -
  have c: "nullable de_connection (en_opt en_connection (connection c)) = Inr (connection c)"
    using assms by (intro nullable_en_opt) (auto simp: config_widths_def json_simps en_connection_not_null)
  have b: "nullable (de_enum backend_table) (en_opt (en_enum backend_table) (cred_backend c)) =
      Inr (cred_backend c)"
    by (intro nullable_en_opt) (auto simp: json_simps en_backend_not_null)
  show ?thesis
    using assms
    by (simp add: de_core_config_def en_core_config_def reader_defs json_simps b c
        de_config_version_literal_def config_widths_def)
qed

end
