(* ===== verification/Config_Store.thy ===== *)
theory Config_Store
  imports Json_Codec
begin

text \<open>
  \<open>config.json\<close> (\<open>core/src/store/config.rs\<close>): the data directory, loading with the
  corrupt-file path, whole-schema validation, and \<open>ConfigStore::update\<close> with its lock and
  its synchronous listeners. A listener is an identifier; what its callback does is the
  argument \<open>call\<close>, a function of the store and the disk whose result \<open>None\<close> is a call that
  never returns. The update lock is a flag, because the lock is not re-entrant: locking it
  while it is held does not return.
\<close>

section \<open>Data directory\<close>

text \<open>\<open>Path::join\<close> with a relative component: no separator after one, nor after \<open>C:\<close>.\<close>

definition is_separator :: "scalar \<Rightarrow> bool" where
  "is_separator c \<longleftrightarrow> c = 92 \<or> c = 47"

definition is_drive :: "path \<Rightarrow> bool" where
  "is_drive p \<longleftrightarrow> length p = 2 \<and> p ! 1 = 58 \<and> (65 \<le> p ! 0 \<and> p ! 0 \<le> 90 \<or> 97 \<le> p ! 0 \<and> p ! 0 \<le> 122)"

definition path_join :: "path \<Rightarrow> path \<Rightarrow> path" where
  "path_join base name =
     (if base = [] \<or> is_separator (last base) \<or> is_drive base then base @ name
      else base @ [92] @ name)"

datatype config_store_error = DataDirUnavailable | Io io_error | Invalid decode_error

fun resolve_data_directory :: "path option \<Rightarrow> path option \<Rightarrow> config_store_error + path" where
  "resolve_data_directory override_dir app_data =
     (case override_dir of
        Some dir \<Rightarrow>
          if dir \<noteq> [] then Inr dir
          else (case app_data of
                  Some a \<Rightarrow> if a \<noteq> [] then Inr (path_join a (lit ''yohaku-companion-win''))
                            else Inl DataDirUnavailable
                | None \<Rightarrow> Inl DataDirUnavailable)
      | None \<Rightarrow>
          (case app_data of
             Some a \<Rightarrow> if a \<noteq> [] then Inr (path_join a (lit ''yohaku-companion-win''))
                       else Inl DataDirUnavailable
           | None \<Rightarrow> Inl DataDirUnavailable))"

section \<open>Validation\<close>

fun check_rules :: "application_privacy_rule list \<Rightarrow> decode_error + unit" where
  "check_rules [] = Inr ()"
| "check_rules (r # rs) = (if app_id r = [] then Inl RuleAppIdEmpty else check_rules rs)"

fun check_mappings :: "privacy_mapping list \<Rightarrow> decode_error + unit" where
  "check_mappings [] = Inr ()"
| "check_mappings (m # ms) =
     (if map_from m = [] then Inl MappingFromEmpty
      else if map_to m = [] then Inl MappingToEmpty
      else check_mappings ms)"

definition validate_config_semantics :: "core_config \<Rightarrow> decode_error + unit" where
  "validate_config_semantics c =
     rbind (check_rules (rules (privacy c))) (\<lambda>_. check_mappings (mappings (privacy c)))"

fun parse_config :: "content \<Rightarrow> decode_error + core_config" where
  "parse_config Unparseable = Inl SerdeError"
| "parse_config (Parsed v) =
     rbind (de_core_config v) (\<lambda>c. rbind (validate_config_semantics c) (\<lambda>_. Inr c))"

definition revalidate :: "core_config \<Rightarrow> decode_error + core_config" where
  "revalidate config =
     rbind (de_core_config (en_core_config config)) (\<lambda>parsed.
     rbind (validate_config_semantics parsed) (\<lambda>_. Inr parsed))"

section \<open>The store\<close>

record 'l config_store =
  cst_path :: path
  cst_config :: core_config
  cst_listeners :: "(nat \<times> 'l) list"
  cst_next_listener_id :: nat
  cst_update_held :: bool

text \<open>
  \<open>load\<close>: a missing or unreadable file gives the defaults and nothing else; a file that does
  not parse or validate is copied beside (best effort: \<open>copy_ok\<close>), and the defaults hold in
  memory only.
\<close>

definition cs_load :: "bool \<Rightarrow> disk \<Rightarrow> path \<Rightarrow> core_config \<times> disk" where
  "cs_load copy_ok d p =
     (case d p of
        None \<Rightarrow> (default_core_config, d)
      | Some content \<Rightarrow>
          (case parse_config content of
             Inr config \<Rightarrow> (config, d)
           | Inl _ \<Rightarrow>
               (default_core_config,
                if copy_ok then d(sibling_with_suffix p ''.bak'' \<mapsto> content) else d)))"

definition config_store_at :: "bool \<Rightarrow> disk \<Rightarrow> path \<Rightarrow> 'l config_store \<times> disk" where
  "config_store_at copy_ok d directory =
     (let p = path_join directory (lit ''config.json'')
      in case cs_load copy_ok d p of
           (config, d') \<Rightarrow>
             (\<lparr>cst_path = p, cst_config = config, cst_listeners = [], cst_next_listener_id = 0,
               cst_update_held = False\<rparr>, d'))"

text \<open>
  The directory a store is opened in: the given one, or what \<open>data_directory\<close> answers; \<open>created\<close> is the
  outcome of \<open>create_dir_all\<close>.
\<close>

definition open_directory :: "path option \<Rightarrow> config_store_error + path \<Rightarrow> bool \<Rightarrow> config_store_error + path" where
  "open_directory directory data_dir created =
     rbind (case directory of Some p \<Rightarrow> Inr p | None \<Rightarrow> data_dir) (\<lambda>p.
       if created then Inr p else Inl DataDirUnavailable)"

definition config_store_new ::
  "bool \<Rightarrow> path option \<Rightarrow> config_store_error + path \<Rightarrow> bool \<Rightarrow> disk \<Rightarrow>
   config_store_error + 'l config_store \<times> disk" where
  "config_store_new copy_ok directory data_dir created d =
     rbind (open_directory directory data_dir created) (\<lambda>p. Inr (config_store_at copy_ok d p))"

definition on_change :: "'l \<Rightarrow> 'l config_store \<Rightarrow> nat \<times> 'l config_store" where
  "on_change l st =
     (cst_next_listener_id st,
      st\<lparr>cst_next_listener_id := cst_next_listener_id st + 1,
         cst_listeners := cst_listeners st @ [(cst_next_listener_id st, l)]\<rparr>)"

definition unsubscribe :: "nat \<Rightarrow> 'l config_store \<Rightarrow> 'l config_store" where
  "unsubscribe i st = st\<lparr>cst_listeners := filter (\<lambda>(j, _). j \<noteq> i) (cst_listeners st)\<rparr>"

type_synonym 'l callback =
  "'l \<Rightarrow> core_config \<Rightarrow> 'l config_store \<times> disk \<Rightarrow> ('l config_store \<times> disk) option"

fun notify :: "'l callback \<Rightarrow> 'l list \<Rightarrow> core_config \<Rightarrow> 'l config_store \<times> disk \<Rightarrow>
    ('l config_store \<times> disk) option" where
  "notify call [] c sd = Some sd"
| "notify call (l # ls) c sd = Option.bind (call l c sd) (notify call ls c)"

text \<open>\<open>update\<close>: the lock is held until the last callback has returned.\<close>

definition update ::
  "'l callback \<Rightarrow> io_fault \<Rightarrow> (core_config \<Rightarrow> core_config) \<Rightarrow> 'l config_store \<times> disk \<Rightarrow>
   ((config_store_error + core_config) \<times> 'l config_store \<times> disk) option" where
  "update call flt mutate sd =
     (case sd of (st, d) \<Rightarrow>
        if cst_update_held st then None
        else
          case revalidate (mutate (cst_config st)) of
            Inl e \<Rightarrow> Some (Inl (Invalid e), st, d)
          | Inr nxt \<Rightarrow>
              (case atomic_write_json flt d (cst_path st) (en_core_config nxt) of
                 (Inl e, d') \<Rightarrow> Some (Inl (Io e), st, d')
               | (Inr _, d') \<Rightarrow>
                   let st1 = st\<lparr>cst_update_held := True, cst_config := nxt\<rparr>
                   in map_option (\<lambda>(st2, d2). (Inr nxt, st2\<lparr>cst_update_held := False\<rparr>, d2))
                        (notify call (map snd (cst_listeners st1)) nxt (st1, d'))))"

section \<open>Lemmas\<close>

lemma check_rules_Inr: "check_rules rs = Inr u \<longleftrightarrow> (\<forall>r \<in> set rs. app_id r \<noteq> [])"
  by (induction rs) auto

lemma check_mappings_Inr:
  "check_mappings ms = Inr u \<longleftrightarrow> (\<forall>m \<in> set ms. map_from m \<noteq> [] \<and> map_to m \<noteq> [])"
  by (induction ms) auto

text \<open>The validity invariant of an in-memory configuration.\<close>

definition config_valid :: "core_config \<Rightarrow> bool" where
  "config_valid c \<longleftrightarrow> version c = 1 \<and> config_widths c \<and>
     (\<forall>r \<in> set (rules (privacy c)). app_id r \<noteq> []) \<and>
     (\<forall>m \<in> set (mappings (privacy c)). map_from m \<noteq> [] \<and> map_to m \<noteq> [])"

lemma validate_Inr:
  "validate_config_semantics c = Inr u \<longleftrightarrow>
     (\<forall>r \<in> set (rules (privacy c)). app_id r \<noteq> []) \<and>
     (\<forall>m \<in> set (mappings (privacy c)). map_from m \<noteq> [] \<and> map_to m \<noteq> [])"
  by (auto simp: validate_config_semantics_def check_rules_Inr check_mappings_Inr)

lemma de_connection_width: "de_connection v = Inr c \<Longrightarrow> pairing_next_sequence c < 2 ^ 64"
  by (auto simp: de_connection_def req_def dest!: de_unsigned_Inr split: option.splits)

lemma de_core_config_Inr:
  assumes "de_core_config v = Inr c"
  shows "version c = 1" and "config_widths c"
  using assms
  by (auto simp: de_core_config_def de_config_version_literal_def req_def opt_field_def nullable_def
      config_widths_def dest: de_connection_width split: option.splits if_splits shape.splits)

lemma parse_config_valid: "parse_config x = Inr c \<Longrightarrow> config_valid c"
  by (cases x) (auto simp: config_valid_def validate_Inr dest: de_core_config_Inr)

lemma default_config_valid: "config_valid default_core_config"
  by (simp add: config_valid_def default_core_config_def default_privacy_config_def config_widths_def)

lemma cs_load_valid: "cs_load ok d p = (c, d') \<Longrightarrow> config_valid c"
  by (auto simp: cs_load_def default_config_valid parse_config_valid
      split: option.splits sum.splits)

lemma revalidate_Inr:
  "config_widths c \<Longrightarrow> revalidate c = Inr n \<longleftrightarrow> n = c \<and> config_valid c"
  by (auto simp: revalidate_def de_en_core_config validate_Inr config_valid_def)

lemma parse_written: "config_valid c \<Longrightarrow> parse_config (Parsed (en_core_config c)) = Inr c"
  by (simp add: de_en_core_config validate_Inr config_valid_def)

lemma load_written: "config_valid c \<Longrightarrow> d p = Some (Parsed (en_core_config c)) \<Longrightarrow> cs_load ok d p = (c, d)"
  by (simp add: cs_load_def parse_written del: parse_config.simps)

lemma update_no_listeners:
  assumes "update call flt f (st, d) = Some (Inr c, st', d')" and "cst_listeners st = []"
  shows "st' = st\<lparr>cst_config := c\<rparr> \<and> d' (cst_path st) = Some (Parsed (en_core_config c)) \<and>
    revalidate (f (cst_config st)) = Inr c"
  using assms atomic_write_Inr
  by (fastforce simp: update_def Let_def split: if_splits sum.splits prod.splits)

text \<open>A callback that calls \<open>update\<close> with arguments of its own and ignores the result.\<close>

definition calls_update :: "'l callback \<Rightarrow> 'l \<Rightarrow> bool" where
  "calls_update call l \<longleftrightarrow> (\<exists>call' flt g. \<forall>c sd.
     call l c sd = map_option (\<lambda>(_, st, d). (st, d)) (update call' flt g sd))"

definition keeps_lock :: "'l callback \<Rightarrow> bool" where
  "keeps_lock call \<longleftrightarrow> (\<forall>l c sd sd'. cst_update_held (fst sd) \<and> call l c sd = Some sd' \<longrightarrow>
     cst_update_held (fst sd'))"

lemma update_held_stuck: "cst_update_held (fst sd) \<Longrightarrow> update call flt f sd = None"
  by (cases sd) (simp add: update_def)

lemma notify_stuck:
  assumes "calls_update call l" and "keeps_lock call"
  shows "l \<in> set ls \<Longrightarrow> cst_update_held (fst sd) \<Longrightarrow> notify call ls c sd = None"
proof (induction ls arbitrary: sd)
  case (Cons m ls)
  show ?case
  proof (cases "call m c sd")
    case (Some sd')
    have "m \<noteq> l"
      using Some assms(1) Cons.prems(2) by (metis calls_update_def option.distinct(1) option.map(1) update_held_stuck)
    moreover have "cst_update_held (fst sd')"
      using Some assms(2) [unfolded keeps_lock_def] Cons.prems(2) by blast
    ultimately show ?thesis using Some Cons by simp
  qed simp
qed simp

section \<open>Properties\<close>

text \<open>
  C38: a configuration survives the disk. Writing any configuration and reading it back
  succeeds exactly for the valid ones and then gives the same configuration: version 1, no
  empty rule id, no empty mapping side. So the re-validation of \<open>update\<close> accepts exactly the
  valid configurations and never alters one.
\<close>

theorem config_round_trip:
  assumes "config_widths c"
  shows "(parse_config (Parsed (en_core_config c)) = Inr c \<longleftrightarrow> config_valid c) \<and>
    (is_ok (parse_config (Parsed (en_core_config c))) \<longleftrightarrow> config_valid c) \<and>
    (revalidate c = Inr c \<longleftrightarrow> config_valid c)"
  using assms
  by (auto simp: is_ok_iff revalidate_Inr de_en_core_config validate_Inr config_valid_def)

lemma config_round_trip_witness:
  "parse_config (Parsed (en_core_config default_core_config)) = Inr default_core_config"
  using config_round_trip [of default_core_config] default_config_valid
  by (simp add: config_valid_def del: parse_config.simps)

text \<open>
  C17: \<open>update\<close> is all or nothing. An error (invalid result or any failing step of the atomic
  write) leaves the configuration in memory and the bytes of \<open>config.json\<close> as they were;
  success leaves a valid configuration in memory and on disk, and a process started on that
  disk loads exactly it. Here no listener is registered.
\<close>

theorem update_atomic:
  assumes "update call flt f (st, d) = Some (r, st', d')" and "cst_listeners st = []"
    and "config_widths (f (cst_config st))"
  shows "(case r of
      Inl _ \<Rightarrow> st' = st \<and> d' (cst_path st) = d (cst_path st)
    | Inr c \<Rightarrow> c = f (cst_config st) \<and> config_valid c \<and> st' = st\<lparr>cst_config := c\<rparr> \<and>
        (\<forall>ok. cs_load ok d' (cst_path st) = (c, d')))"
proof (cases r)
  case (Inl e)
  then show ?thesis using assms atomic_write_Inl
    by (fastforce simp: update_def Let_def split: if_splits sum.splits prod.splits)
next
  case (Inr c)
  have "st' = st\<lparr>cst_config := c\<rparr>" "d' (cst_path st) = Some (Parsed (en_core_config c))"
    "c = f (cst_config st)" "config_valid c"
    using update_no_listeners [OF assms(1) [unfolded Inr] assms(2)] revalidate_Inr [OF assms(3)]
    by auto
  then show ?thesis using Inr by (simp add: load_written)
qed

lemma update_atomic_witness:
  "\<exists>d'. update (\<lambda>_ _. Some) NoFault (privacy_update (share_window_titles_update (\<lambda>_. True)))
      (fst (config_store_at True (\<lambda>_. None) (lit ''C:'') :: unit config_store \<times> disk), \<lambda>_. None) =
      Some (Inr (default_core_config\<lparr>privacy := default_privacy_config\<lparr>share_window_titles := True\<rparr>\<rparr>),
        (fst (config_store_at True (\<lambda>_. None) (lit ''C:'')))\<lparr>cst_config :=
          default_core_config\<lparr>privacy := default_privacy_config\<lparr>share_window_titles := True\<rparr>\<rparr>\<rparr>, d') \<and>
      d' (lit ''C:config.json'') \<noteq> None"
proof -
  let ?st = "fst (config_store_at True (\<lambda>_. None) (lit ''C:'') :: unit config_store \<times> disk)"
  let ?f = "privacy_update (share_window_titles_update (\<lambda>_. True))"
  have st: "?st = \<lparr>cst_path = lit ''C:config.json'', cst_config = default_core_config, cst_listeners = [],
      cst_next_listener_id = 0, cst_update_held = False\<rparr>"
    by (simp add: config_store_at_def cs_load_def path_join_def is_drive_def is_separator_def lit_def)
  let ?c = "default_core_config\<lparr>privacy := default_privacy_config\<lparr>share_window_titles := True\<rparr>\<rparr>"
  have f: "?f default_core_config = ?c"
    by (simp add: default_core_config_def default_privacy_config_def)
  have w: "config_widths ?c" "config_valid ?c"
    by (simp_all add: config_valid_def config_widths_def default_core_config_def default_privacy_config_def)
  have "revalidate ?c = Inr ?c" using revalidate_Inr [OF w(1)] w(2) by simp
  then have "\<exists>d'. update (\<lambda>_ _. Some) NoFault ?f (?st, \<lambda>_. None) = Some (Inr ?c, ?st\<lparr>cst_config := ?c\<rparr>, d') \<and>
      d' (lit ''C:config.json'') \<noteq> None"
    unfolding st by (simp add: update_def f atomic_write_json_def Let_def)
  then obtain d' where u: "update (\<lambda>_ _. Some) NoFault ?f (?st, \<lambda>_. None) = Some (Inr ?c, ?st\<lparr>cst_config := ?c\<rparr>, d')"
    and d: "d' (lit ''C:config.json'') \<noteq> None"
    by blast
  have "config_valid ?c"
    using update_atomic [OF u] w(1) by (simp add: st f)
  with u d show ?thesis by blast
qed

text \<open>
  A listener that calls \<open>update\<close> never returns, and neither does the update that
  notifies it: the update lock is still held while the callbacks run. The comment above the
  callbacks says a listener may re-enter \<open>update\<close>.
\<close>

theorem reentrant_update_deadlocks:
  assumes "l \<in> snd ` set (cst_listeners st)" and "calls_update call l" and "keeps_lock call"
    and "revalidate (f (cst_config st)) = Inr c"
  shows "update call NoFault f (st, d) = None"
proof -
  have "notify call (map snd (cst_listeners st)) c sd = None" if "cst_update_held (fst sd)" for sd
    using notify_stuck [OF assms(2,3) _ that] assms(1) by simp
  then show ?thesis using assms(4) by (simp add: update_def atomic_write_json_def Let_def)
qed

lemma reentrant_update_deadlocks_witness:
  "update (\<lambda>_ _ sd. map_option (\<lambda>(_, st, d). (st, d)) (update (\<lambda>_ _. Some) NoFault id sd)) NoFault id
      (snd (on_change () (fst (config_store_at True (\<lambda>_. None) (lit ''C:'') :: unit config_store \<times> disk))),
       \<lambda>_. None) = None"
  (is "update ?call NoFault id (?st, _) = None")
proof (rule reentrant_update_deadlocks)
  show "() \<in> snd ` set (cst_listeners ?st)"
    by (simp add: on_change_def)
  show "calls_update ?call ()" by (auto simp: calls_update_def)
  show "keeps_lock ?call" by (auto simp: keeps_lock_def update_held_stuck)
  show "revalidate (id (cst_config ?st)) = Inr default_core_config"
    using default_config_valid revalidate_Inr [of default_core_config default_core_config]
    by (simp add: on_change_def config_store_at_def cs_load_def config_valid_def)
qed

text \<open>
  Subscribing, then dropping the guard, leaves the listeners as they were; the ids are fresh.
\<close>

lemma unsubscribe_on_change:
  assumes "\<forall>(i, _) \<in> set (cst_listeners st). i < cst_next_listener_id st"
  shows "cst_listeners (unsubscribe (fst (on_change l st)) (snd (on_change l st))) = cst_listeners st"
  using assms by (auto simp: unsubscribe_def on_change_def filter_id_conv)

end
