(* ===== verification/Wire.thy ===== *)
theory Wire
  imports Datamodel
begin

text \<open>
  Wire primitives (\<open>core/src/protocol/wire.rs\<close>): canonical dates, identifiers, integer
  bounds. The calendar arithmetic is the \<open>chrono\<close> crate's and enters as a parameter
  (\<open>calendar\<close>): formatting an instant and strictly parsing a string. What the code checks
  around it (shape, round trip) is modelled in full. Each \<open>WireError\<close> message of the
  source is one constructor.
\<close>

datatype wire_error =
    NonCanonicalDate epoch_ms
  | NonCanonicalEncoding rstr
  | InvalidWireDate rstr
  | UnparseableWireDate rstr
  | NonCanonicalWireDate rstr
  | IntegerOutOfWireRange string f64
  | InvalidSeconds string f64
  | DisplayNameEmptyAfterBounding
  | MediaRequiresTitleOrArtist
  | PlaybackRateOutOfRange f64
  | PausedMustHaveRateZero
  | PlayingMustHavePositiveRate

definition PRESENCE_SCHEMA :: rstr where
  "PRESENCE_SCHEMA = lit ''yohaku.companion.presence''"

definition PRESENCE_SCHEMA_VERSION :: nat where
  "PRESENCE_SCHEMA_VERSION = 2"

definition PROTOCOL_CLIENT_VERSION :: rstr where
  "PROTOCOL_CLIENT_VERSION = lit ''1.8.3''"

record calendar =
  cal_format :: "epoch_ms \<Rightarrow> rstr option"
  cal_parse :: "rstr \<Rightarrow> epoch_ms option"

section \<open>Dates\<close>

definition rfc3339_byte :: "nat \<Rightarrow> u8 \<Rightarrow> bool" where
  "rfc3339_byte i c =
     (if i = 4 \<or> i = 7 then c = 45
      else if i = 10 then c = 84
      else if i = 13 \<or> i = 16 then c = 58
      else if i = 19 then c = 46
      else if i = 23 then c = 90
      else ascii_digit c)"

definition matches_rfc3339_ms_utc :: "rstr \<Rightarrow> bool" where
  "matches_rfc3339_ms_utc value =
     (let bytes = str_bytes value
      in if length bytes \<noteq> 24 then False else all_indexed rfc3339_byte bytes)"

definition encode_wire_date :: "calendar \<Rightarrow> epoch_ms \<Rightarrow> wire_error + rstr" where
  "encode_wire_date cal t =
     (case cal_format cal t of
        None \<Rightarrow> Inl (NonCanonicalDate t)
      | Some encoded \<Rightarrow>
          if \<not> matches_rfc3339_ms_utc encoded then Inl (NonCanonicalEncoding encoded)
          else Inr encoded)"

definition decode_wire_date :: "calendar \<Rightarrow> rstr \<Rightarrow> wire_error + epoch_ms" where
  "decode_wire_date cal value =
     (if \<not> matches_rfc3339_ms_utc value then Inl (InvalidWireDate value)
      else case cal_parse cal value of
             None \<Rightarrow> Inl (UnparseableWireDate value)
           | Some parsed \<Rightarrow>
               (case encode_wire_date cal parsed of
                  Inr encoded \<Rightarrow>
                    if encoded = value then Inr parsed else Inl (NonCanonicalWireDate value)
                | Inl _ \<Rightarrow> Inl (NonCanonicalWireDate value)))"

text \<open>
  A calendar that knows a single instant, for concrete instances of the properties.
\<close>

definition epoch_date :: rstr where
  "epoch_date = lit ''1970-01-01T00:00:00.000Z''"

definition epoch_calendar :: calendar where
  "epoch_calendar =
     \<lparr>cal_format = (\<lambda>t. if t = 0 then Some epoch_date else None),
      cal_parse = (\<lambda>s. if s = epoch_date then Some 0 else None)\<rparr>"

section \<open>Identifiers\<close>

definition uuid_byte :: "nat \<Rightarrow> u8 \<Rightarrow> bool" where
  "uuid_byte i c =
     (if i = 8 \<or> i = 13 \<or> i = 18 \<or> i = 23 then c = 45 else ascii_hexdigit c)"

definition is_uuid :: "rstr \<Rightarrow> bool" where
  "is_uuid value =
     (let bytes = str_bytes value
      in if length bytes \<noteq> 36 then False else all_indexed uuid_byte bytes)"

text \<open>Digits and \<open>A-H J K M N P-T V-Z\<close>.\<close>

definition crockford_byte :: "u8 \<Rightarrow> bool" where
  "crockford_byte c \<longleftrightarrow>
     ascii_digit c \<or> 65 \<le> c \<and> c \<le> 72 \<or> c = 74 \<or> c = 75 \<or> c = 77 \<or> c = 78 \<or>
     80 \<le> c \<and> c \<le> 84 \<or> 86 \<le> c \<and> c \<le> 90"

definition is_ulid :: "rstr \<Rightarrow> bool" where
  "is_ulid value =
     (let bytes = str_bytes value in length bytes = 26 \<and> list_all crockford_byte bytes)"

definition is_valid_wire_identifier :: "rstr \<Rightarrow> bool" where
  "is_valid_wire_identifier value \<longleftrightarrow> is_uuid value \<or> is_ulid value"

section \<open>Integers\<close>

definition require_wire_integer :: "f64 \<Rightarrow> string \<Rightarrow> wire_error + nat" where
  "require_wire_integer value fld =
     (let is_integer = is_finite value \<and> fract_is_zero value
      in if \<not> is_integer \<or> f_lt value (Fin 0) \<or>
            f_lt (f_of_int (int MAXIMUM_SAFE_WIRE_INTEGER)) value
         then Inl (IntegerOutOfWireRange fld value)
         else Inr (as_u64 value))"

definition seconds_to_wire_milliseconds :: "f64 \<Rightarrow> string \<Rightarrow> wire_error + nat" where
  "seconds_to_wire_milliseconds seconds fld =
     (if \<not> is_finite seconds \<or> f_lt seconds (Fin 0) then Inl (InvalidSeconds fld seconds)
      else require_wire_integer (f_round_int (f_scale seconds 1000)) fld)"

section \<open>Lemmas\<close>

lemma safe_integer_f64 [wire_simps]:
  "f_of_int (int MAXIMUM_SAFE_WIRE_INTEGER) = Fin 9007199254740991"
proof -
  have "f_round (of_int 9007199254740991) = Fin (of_int 9007199254740991)"
    by (rule f_round_int) simp
  then show ?thesis by (simp add: f_of_int_def MAXIMUM_SAFE_WIRE_INTEGER_def)
qed

lemma encode_wire_date_Inr [wire_simps]:
  "encode_wire_date cal t = Inr s \<longleftrightarrow> cal_format cal t = Some s \<and> matches_rfc3339_ms_utc s"
  by (auto simp: encode_wire_date_def split: option.splits)

lemma decode_wire_date_Inr:
  "decode_wire_date cal s = Inr t \<longleftrightarrow>
     matches_rfc3339_ms_utc s \<and> cal_parse cal s = Some t \<and> encode_wire_date cal t = Inr s"
  by (auto simp: decode_wire_date_def split: option.splits sum.splits)

lemma matches_rfc3339_length:
  "matches_rfc3339_ms_utc s \<Longrightarrow> length (str_bytes s) = 24"
  by (simp add: matches_rfc3339_ms_utc_def Let_def split: if_splits)

lemma require_wire_integer_Inr:
  "require_wire_integer v fld = Inr n \<longleftrightarrow>
     n \<le> MAXIMUM_SAFE_WIRE_INTEGER \<and> v = Fin (of_nat n)"
proof
  assume "require_wire_integer v fld = Inr n"
  then obtain x where x: "v = Fin x" "of_int \<lfloor>x\<rfloor> = x" "0 \<le> x" "x \<le> 9007199254740991"
      and n: "n = as_u64 v"
    by (cases v) (auto simp: require_wire_integer_def wire_simps Let_def split: if_splits)
  let ?m = "nat \<lfloor>x\<rfloor>"
  have m: "x = of_nat ?m"
    using x(2,3) by (metis of_int_of_nat_eq int_nat_eq zero_le_floor)
  have "(of_nat ?m :: rat) \<le> of_nat 9007199254740991" using x(4) m by simp
  then have b: "?m \<le> 9007199254740991" by (simp only: of_nat_le_iff)
  have "n = ?m"
    unfolding n x(1) by (subst m, rule as_u64_of_nat) (use b in simp)
  then show "n \<le> MAXIMUM_SAFE_WIRE_INTEGER \<and> v = Fin (of_nat n)"
    using b m x(1) by (simp add: MAXIMUM_SAFE_WIRE_INTEGER_def)
next
  assume a: "n \<le> MAXIMUM_SAFE_WIRE_INTEGER \<and> v = Fin (of_nat n)"
  then have b: "n \<le> 9007199254740991" by (simp add: MAXIMUM_SAFE_WIRE_INTEGER_def)
  then have "(of_nat n :: rat) \<le> of_nat 9007199254740991" by (simp only: of_nat_le_iff)
  moreover have "as_u64 (Fin (of_nat n)) = n" by (rule as_u64_of_nat) (use b in simp)
  ultimately show "require_wire_integer v fld = Inr n"
    using a by (simp add: require_wire_integer_def wire_simps del: as_u64.simps)
qed

lemma seconds_to_wire_milliseconds_bound:
  "seconds_to_wire_milliseconds s fld = Inr n \<Longrightarrow> n \<le> MAXIMUM_SAFE_WIRE_INTEGER"
  by (auto simp: seconds_to_wire_milliseconds_def require_wire_integer_Inr split: if_splits)

text \<open>Whole seconds convert exactly.\<close>

lemma round_half_away_of_nat [simp]: "round_half_away (of_nat n) = int n"
proof -
  have "\<lfloor>(of_nat n :: rat) + 1 / 2\<rfloor> = int n" by (rule floor_unique) auto
  then show ?thesis by (simp add: round_half_away_def)
qed

lemma seconds_to_wire_milliseconds_whole:
  assumes "n * 1000 \<le> MAXIMUM_SAFE_WIRE_INTEGER"
  shows "seconds_to_wire_milliseconds (Fin (of_nat n)) fld = Inr (n * 1000)"
proof -
  have "f_round (of_nat (n * 1000)) = Fin (of_nat (n * 1000))"
    by (rule f_round_nat) (use assms in \<open>simp add: MAXIMUM_SAFE_WIRE_INTEGER_def\<close>)
  then have "f_scale (Fin (of_nat n)) 1000 = Fin (of_nat (n * 1000))" by simp
  then have "f_round_int (f_scale (Fin (of_nat n)) 1000) = Fin (of_nat (n * 1000))"
    by (metis f_round_int.simps(1) of_int_of_nat_eq round_half_away_of_nat)
  moreover have "require_wire_integer (Fin (of_nat (n * 1000))) fld = Inr (n * 1000)"
    unfolding require_wire_integer_Inr using assms by simp
  ultimately show ?thesis
    by (simp add: seconds_to_wire_milliseconds_def del: f_scale.simps f_round_int.simps)
qed

lemma is_uuid_length: "is_uuid s \<Longrightarrow> length (str_bytes s) = 36"
  by (simp add: is_uuid_def Let_def split: if_splits)

lemma is_ulid_length: "is_ulid s \<Longrightarrow> length (str_bytes s) = 26"
  by (simp add: is_ulid_def Let_def)

lemma is_uuid_bytes: "is_uuid s \<Longrightarrow> b \<in> set (str_bytes s) \<Longrightarrow> b = 45 \<or> ascii_hexdigit b"
  by (auto simp: is_uuid_def Let_def all_indexed_nth uuid_byte_def in_set_conv_nth split: if_splits)

lemma crockford_byte_upper: "crockford_byte b \<Longrightarrow> ascii_digit b \<or> ascii_upper b"
  by (auto simp: crockford_byte_def ascii_upper_def word_le_nat_alt)

lemma is_ulid_bytes: "is_ulid s \<Longrightarrow> b \<in> set (str_bytes s) \<Longrightarrow> ascii_digit b \<or> ascii_upper b"
  by (auto simp: is_ulid_def Let_def list_all_iff dest: crockford_byte_upper)

lemma epoch_date_shape: "matches_rfc3339_ms_utc epoch_date"
  by code_simp

lemma epoch_date_decodes: "decode_wire_date epoch_calendar epoch_date = Inr 0"
  by (simp add: decode_wire_date_Inr encode_wire_date_Inr epoch_date_shape epoch_calendar_def)

lemma encode_epoch: "encode_wire_date epoch_calendar 0 = Inr epoch_date"
  by (simp add: encode_wire_date_Inr epoch_date_shape epoch_calendar_def)

definition sample_uuid :: rstr where
  "sample_uuid = lit ''00000000-0000-4000-8000-000000000000''"

lemma sample_uuid_valid: "is_valid_wire_identifier sample_uuid"
  by code_simp

section \<open>Properties\<close>

text \<open>
  The wire date codec. A string decodes to an instant exactly when it is the canonical
  encoding of that instant: 24 bytes of the RFC 3339 shape, parsed by the calendar, and
  produced again by encoding. So decoding is injective and never accepts a second spelling.
\<close>

theorem wire_date_canonical:
  assumes "decode_wire_date cal s = Inr t"
  shows "encode_wire_date cal t = Inr s \<and> length (str_bytes s) = 24 \<and>
    (\<forall>s'. decode_wire_date cal s' = Inr t \<longrightarrow> s' = s)"
  using assms by (auto simp: decode_wire_date_Inr matches_rfc3339_length)

lemma wire_date_canonical_witness:
  "encode_wire_date epoch_calendar 0 = Inr epoch_date \<and> length (str_bytes epoch_date) = 24"
  using wire_date_canonical [OF epoch_date_decodes] by blast

text \<open>
  Seconds become wire milliseconds inside 0 .. 2^53 - 1 or an error; whole seconds convert
  exactly, and anything negative, infinite or NaN is rejected.
\<close>

theorem seconds_to_wire_milliseconds_spec:
  "(\<forall>n. seconds_to_wire_milliseconds s f = Inr n \<longrightarrow>
      n \<le> MAXIMUM_SAFE_WIRE_INTEGER \<and> is_finite s \<and> \<not> f_lt s (Fin 0)) \<and>
   (\<forall>k. s = Fin (of_nat k) \<and> k * 1000 \<le> MAXIMUM_SAFE_WIRE_INTEGER \<longrightarrow>
      seconds_to_wire_milliseconds s f = Inr (k * 1000))"
  using seconds_to_wire_milliseconds_bound seconds_to_wire_milliseconds_whole
  by (auto simp: seconds_to_wire_milliseconds_def split: if_splits)

lemma seconds_to_wire_milliseconds_spec_witness:
  "seconds_to_wire_milliseconds (Fin 245) ''durationMs'' = Inr 245000 \<and>
   \<not> is_ok (seconds_to_wire_milliseconds NaN ''durationMs'')"
proof -
  have "seconds_to_wire_milliseconds (Fin 245) ''durationMs'' = Inr (245 * 1000)"
    using seconds_to_wire_milliseconds_spec [of "Fin 245" "''durationMs''"]
    by (auto simp: MAXIMUM_SAFE_WIRE_INTEGER_def dest: spec [of _ 245])
  moreover have "\<not> is_ok (seconds_to_wire_milliseconds NaN ''durationMs'')"
    using seconds_to_wire_milliseconds_spec [of NaN "''durationMs''"] by (auto simp: is_ok_iff)
  ultimately show ?thesis by simp
qed

end
