(* ===== verification/Wire_Types.thy ===== *)
theory Wire_Types
  imports Json_Codec Wire
begin

text \<open>
  Wire envelopes (\<open>core/src/protocol/types.rs\<close>) and the wire-facing types of
  \<open>core/src/model.rs\<close>: request bodies with their JSON form in wire key order, response types
  with their readers, and the \<open>decode_*\<close> functions that add the refinements.
\<close>

definition REQUIRED_PRESENCE_SCOPE :: rstr where
  "REQUIRED_PRESENCE_SCOPE = lit ''companion:presence:write''"

definition MUTATION_RENEGOTIATE_CODES :: "rstr list" where
  "MUTATION_RENEGOTIATE_CODES =
     [lit ''COMPANION_SCHEMA_UNSUPPORTED'', lit ''COMPANION_FEATURE_UNAVAILABLE'']"

text \<open>ECMAScript white space and line terminators (\<open>dto_mapper.rs\<close>).\<close>

definition is_js_whitespace :: "scalar \<Rightarrow> bool" where
  "is_js_whitespace c \<longleftrightarrow>
     c \<in> {9, 10, 11, 12, 13, 32, 160, 5760} \<or> 8192 \<le> c \<and> c \<le> 8202 \<or>
     c \<in> {8232, 8233, 8239, 8287, 12288, 65279}"

section \<open>Request bodies\<close>

datatype wire_availability = AvIdle | AvActive

record presence_request_meta =
  rm_schema :: rstr
  rm_schema_version :: nat
  rm_request_id :: rstr
  rm_device_id :: rstr
  rm_sequence :: nat
  rm_observed_at :: rstr

record wire_activity =
  wa_key :: "rstr option"
  wa_custom_label :: "rstr option"

record wire_application_context =
  wac_display_name :: rstr
  wac_activity :: "wire_activity option"
  wac_window :: "rstr option"
  wac_icon :: "rstr option"

record wire_playback =
  wp_state :: playback_state
  wp_duration_ms :: "nat option"
  wp_position_ms :: "nat option"
  wp_sampled_at :: rstr
  wp_rate :: f64

record wire_media_context =
  wmc_session_id :: rstr
  wmc_kind :: media_kind
  wmc_title :: "rstr option"
  wmc_artist :: "rstr option"
  wmc_album :: "rstr option"
  wmc_player :: "rstr option"
  wmc_playback :: wire_playback

record presence_request_data =
  rd_availability :: wire_availability
  rd_ttl_seconds :: nat
  rd_application :: "wire_application_context option"
  rd_media :: "wire_media_context option"

record presence_request =
  pr_meta :: presence_request_meta
  pr_data :: presence_request_data

record clear_request =
  cr_meta :: presence_request_meta
  cr_reason :: clear_reason

section \<open>The JSON of a request body\<close>

text \<open>ECMAScript number formatting: an integral safe value is an integer token.\<close>

definition serialize_js_number :: "f64 \<Rightarrow> json" where
  "serialize_js_number value =
     (let integral = is_finite value \<and> fract_is_zero value \<and>
            f_le (f_abs value) (f_of_int (int MAXIMUM_SAFE_WIRE_INTEGER))
      in if integral then JInt (as_i64 value) else JFloat value)"

fun en_media_kind :: "media_kind \<Rightarrow> json" where
  "en_media_kind Music = JStr (lit ''music'')"
| "en_media_kind Podcast = JStr (lit ''podcast'')"
| "en_media_kind Video = JStr (lit ''video'')"
| "en_media_kind UnknownKind = JStr (lit ''unknown'')"

fun en_playback_state :: "playback_state \<Rightarrow> json" where
  "en_playback_state Playing = JStr (lit ''playing'')"
| "en_playback_state Paused = JStr (lit ''paused'')"

fun en_availability :: "wire_availability \<Rightarrow> json" where
  "en_availability AvIdle = JStr (lit ''idle'')"
| "en_availability AvActive = JStr (lit ''active'')"

fun en_clear_reason :: "clear_reason \<Rightarrow> json" where
  "en_clear_reason CPaused = JStr (lit ''paused'')"
| "en_clear_reason CSleep = JStr (lit ''sleep'')"
| "en_clear_reason CShutdown = JStr (lit ''shutdown'')"
| "en_clear_reason CPrivacyChanged = JStr (lit ''privacyChanged'')"
| "en_clear_reason CConnectionRemoved = JStr (lit ''connectionRemoved'')"

definition en_request_meta :: "presence_request_meta \<Rightarrow> json" where
  "en_request_meta m =
     JObj [(lit ''schema'', JStr (rm_schema m)),
           (lit ''schemaVersion'', JInt (int (rm_schema_version m))),
           (lit ''requestId'', JStr (rm_request_id m)), (lit ''deviceId'', JStr (rm_device_id m)),
           (lit ''sequence'', JInt (int (rm_sequence m))),
           (lit ''observedAt'', JStr (rm_observed_at m))]"

definition en_activity :: "wire_activity \<Rightarrow> json" where
  "en_activity a =
     JObj [(lit ''key'', en_opt JStr (wa_key a)), (lit ''customLabel'', en_opt JStr (wa_custom_label a))]"

definition en_application_context :: "wire_application_context \<Rightarrow> json" where
  "en_application_context a =
     JObj [(lit ''displayName'', JStr (wac_display_name a)),
           (lit ''activity'', en_opt en_activity (wac_activity a)),
           (lit ''window'', en_opt (\<lambda>t. JObj [(lit ''title'', JStr t)]) (wac_window a)),
           (lit ''icon'', en_opt (\<lambda>u. JObj [(lit ''url'', JStr u)]) (wac_icon a))]"

definition en_wire_playback :: "wire_playback \<Rightarrow> json" where
  "en_wire_playback p =
     JObj [(lit ''state'', en_playback_state (wp_state p)),
           (lit ''durationMs'', en_opt (\<lambda>n. JInt (int n)) (wp_duration_ms p)),
           (lit ''positionMs'', en_opt (\<lambda>n. JInt (int n)) (wp_position_ms p)),
           (lit ''sampledAt'', JStr (wp_sampled_at p)),
           (lit ''rate'', serialize_js_number (wp_rate p))]"

definition en_media_context :: "wire_media_context \<Rightarrow> json" where
  "en_media_context m =
     JObj [(lit ''sessionId'', JStr (wmc_session_id m)), (lit ''kind'', en_media_kind (wmc_kind m)),
           (lit ''title'', en_opt JStr (wmc_title m)), (lit ''artist'', en_opt JStr (wmc_artist m)),
           (lit ''album'', en_opt JStr (wmc_album m)),
           (lit ''player'', en_opt (\<lambda>n. JObj [(lit ''displayName'', JStr n)]) (wmc_player m)),
           (lit ''playback'', en_wire_playback (wmc_playback m))]"

definition en_presence_request :: "presence_request \<Rightarrow> json" where
  "en_presence_request r =
     JObj [(lit ''meta'', en_request_meta (pr_meta r)),
           (lit ''data'',
            JObj [(lit ''availability'', en_availability (rd_availability (pr_data r))),
                  (lit ''lease'', JObj [(lit ''ttlSeconds'', JInt (int (rd_ttl_seconds (pr_data r))))]),
                  (lit ''application'', en_opt en_application_context (rd_application (pr_data r))),
                  (lit ''media'', en_opt en_media_context (rd_media (pr_data r)))])]"

definition en_clear_request :: "clear_request \<Rightarrow> json" where
  "en_clear_request r =
     JObj [(lit ''meta'', en_request_meta (cr_meta r)),
           (lit ''data'', JObj [(lit ''reason'', en_clear_reason (cr_reason r))])]"

definition en_pairing_claim_request :: "rstr \<Rightarrow> rstr \<Rightarrow> json" where
  "en_pairing_claim_request name code =
     JObj [(lit ''deviceName'', JStr name), (lit ''pairingCode'', JStr code)]"

section \<open>Responses\<close>

record response_meta =
  rs_schema :: rstr
  rs_schema_version :: nat
  rs_request_id :: rstr
  rs_server_time :: rstr

record live_desk_state =
  lds_schema_version :: nat
  lds_epoch :: rstr
  lds_revision :: nat
  lds_projection :: "json option"

record mutation_data =
  md_accepted_sequence :: nat
  md_received_at :: rstr
  md_state :: live_desk_state

record mutation_response =
  mr_meta :: response_meta
  mr_data :: mutation_data

record capabilities_features =
  cf_live_desk :: bool
  cf_media_timeline :: bool
  cf_moments :: bool
  cf_reading_sessions :: bool
  cf_media_artwork :: "bool option"
  cf_media_playback_links :: "bool option"

record capabilities_limits =
  cl_presence_payload_bytes :: int
  cl_presence_requests_per_minute :: int
  cl_presence_lease_min_seconds :: int
  cl_presence_lease_max_seconds :: int
  cl_recommended_heartbeat_seconds :: int
  cl_maximum_clock_skew_seconds :: int

record capabilities_data =
  cd_minimum_client_version :: rstr
  cd_presence_schema_versions :: "int list"
  cd_moment_schema_versions :: "int list"
  cd_features :: capabilities_features
  cd_limits :: capabilities_limits

record capabilities_response =
  cap_meta :: response_meta
  cap_data :: capabilities_data

record pairing_claim_data =
  pc_device_id :: rstr
  pc_device_token :: rstr
  pc_scopes :: "rstr list"
  pc_next_sequence :: nat

record error_detail =
  ed_code :: rstr
  ed_message :: rstr
  ed_retryable :: bool
  ed_retry_after_ms :: "nat option"
  ed_accepted_sequence :: "nat option"
  ed_fields :: "rstr list"

record error_envelope =
  ee_meta :: response_meta
  ee_error :: error_detail

section \<open>Readers\<close>

definition de_response_meta :: "json \<Rightarrow> decode_error + response_meta" where
  "de_response_meta v =
     rbind (struct_shape [''schema'', ''schemaVersion'', ''requestId'', ''serverTime''] v) (\<lambda>s.
     rbind (req de_presence_schema_literal s ''schema'') (\<lambda>a.
     rbind (req de_schema_version_literal s ''schemaVersion'') (\<lambda>n.
     rbind (req de_string s ''requestId'') (\<lambda>i.
     rbind (req de_string s ''serverTime'') (\<lambda>t.
       Inr \<lparr>rs_schema = a, rs_schema_version = n, rs_request_id = i, rs_server_time = t\<rparr>)))))"

definition de_live_desk_state :: "json \<Rightarrow> decode_error + live_desk_state" where
  "de_live_desk_state v =
     rbind (struct_shape [''schemaVersion'', ''epoch'', ''revision'', ''projection''] v) (\<lambda>s.
     rbind (req de_schema_version_literal s ''schemaVersion'') (\<lambda>n.
     rbind (req de_string s ''epoch'') (\<lambda>e.
     rbind (req de_wire_u64 s ''revision'') (\<lambda>r.
     rbind (req de_required_nullable_value s ''projection'') (\<lambda>p.
       Inr \<lparr>lds_schema_version = n, lds_epoch = e, lds_revision = r, lds_projection = p\<rparr>)))))"

definition de_mutation_data :: "json \<Rightarrow> decode_error + mutation_data" where
  "de_mutation_data v =
     rbind (struct_shape [''acceptedSequence'', ''receivedAt'', ''state''] v) (\<lambda>s.
     rbind (req de_wire_u64 s ''acceptedSequence'') (\<lambda>a.
     rbind (req de_string s ''receivedAt'') (\<lambda>t.
     rbind (req de_live_desk_state s ''state'') (\<lambda>d.
       Inr \<lparr>md_accepted_sequence = a, md_received_at = t, md_state = d\<rparr>))))"

definition de_mutation_response :: "json \<Rightarrow> decode_error + mutation_response" where
  "de_mutation_response v =
     rbind (struct_shape [''meta'', ''data''] v) (\<lambda>s.
     rbind (req de_response_meta s ''meta'') (\<lambda>m.
     rbind (req de_mutation_data s ''data'') (\<lambda>d.
       Inr \<lparr>mr_meta = m, mr_data = d\<rparr>)))"

definition de_features :: "json \<Rightarrow> decode_error + capabilities_features" where
  "de_features v =
     rbind (struct_shape [''liveDesk'', ''mediaTimeline'', ''moments'', ''readingSessions'',
                          ''mediaArtwork'', ''mediaPlaybackLinks''] v) (\<lambda>s.
     rbind (req de_bool s ''liveDesk'') (\<lambda>l.
     rbind (req de_bool s ''mediaTimeline'') (\<lambda>t.
     rbind (req de_bool s ''moments'') (\<lambda>m.
     rbind (req de_bool s ''readingSessions'') (\<lambda>r.
     rbind (default_opt de_bool s ''mediaArtwork'') (\<lambda>a.
     rbind (default_opt de_bool s ''mediaPlaybackLinks'') (\<lambda>k.
       Inr \<lparr>cf_live_desk = l, cf_media_timeline = t, cf_moments = m, cf_reading_sessions = r,
            cf_media_artwork = a, cf_media_playback_links = k\<rparr>)))))))"

definition de_limits :: "json \<Rightarrow> decode_error + capabilities_limits" where
  "de_limits v =
     rbind (struct_shape [''presencePayloadBytes'', ''presenceRequestsPerMinute'',
                          ''presenceLeaseMinSeconds'', ''presenceLeaseMaxSeconds'',
                          ''recommendedHeartbeatSeconds'', ''maximumClockSkewSeconds''] v) (\<lambda>s.
     rbind (req de_i64 s ''presencePayloadBytes'') (\<lambda>a.
     rbind (req de_i64 s ''presenceRequestsPerMinute'') (\<lambda>b.
     rbind (req de_i64 s ''presenceLeaseMinSeconds'') (\<lambda>c.
     rbind (req de_i64 s ''presenceLeaseMaxSeconds'') (\<lambda>d.
     rbind (req de_i64 s ''recommendedHeartbeatSeconds'') (\<lambda>e.
     rbind (req de_i64 s ''maximumClockSkewSeconds'') (\<lambda>f.
       Inr \<lparr>cl_presence_payload_bytes = a, cl_presence_requests_per_minute = b,
            cl_presence_lease_min_seconds = c, cl_presence_lease_max_seconds = d,
            cl_recommended_heartbeat_seconds = e, cl_maximum_clock_skew_seconds = f\<rparr>)))))))"

definition de_capabilities_data :: "json \<Rightarrow> decode_error + capabilities_data" where
  "de_capabilities_data v =
     rbind (struct_shape [''minimumClientVersion'', ''presenceSchemaVersions'',
                          ''momentSchemaVersions'', ''features'', ''limits''] v) (\<lambda>s.
     rbind (req de_string s ''minimumClientVersion'') (\<lambda>m.
     rbind (req (de_list de_i64) s ''presenceSchemaVersions'') (\<lambda>p.
     rbind (req (de_list de_i64) s ''momentSchemaVersions'') (\<lambda>q.
     rbind (req de_features s ''features'') (\<lambda>f.
     rbind (req de_limits s ''limits'') (\<lambda>l.
       Inr \<lparr>cd_minimum_client_version = m, cd_presence_schema_versions = p,
            cd_moment_schema_versions = q, cd_features = f, cd_limits = l\<rparr>))))))"

definition de_capabilities_response :: "json \<Rightarrow> decode_error + capabilities_response" where
  "de_capabilities_response v =
     rbind (struct_shape [''meta'', ''data''] v) (\<lambda>s.
     rbind (req de_response_meta s ''meta'') (\<lambda>m.
     rbind (req de_capabilities_data s ''data'') (\<lambda>d.
       Inr \<lparr>cap_meta = m, cap_data = d\<rparr>)))"

definition de_pairing_claim_data :: "json \<Rightarrow> decode_error + pairing_claim_data" where
  "de_pairing_claim_data v =
     rbind (struct_shape [''deviceId'', ''deviceToken'', ''scopes'', ''nextSequence''] v) (\<lambda>s.
     rbind (req de_string s ''deviceId'') (\<lambda>i.
     rbind (req de_string s ''deviceToken'') (\<lambda>t.
     rbind (req (de_list de_string) s ''scopes'') (\<lambda>sc.
     rbind (req de_wire_u64 s ''nextSequence'') (\<lambda>n.
       Inr \<lparr>pc_device_id = i, pc_device_token = t, pc_scopes = sc, pc_next_sequence = n\<rparr>)))))"

definition de_error_detail :: "json \<Rightarrow> decode_error + error_detail" where
  "de_error_detail v =
     rbind (struct_shape [''code'', ''message'', ''retryable'', ''retryAfterMs'',
                          ''acceptedSequence'', ''fields''] v) (\<lambda>s.
     rbind (req de_string s ''code'') (\<lambda>c.
     rbind (req de_string s ''message'') (\<lambda>m.
     rbind (req de_bool s ''retryable'') (\<lambda>r.
     rbind (req de_required_nullable_wire_u64 s ''retryAfterMs'') (\<lambda>a.
     rbind (req de_required_nullable_wire_u64 s ''acceptedSequence'') (\<lambda>q.
     rbind (req (de_list de_string) s ''fields'') (\<lambda>f.
       Inr \<lparr>ed_code = c, ed_message = m, ed_retryable = r, ed_retry_after_ms = a,
            ed_accepted_sequence = q, ed_fields = f\<rparr>)))))))"

definition de_error_envelope :: "json \<Rightarrow> decode_error + error_envelope" where
  "de_error_envelope v =
     rbind (struct_shape [''meta'', ''error''] v) (\<lambda>s.
     rbind (req de_response_meta s ''meta'') (\<lambda>m.
     rbind (req de_error_detail s ''error'') (\<lambda>e.
       Inr \<lparr>ee_meta = m, ee_error = e\<rparr>)))"

section \<open>Writers of the mutation response\<close>

definition en_response_meta :: "response_meta \<Rightarrow> json" where
  "en_response_meta m =
     JObj [(lit ''schema'', JStr (rs_schema m)),
           (lit ''schemaVersion'', JInt (int (rs_schema_version m))),
           (lit ''requestId'', JStr (rs_request_id m)), (lit ''serverTime'', JStr (rs_server_time m))]"

definition en_live_desk_state :: "live_desk_state \<Rightarrow> json" where
  "en_live_desk_state s =
     JObj [(lit ''schemaVersion'', JInt (int (lds_schema_version s))), (lit ''epoch'', JStr (lds_epoch s)),
           (lit ''revision'', JInt (int (lds_revision s))),
           (lit ''projection'', en_opt (\<lambda>v. v) (lds_projection s))]"

definition en_mutation_data :: "mutation_data \<Rightarrow> json" where
  "en_mutation_data d =
     JObj [(lit ''acceptedSequence'', JInt (int (md_accepted_sequence d))),
           (lit ''receivedAt'', JStr (md_received_at d)), (lit ''state'', en_live_desk_state (md_state d))]"

definition en_mutation_response :: "mutation_response \<Rightarrow> json" where
  "en_mutation_response r =
     JObj [(lit ''meta'', en_response_meta (mr_meta r)), (lit ''data'', en_mutation_data (mr_data r))]"

section \<open>Decoding with the refinements\<close>

definition refine_response_meta :: "calendar \<Rightarrow> response_meta \<Rightarrow> decode_error + unit" where
  "refine_response_meta cal m =
     (if \<not> is_valid_wire_identifier (rs_request_id m) then Inl ExpectedIdentifier
      else if \<not> is_ok (decode_wire_date cal (rs_server_time m)) then Inl ExpectedWireDate
      else Inr ())"

definition refine_safe_integer :: "int \<Rightarrow> decode_error + unit" where
  "refine_safe_integer v =
     (if nat \<bar>v\<bar> > MAXIMUM_SAFE_WIRE_INTEGER then Inl ExpectedSafeInteger else Inr ())"

fun refine_all :: "int list \<Rightarrow> decode_error + unit" where
  "refine_all [] = Inr ()"
| "refine_all (v # vs) = rbind (refine_safe_integer v) (\<lambda>_. refine_all vs)"

definition limit_list :: "capabilities_limits \<Rightarrow> int list" where
  "limit_list l =
     [cl_presence_payload_bytes l, cl_presence_requests_per_minute l,
      cl_presence_lease_min_seconds l, cl_presence_lease_max_seconds l,
      cl_recommended_heartbeat_seconds l, cl_maximum_clock_skew_seconds l]"

definition decode_capabilities_response ::
  "calendar \<Rightarrow> json \<Rightarrow> decode_error + capabilities_response" where
  "decode_capabilities_response cal v =
     rbind (de_capabilities_response v) (\<lambda>d.
     rbind (refine_response_meta cal (cap_meta d)) (\<lambda>_.
     rbind (refine_all (cd_presence_schema_versions (cap_data d) @ cd_moment_schema_versions (cap_data d)))
       (\<lambda>_.
     rbind (refine_all (limit_list (cd_limits (cap_data d)))) (\<lambda>_. Inr d))))"

definition decode_pairing_claim_response :: "json \<Rightarrow> decode_error + pairing_claim_data" where
  "decode_pairing_claim_response v =
     rbind (rbind (struct_shape [''data''] v) (\<lambda>s. req de_pairing_claim_data s ''data'')) (\<lambda>d.
       if \<not> is_valid_wire_identifier (pc_device_id d) then Inl ExpectedIdentifier
       else if trim_matches is_js_whitespace (pc_device_token d) = [] then Inl EmptyToken
       else Inr d)"

definition decode_mutation_response :: "calendar \<Rightarrow> json \<Rightarrow> decode_error + mutation_response" where
  "decode_mutation_response cal v =
     rbind (de_mutation_response v) (\<lambda>d.
     rbind (refine_response_meta cal (mr_meta d)) (\<lambda>_.
       if \<not> is_ok (decode_wire_date cal (md_received_at (mr_data d))) then Inl ExpectedWireDate
       else if \<not> is_valid_wire_identifier (lds_epoch (md_state (mr_data d)))
       then Inl ExpectedIdentifier
       else Inr d))"

definition decode_error_envelope :: "calendar \<Rightarrow> json \<Rightarrow> decode_error + error_envelope" where
  "decode_error_envelope cal v =
     rbind (de_error_envelope v) (\<lambda>d. rbind (refine_response_meta cal (ee_meta d)) (\<lambda>_. Inr d))"

definition decode_pairing_error_envelope :: "json \<Rightarrow> decode_error + rstr" where
  "decode_pairing_error_envelope v =
     rbind (struct_shape [''error''] v) (\<lambda>s.
       req (\<lambda>w. rbind (struct_shape [''code''] w) (\<lambda>t. req de_string t ''code'')) s ''error'')"

section \<open>Lemmas\<close>

lemma req_Inr [json_simps]: "req dec s k = Inr x \<longleftrightarrow> (\<exists>v. fld s k = Some v \<and> dec v = Inr x)"
  by (auto simp: req_def split: option.splits)

definition meta_ok :: "calendar \<Rightarrow> response_meta \<Rightarrow> bool" where
  "meta_ok cal m \<longleftrightarrow> rs_schema m = PRESENCE_SCHEMA \<and> rs_schema_version m = PRESENCE_SCHEMA_VERSION \<and>
     is_valid_wire_identifier (rs_request_id m) \<and> is_ok (decode_wire_date cal (rs_server_time m))"

lemma de_response_meta_literals:
  "de_response_meta v = Inr m \<Longrightarrow>
   rs_schema m = PRESENCE_SCHEMA \<and> rs_schema_version m = PRESENCE_SCHEMA_VERSION"
  by (auto simp: de_response_meta_def json_simps de_presence_schema_literal_def
      de_schema_version_literal_def PRESENCE_SCHEMA_def PRESENCE_SCHEMA_VERSION_def split: if_splits)

lemma refine_response_meta_Inr [json_simps]:
  "refine_response_meta cal m = Inr u \<longleftrightarrow>
     is_valid_wire_identifier (rs_request_id m) \<and> is_ok (decode_wire_date cal (rs_server_time m))"
  by (auto simp: refine_response_meta_def)

lemma refine_all_Inr [json_simps]:
  "refine_all vs = Inr u \<longleftrightarrow> (\<forall>v \<in> set vs. nat \<bar>v\<bar> \<le> MAXIMUM_SAFE_WIRE_INTEGER)"
  by (induction vs) (auto simp: refine_safe_integer_def)

lemma decode_mutation_meta:
  assumes "decode_mutation_response cal v = Inr r"
  shows "meta_ok cal (mr_meta r)"
  using assms
  by (auto simp: decode_mutation_response_def meta_ok_def de_mutation_response_def json_simps
      dest: de_response_meta_literals split: if_splits)

lemma de_mutation_bounds:
  "de_mutation_response v = Inr r \<Longrightarrow>
   md_accepted_sequence (mr_data r) \<le> MAXIMUM_SAFE_WIRE_INTEGER \<and>
   lds_revision (md_state (mr_data r)) \<le> MAXIMUM_SAFE_WIRE_INTEGER \<and>
   lds_schema_version (md_state (mr_data r)) = PRESENCE_SCHEMA_VERSION"
  by (auto simp: de_mutation_response_def de_mutation_data_def de_live_desk_state_def json_simps
      de_schema_version_literal_def PRESENCE_SCHEMA_VERSION_def
      dest!: de_wire_u64_Inr split: if_splits)

text \<open>What a decoded mutation response satisfies.\<close>

definition mutation_ok :: "calendar \<Rightarrow> mutation_response \<Rightarrow> bool" where
  "mutation_ok cal r \<longleftrightarrow> meta_ok cal (mr_meta r) \<and>
     md_accepted_sequence (mr_data r) \<le> MAXIMUM_SAFE_WIRE_INTEGER \<and>
     lds_revision (md_state (mr_data r)) \<le> MAXIMUM_SAFE_WIRE_INTEGER \<and>
     lds_schema_version (md_state (mr_data r)) = PRESENCE_SCHEMA_VERSION \<and>
     lds_projection (md_state (mr_data r)) \<noteq> Some JNull \<and>
     is_valid_wire_identifier (lds_epoch (md_state (mr_data r))) \<and>
     is_ok (decode_wire_date cal (md_received_at (mr_data r)))"

lemma de_mutation_projection:
  "de_mutation_response v = Inr r \<Longrightarrow> lds_projection (md_state (mr_data r)) \<noteq> Some JNull"
  by (auto simp: de_mutation_response_def de_mutation_data_def de_live_desk_state_def json_simps
      de_required_nullable_value_def nullable_def split: if_splits)

lemma decode_mutation_sound:
  assumes "decode_mutation_response cal v = Inr r"
  shows "mutation_ok cal r"
proof -
  have "de_mutation_response v = Inr r"
    and "is_valid_wire_identifier (lds_epoch (md_state (mr_data r)))"
    and "is_ok (decode_wire_date cal (md_received_at (mr_data r)))"
    using assms by (auto simp: decode_mutation_response_def split: if_splits)
  with de_mutation_bounds de_mutation_projection decode_mutation_meta [OF assms] show ?thesis
    by (auto simp: mutation_ok_def)
qed

lemma de_wire_u64_int [json_simps]:
  "n \<le> MAXIMUM_SAFE_WIRE_INTEGER \<Longrightarrow> de_wire_u64 (JInt (int n)) = Inr n"
  by (simp add: de_wire_u64_def MAXIMUM_SAFE_WIRE_INTEGER_def)

lemma de_response_meta_en: "meta_ok cal m \<Longrightarrow> de_response_meta (en_response_meta m) = Inr m"
  by (simp add: de_response_meta_def en_response_meta_def json_simps de_presence_schema_literal_def
      de_schema_version_literal_def PRESENCE_SCHEMA_def PRESENCE_SCHEMA_VERSION_def meta_ok_def)

lemma de_value_en_opt: "r \<noteq> Some JNull \<Longrightarrow> de_required_nullable_value (en_opt (\<lambda>v. v) r) = Inr r"
  by (cases r) (auto simp: de_required_nullable_value_def nullable_def)

lemma de_mutation_response_en:
  assumes "mutation_ok cal r"
  shows "de_mutation_response (en_mutation_response r) = Inr r"
proof -
  have "de_live_desk_state (en_live_desk_state (md_state (mr_data r))) = Inr (md_state (mr_data r))"
    using assms
    by (simp add: de_live_desk_state_def en_live_desk_state_def json_simps mutation_ok_def
        de_schema_version_literal_def PRESENCE_SCHEMA_VERSION_def de_value_en_opt)
  then have "de_mutation_data (en_mutation_data (mr_data r)) = Inr (mr_data r)"
    using assms by (simp add: de_mutation_data_def en_mutation_data_def json_simps mutation_ok_def)
  moreover have "de_response_meta (en_response_meta (mr_meta r)) = Inr (mr_meta r)"
    using assms by (intro de_response_meta_en [of cal]) (simp add: mutation_ok_def)
  ultimately show ?thesis
    by (simp add: de_mutation_response_def en_mutation_response_def json_simps)
qed

lemma decode_capabilities_safe:
  assumes "decode_capabilities_response cal v = Inr r"
  shows "meta_ok cal (cap_meta r)"
    and "x \<in> set (limit_list (cd_limits (cap_data r))) \<Longrightarrow> nat \<bar>x\<bar> \<le> MAXIMUM_SAFE_WIRE_INTEGER"
  using assms
  by (auto simp: decode_capabilities_response_def de_capabilities_response_def json_simps meta_ok_def
      dest: de_response_meta_literals)

lemma decode_error_envelope_accepted:
  assumes "decode_error_envelope cal v = Inr e" and "ed_accepted_sequence (ee_error e) = Some n"
  shows "n \<le> MAXIMUM_SAFE_WIRE_INTEGER"
  using assms
  by (auto simp: decode_error_envelope_def de_error_envelope_def de_error_detail_def json_simps
      dest: de_required_nullable_wire_u64_Inr)

section \<open>Properties\<close>

text \<open>
  C39: the mutation response decoder accepts exactly the well-formed responses. A response that
  decodes carries the protocol's literals, wire identifiers as request id and epoch, canonical
  dates, and a sequence and revision inside the wire range; and every response that satisfies
  this decodes back from its own JSON unchanged.
\<close>

theorem mutation_response_codec:
  "(\<forall>v. decode_mutation_response cal v = Inr r \<longrightarrow> mutation_ok cal r) \<and>
   (mutation_ok cal r \<longrightarrow> decode_mutation_response cal (en_mutation_response r) = Inr r)"
proof (intro conjI allI impI)
  show "mutation_ok cal r" if "decode_mutation_response cal v = Inr r" for v
    using that by (rule decode_mutation_sound)
  assume ok: "mutation_ok cal r"
  then show "decode_mutation_response cal (en_mutation_response r) = Inr r"
    using de_mutation_response_en [OF ok]
    by (simp add: decode_mutation_response_def refine_response_meta_def mutation_ok_def meta_ok_def)
qed

definition sample_response :: mutation_response where
  "sample_response =
     \<lparr>mr_meta = \<lparr>rs_schema = PRESENCE_SCHEMA, rs_schema_version = 2, rs_request_id = sample_uuid,
                rs_server_time = epoch_date\<rparr>,
      mr_data = \<lparr>md_accepted_sequence = 41, md_received_at = epoch_date,
                md_state = \<lparr>lds_schema_version = 2, lds_epoch = sample_uuid, lds_revision = 3,
                            lds_projection = None\<rparr>\<rparr>\<rparr>"

lemma sample_response_ok: "mutation_ok epoch_calendar sample_response"
  by (simp add: mutation_ok_def meta_ok_def sample_response_def sample_uuid_valid epoch_date_decodes
      PRESENCE_SCHEMA_VERSION_def MAXIMUM_SAFE_WIRE_INTEGER_def)

lemma mutation_response_codec_witness:
  "decode_mutation_response epoch_calendar (en_mutation_response sample_response) = Inr sample_response"
  using mutation_response_codec [of epoch_calendar sample_response] sample_response_ok by blast

end
