(* ===== verification/Privacy_Model.thy ===== *)
theory Privacy_Model
  imports Wire_Types
begin

text \<open>
  Text primitives, rule lookup and display-name mappings (\<open>core/src/privacy/model.rs\<close>), and
  the decision engine (\<open>core/src/privacy/evaluator.rs\<close>). Unicode normalization (the
  \<open>unicode-normalization\<close> crate) and the full case conversion of \<open>str::to_lowercase\<close> are the
  parameter \<open>unicode\<close>; white space, trimming and everything else is modelled.
\<close>

record unicode =
  nfc :: "rstr \<Rightarrow> rstr"
  lowercase :: "rstr \<Rightarrow> rstr"

text \<open>
  What the code relies on: cutting white space off a composed string leaves it composed.
\<close>

definition nfc_closed :: "unicode \<Rightarrow> bool" where
  "nfc_closed u \<longleftrightarrow>
     (\<forall>s. nfc u (trim_matches is_js_whitespace (nfc u s)) = trim_matches is_js_whitespace (nfc u s))"

text \<open>The ASCII fragment, for concrete instances of the properties.\<close>

definition ascii_lower_char :: "scalar \<Rightarrow> scalar" where
  "ascii_lower_char c = (if 65 \<le> c \<and> c \<le> 90 then c + 32 else c)"

definition ascii_unicode :: unicode where
  "ascii_unicode = \<lparr>nfc = (\<lambda>s. s), lowercase = map ascii_lower_char\<rparr>"

section \<open>Text primitives\<close>

definition js_trim :: "rstr \<Rightarrow> rstr" where
  "js_trim value = trim_matches is_js_whitespace value"

fun normalize_text :: "unicode \<Rightarrow> rstr option \<Rightarrow> rstr option" where
  "normalize_text u None = None"
| "normalize_text u (Some value) =
     (let composed = nfc u value; trimmed = js_trim composed
      in if trimmed = [] then None else Some trimmed)"

definition scalar_length :: "rstr \<Rightarrow> nat" where
  "scalar_length value = length value"

definition normalize_app_id :: "unicode \<Rightarrow> rstr \<Rightarrow> rstr" where
  "normalize_app_id u i = lowercase u (js_trim (nfc u i))"

section \<open>Rules and mappings\<close>

fun resolve_override :: "privacy_override \<Rightarrow> privacy_default \<Rightarrow> privacy_default" where
  "resolve_override Inherit fallback = fallback"
| "resolve_override OShare fallback = DShare"
| "resolve_override OHide fallback = DHide"

definition is_empty_rule :: "unicode \<Rightarrow> application_privacy_rule \<Rightarrow> bool" where
  "is_empty_rule u r \<longleftrightarrow>
     rule_application r = Inherit \<and> rule_window_title r = Inherit \<and> rule_media r = Inherit \<and>
     normalize_text u (display_alias r) = None"

definition normalized_rule :: "unicode \<Rightarrow> application_privacy_rule \<Rightarrow> application_privacy_rule" where
  "normalized_rule u r =
     \<lparr>app_id = normalize_app_id u (app_id r), rule_application = rule_application r,
      rule_window_title = rule_window_title r, rule_media = rule_media r,
      display_alias = normalize_text u (display_alias r)\<rparr>"

definition find_rule :: "unicode \<Rightarrow> privacy_config \<Rightarrow> rstr \<Rightarrow> application_privacy_rule option" where
  "find_rule u config i =
     (let key = normalize_app_id u i
      in List.find (\<lambda>r. normalize_app_id u (app_id r) = key) (rules config))"

definition find_rule_by_player_name ::
  "unicode \<Rightarrow> privacy_config \<Rightarrow> rstr \<Rightarrow> application_privacy_rule option" where
  "find_rule_by_player_name u config player_name =
     (let key = normalize_app_id u player_name
      in if key = [] then None
         else List.find (\<lambda>r. normalize_app_id u (app_id r) = key) (rules config))"

definition apply_mapping ::
  "unicode \<Rightarrow> privacy_config \<Rightarrow> privacy_mapping_type \<Rightarrow> rstr \<Rightarrow> rstr option" where
  "apply_mapping u config ty from =
     (let key = normalize_app_id u from
      in map_option map_to
           (List.find (\<lambda>m. mapping_type m = ty \<and> normalize_app_id u (map_from m) = key)
              (mappings config)))"

section \<open>Decisions\<close>

record process_decision =
  shares_application :: bool
  shares_window_title :: bool
  pd_display_alias :: "rstr option"

record media_decision =
  shares_media :: bool
  mdec_display_alias :: "rstr option"

definition decide_process :: "unicode \<Rightarrow> privacy_config \<Rightarrow> rstr \<Rightarrow> process_decision" where
  "decide_process u config i =
     (let rule = find_rule u config i;
          hidden = (resolve_override (case rule of None \<Rightarrow> Inherit | Some r \<Rightarrow> rule_application r)
                      (def_application (defaults config)) = DHide);
          window_shared =
            (resolve_override (case rule of None \<Rightarrow> Inherit | Some r \<Rightarrow> rule_window_title r)
               (def_window_title (defaults config)) = DShare)
      in \<lparr>shares_application = (\<not> hidden), shares_window_title = (\<not> hidden \<and> window_shared),
          pd_display_alias =
            (if hidden then None
             else Option.bind rule (\<lambda>r. normalize_text u (display_alias r)))\<rparr>)"

definition decide_media :: "unicode \<Rightarrow> privacy_config \<Rightarrow> rstr option \<Rightarrow> rstr \<Rightarrow> media_decision" where
  "decide_media u config aid player_name =
     (let rule = (case aid of Some i \<Rightarrow> find_rule u config i
                  | None \<Rightarrow> find_rule_by_player_name u config player_name);
          hidden = (resolve_override (case rule of None \<Rightarrow> Inherit | Some r \<Rightarrow> rule_media r)
                      (def_media (defaults config)) = DHide)
      in \<lparr>shares_media = (\<not> hidden),
          mdec_display_alias =
            (if hidden then None
             else Option.bind rule (\<lambda>r. normalize_text u (display_alias r)))\<rparr>)"

section \<open>Lemmas\<close>

text \<open>A text that has passed \<open>normalize_text\<close>: non-empty, and no white space at either end.\<close>

definition clean_text :: "rstr \<Rightarrow> bool" where
  "clean_text s \<longleftrightarrow> s \<noteq> [] \<and> \<not> is_js_whitespace (hd s) \<and> \<not> is_js_whitespace (last s)"

lemma normalize_text_Some:
  "normalize_text u v = Some s \<Longrightarrow> clean_text s \<and> (\<exists>w. v = Some w \<and> s = js_trim (nfc u w))"
  using trim_matches_ends
  by (cases v) (auto simp: clean_text_def js_trim_def Let_def split: if_splits)

lemma normalize_text_clean [text_simps]: "normalize_text u v = Some s \<Longrightarrow> clean_text s"
  using normalize_text_Some by blast

lemma normalize_text_idem:
  "nfc_closed u \<Longrightarrow> normalize_text u (normalize_text u v) = normalize_text u v"
  by (cases v) (auto simp: js_trim_def Let_def nfc_closed_def)

lemma ascii_nfc_closed: "nfc_closed ascii_unicode"
  by (simp add: nfc_closed_def ascii_unicode_def)

lemma find_rule_Some:
  "find_rule u c i = Some r \<Longrightarrow> r \<in> set (rules c) \<and> normalize_app_id u (app_id r) = normalize_app_id u i"
  by (auto simp: find_rule_def Let_def find_Some_iff in_set_conv_nth)

lemma find_rule_None:
  "find_rule u c i = None \<longleftrightarrow> (\<forall>r \<in> set (rules c). normalize_app_id u (app_id r) \<noteq> normalize_app_id u i)"
  by (auto simp: find_rule_def Let_def find_None_iff)

lemma find_rule_normalized:
  "normalize_app_id u i = normalize_app_id u j \<Longrightarrow> find_rule u c i = find_rule u c j"
  by (simp add: find_rule_def)

lemma not_hide [simp]: "x \<noteq> DHide \<longleftrightarrow> x = DShare"
  by (cases x) auto

lemmas text_eval =
  lit_def is_js_whitespace_def trim_matches_def js_trim_def ascii_unicode_def ascii_lower_char_def
  normalize_app_id_def find_rule_def find_rule_by_player_name_def apply_mapping_def

text \<open>The effective policies of an application, as the user reads them off the configuration.\<close>

definition effective_application :: "unicode \<Rightarrow> privacy_config \<Rightarrow> rstr \<Rightarrow> privacy_default" where
  "effective_application u c i =
     (case find_rule u c i of
        Some r \<Rightarrow> resolve_override (rule_application r) (def_application (defaults c))
      | None \<Rightarrow> def_application (defaults c))"

definition effective_title :: "unicode \<Rightarrow> privacy_config \<Rightarrow> rstr \<Rightarrow> privacy_default" where
  "effective_title u c i =
     (case find_rule u c i of
        Some r \<Rightarrow> resolve_override (rule_window_title r) (def_window_title (defaults c))
      | None \<Rightarrow> def_window_title (defaults c))"

definition media_rule :: "unicode \<Rightarrow> privacy_config \<Rightarrow> rstr option \<Rightarrow> rstr \<Rightarrow> application_privacy_rule option"
where
  "media_rule u c aid name =
     (case aid of Some i \<Rightarrow> find_rule u c i | None \<Rightarrow> find_rule_by_player_name u c name)"

definition effective_media :: "unicode \<Rightarrow> privacy_config \<Rightarrow> rstr option \<Rightarrow> rstr \<Rightarrow> privacy_default" where
  "effective_media u c aid name =
     (case media_rule u c aid name of
        Some r \<Rightarrow> resolve_override (rule_media r) (def_media (defaults c))
      | None \<Rightarrow> def_media (defaults c))"

lemma decide_process_fields [text_simps]:
  "shares_application (decide_process u c i) \<longleftrightarrow> effective_application u c i = DShare"
  "shares_window_title (decide_process u c i) \<longleftrightarrow>
     effective_application u c i = DShare \<and> effective_title u c i = DShare"
  by (auto simp: decide_process_def effective_application_def effective_title_def Let_def
      split: option.splits)

lemma decide_media_fields [text_simps]:
  "shares_media (decide_media u c aid name) \<longleftrightarrow> effective_media u c aid name = DShare"
  by (auto simp: decide_media_def effective_media_def media_rule_def Let_def
      split: option.splits)

lemma decide_alias_clean:
  "pd_display_alias (decide_process u c i) = Some s \<Longrightarrow> clean_text s"
  "mdec_display_alias (decide_media u c aid name) = Some s \<Longrightarrow> clean_text s"
  by (auto simp: decide_process_def decide_media_def Let_def bind_eq_Some_conv
      dest: normalize_text_clean split: if_splits)

section \<open>Properties\<close>

text \<open>
  Hide wins over everything. When the effective policy of an application is hide, the
  decision shares neither the application nor its title and carries no alias; and the decision
  depends on the identifier only through its normalized form, so no respelling (case,
  composition, surrounding white space) of a hidden identifier escapes its rule.
\<close>

theorem hidden_decision:
  "(effective_application u c i = DHide \<longrightarrow>
      decide_process u c i =
        \<lparr>shares_application = False, shares_window_title = False, pd_display_alias = None\<rparr>) \<and>
   (\<forall>j. normalize_app_id u j = normalize_app_id u i \<longrightarrow> decide_process u c j = decide_process u c i)"
  by (auto simp: decide_process_def effective_application_def Let_def find_rule_def
      split: option.splits)

definition sample_rule :: application_privacy_rule where
  "sample_rule =
     \<lparr>app_id = lit ''code.exe'', rule_application = OHide, rule_window_title = OShare,
      rule_media = Inherit, display_alias = Some (lit ''Editor'')\<rparr>"

lemma hidden_decision_witness:
  "decide_process ascii_unicode (default_privacy_config\<lparr>rules := [sample_rule]\<rparr>) (lit '' Code.EXE'') =
     \<lparr>shares_application = False, shares_window_title = False, pd_display_alias = None\<rparr>"
proof -
  have "effective_application ascii_unicode (default_privacy_config\<lparr>rules := [sample_rule]\<rparr>) (lit '' Code.EXE'') = DHide"
    by (simp add: effective_application_def text_eval sample_rule_def del: lit_eq_iff)
  with hidden_decision show ?thesis by blast
qed

end
