(* ===== verification/Sanitize.thy ===== *)
theory Sanitize
  imports Privacy_Model
begin

text \<open>
  The sanitization boundary (\<open>core/src/privacy/sanitize.rs\<close>). The invariants
  \<open>application_ok\<close> and \<open>media_ok\<close> are what the downstream layers (consent gate, DTO mapper)
  rely on.
\<close>

record application_sanitize_input =
  ai_captured_display_name :: rstr
  ai_mapped_display_name :: "rstr option"
  ai_window_title :: "rstr option"

record media_sanitize_input =
  mi_kind :: media_kind
  mi_title :: "rstr option"
  mi_artist :: "rstr option"
  mi_album :: "rstr option"
  mi_captured_player_name :: "rstr option"
  mi_mapped_player_name :: "rstr option"
  mi_playing :: bool
  mi_duration_seconds :: "f64 option"
  mi_position_seconds :: "f64 option"
  mi_sampled_at :: epoch_ms

record media_without_session =
  mw_kind :: media_kind
  mw_title :: "rstr option"
  mw_artist :: "rstr option"
  mw_album :: "rstr option"
  mw_player_display_name :: "rstr option"
  mw_playback :: sanitized_playback

fun or_else :: "'a option \<Rightarrow> 'a option \<Rightarrow> 'a option" where
  "or_else (Some x) y = Some x"
| "or_else None y = y"

definition sanitize_application ::
  "unicode \<Rightarrow> application_sanitize_input \<Rightarrow> process_decision \<Rightarrow> bool \<Rightarrow> sanitized_application option"
where
  "sanitize_application u input decision global_share_window_titles =
     (if \<not> shares_application decision then None
      else case or_else (or_else (pd_display_alias decision)
                           (normalize_text u (ai_mapped_display_name input)))
                  (normalize_text u (Some (ai_captured_display_name input))) of
             None \<Rightarrow> None
           | Some display_name \<Rightarrow>
               Some \<lparr>sa_display_name = display_name,
                     sa_window_title =
                       (if shares_window_title decision \<and> global_share_window_titles
                        then normalize_text u (ai_window_title input) else None)\<rparr>)"

definition normalized_seconds :: "f64 option \<Rightarrow> f64 option" where
  "normalized_seconds value =
     (case value of
        Some v \<Rightarrow> if is_finite v \<and> f_le (Fin 0) v then Some v else None
      | None \<Rightarrow> None)"

definition clamp_position :: "f64 option \<Rightarrow> f64 option \<Rightarrow> f64 option" where
  "clamp_position position duration =
     (case (position, duration) of
        (Some p, Some d) \<Rightarrow> if f_lt d p then Some d else position
      | _ \<Rightarrow> position)"

definition sanitize_media ::
  "unicode \<Rightarrow> media_sanitize_input \<Rightarrow> media_decision \<Rightarrow> bool \<Rightarrow> media_without_session option"
where
  "sanitize_media u input decision requires_artist =
     (if \<not> shares_media decision then None
      else
        let title = normalize_text u (mi_title input);
            artist = normalize_text u (mi_artist input);
            album = normalize_text u (mi_album input)
        in if requires_artist \<and> artist = None then None
           else if title = None \<and> artist = None then None
           else
             let player = or_else (or_else (mdec_display_alias decision)
                                     (normalize_text u (mi_mapped_player_name input)))
                            (normalize_text u (mi_captured_player_name input));
                 duration = normalized_seconds (mi_duration_seconds input);
                 position = clamp_position (normalized_seconds (mi_position_seconds input)) duration
             in Some \<lparr>mw_kind = mi_kind input, mw_title = title, mw_artist = artist, mw_album = album,
                      mw_player_display_name = player,
                      mw_playback =
                        \<lparr>pb_state = (if mi_playing input then Playing else Paused),
                         pb_duration_seconds = duration, pb_position_seconds = position,
                         pb_sampled_at = mi_sampled_at input,
                         pb_rate = (if mi_playing input then Fin 1 else Fin 0)\<rparr>\<rparr>)"

section \<open>Invariants of the sanitized values\<close>

definition clean_opt :: "rstr option \<Rightarrow> bool" where
  "clean_opt v \<longleftrightarrow> (case v of None \<Rightarrow> True | Some s \<Rightarrow> clean_text s)"

definition application_ok :: "sanitized_application \<Rightarrow> bool" where
  "application_ok a \<longleftrightarrow> clean_text (sa_display_name a) \<and> clean_opt (sa_window_title a)"

definition seconds_ok :: "f64 option \<Rightarrow> bool" where
  "seconds_ok v \<longleftrightarrow> (case v of None \<Rightarrow> True | Some x \<Rightarrow> is_finite x \<and> f_le (Fin 0) x)"

fun inside :: "f64 option \<Rightarrow> f64 option \<Rightarrow> bool" where
  "inside (Some x) (Some d) = f_le x d"
| "inside _ _ = True"

definition playback_ok :: "sanitized_playback \<Rightarrow> bool" where
  "playback_ok p \<longleftrightarrow>
     seconds_ok (pb_duration_seconds p) \<and> seconds_ok (pb_position_seconds p) \<and>
     inside (pb_position_seconds p) (pb_duration_seconds p) \<and>
     pb_rate p = (case pb_state p of Playing \<Rightarrow> Fin 1 | Paused \<Rightarrow> Fin 0)"

definition texts_ok :: "rstr option \<Rightarrow> rstr option \<Rightarrow> rstr option \<Rightarrow> rstr option \<Rightarrow> bool" where
  "texts_ok title artist album player \<longleftrightarrow>
     clean_opt title \<and> clean_opt artist \<and> clean_opt album \<and> clean_opt player \<and>
     (title \<noteq> None \<or> artist \<noteq> None)"

definition media_ok :: "sanitized_media \<Rightarrow> bool" where
  "media_ok m \<longleftrightarrow>
     texts_ok (sm_title m) (sm_artist m) (sm_album m) (sm_player_display_name m) \<and>
     playback_ok (sm_playback m)"

lemma clean_opt_normalize [simp]: "clean_opt (normalize_text u v)"
  by (auto simp: clean_opt_def text_simps split: option.splits)

lemma clean_opt_Some: "clean_opt (Some s) \<longleftrightarrow> clean_text s"
  by (simp add: clean_opt_def)

lemma clean_opt_None [simp]: "clean_opt None"
  by (simp add: clean_opt_def)

lemma clean_or_else: "clean_opt a \<Longrightarrow> clean_opt b \<Longrightarrow> clean_opt (or_else a b)"
  by (cases a) auto

lemma seconds_ok_normalized: "seconds_ok (normalized_seconds v)"
  by (auto simp: seconds_ok_def normalized_seconds_def split: option.splits)

lemma not_lt_le: "is_finite x \<Longrightarrow> is_finite y \<Longrightarrow> \<not> f_lt y x \<Longrightarrow> f_le x y"
  by (cases x; cases y) auto

lemma f_le_refl: "is_finite x \<Longrightarrow> f_le x x"
  by (cases x) auto

lemma clamp_ok:
  assumes "seconds_ok p" and "seconds_ok d"
  shows "seconds_ok (clamp_position p d)"
    and "inside (clamp_position p d) d"
  using assms by (auto simp: clamp_position_def seconds_ok_def not_lt_le f_le_refl split: option.splits)

lemma sanitize_application_ok:
  assumes "sanitize_application u input d g = Some a" and "clean_opt (pd_display_alias d)"
  shows "application_ok a"
proof -
  let ?n = "or_else (or_else (pd_display_alias d) (normalize_text u (ai_mapped_display_name input)))
                  (normalize_text u (Some (ai_captured_display_name input)))"
  have "clean_opt ?n" using assms(2) by (intro clean_or_else) (simp_all del: normalize_text.simps)
  moreover have "?n = Some (sa_display_name a)"
    using assms(1) by (auto simp: sanitize_application_def split: if_splits option.splits)
  moreover have "clean_opt (sa_window_title a)"
    using assms(1) by (auto simp: sanitize_application_def split: if_splits option.splits)
  ultimately show ?thesis by (simp add: application_ok_def clean_opt_Some)
qed

lemma sanitize_media_ok:
  assumes "sanitize_media u input d r = Some m" and "clean_opt (mdec_display_alias d)"
  shows "texts_ok (mw_title m) (mw_artist m) (mw_album m) (mw_player_display_name m)"
    and "playback_ok (mw_playback m)"
proof -
  show "texts_ok (mw_title m) (mw_artist m) (mw_album m) (mw_player_display_name m)"
    using assms
    by (auto simp: sanitize_media_def Let_def texts_ok_def intro!: clean_or_else
        dest: normalize_text_clean simp: clean_opt_Some split: if_splits)
  show "playback_ok (mw_playback m)"
    using assms(1) clamp_ok [OF seconds_ok_normalized seconds_ok_normalized]
    by (auto simp: sanitize_media_def Let_def playback_ok_def seconds_ok_normalized split: if_splits)
qed

section \<open>Properties\<close>

text \<open>
  The window title is disclosed only with consent at all three switches. When the rule
  level or the global switch does not share titles, the sanitized application is the same for
  every window title (non-interference); and whatever is shared has passed normalization: a
  non-empty display name without surrounding white space, and a title that is absent or equally
  clean.
\<close>

theorem window_title_noninterference:
  assumes "d = decide_process u c i"
  shows "(effective_title u c i = DHide \<or> \<not> g \<longrightarrow>
       sanitize_application u \<lparr>ai_captured_display_name = n, ai_mapped_display_name = m,
         ai_window_title = t1\<rparr> d g =
       sanitize_application u \<lparr>ai_captured_display_name = n, ai_mapped_display_name = m,
         ai_window_title = t2\<rparr> d g) \<and>
    (\<forall>input a. sanitize_application u input d g = Some a \<longrightarrow>
       application_ok a \<and> effective_application u c i = DShare \<and>
       (sa_window_title a \<noteq> None \<longrightarrow> effective_title u c i = DShare \<and> g))"
proof (intro conjI allI impI)
  show "sanitize_application u \<lparr>ai_captured_display_name = n, ai_mapped_display_name = m,
         ai_window_title = t1\<rparr> d g =
       sanitize_application u \<lparr>ai_captured_display_name = n, ai_mapped_display_name = m,
         ai_window_title = t2\<rparr> d g" if "effective_title u c i = DHide \<or> \<not> g"
    using that assms by (auto simp: sanitize_application_def text_simps split: option.splits)
next
  fix input a
  assume a: "sanitize_application u input d g = Some a"
  have "clean_opt (pd_display_alias d)"
    using assms decide_alias_clean(1) by (auto simp: clean_opt_def split: option.splits)
  then show "application_ok a" by (rule sanitize_application_ok [OF a])
  show "effective_application u c i = DShare"
    using a assms by (auto simp: sanitize_application_def text_simps split: if_splits)
  show "effective_title u c i = DShare" if "sa_window_title a \<noteq> None"
    using a assms that by (auto simp: sanitize_application_def text_simps split: if_splits option.splits)
  show "g" if "sa_window_title a \<noteq> None"
    using a assms that by (auto simp: sanitize_application_def split: if_splits option.splits)
qed

lemma window_title_noninterference_witness:
  "sanitize_application ascii_unicode
     \<lparr>ai_captured_display_name = lit ''Code'', ai_mapped_display_name = None,
      ai_window_title = Some (lit ''secret'')\<rparr>
     (decide_process ascii_unicode default_privacy_config (lit ''code.exe'')) True =
   sanitize_application ascii_unicode
     \<lparr>ai_captured_display_name = lit ''Code'', ai_mapped_display_name = None,
      ai_window_title = None\<rparr>
     (decide_process ascii_unicode default_privacy_config (lit ''code.exe'')) True"
proof -
  have "effective_title ascii_unicode default_privacy_config (lit ''code.exe'') = DHide"
    by (simp add: effective_title_def find_rule_def default_privacy_config_def)
  with window_title_noninterference [OF refl] show ?thesis by blast
qed

text \<open>
  Sanitized media is well formed. Media passes the boundary only when its effective policy
  is share; then all its texts are clean, title or artist is present (the artist when the policy
  requires one), duration and position are finite and non-negative, the position does not
  exceed a known duration, and the rate is 1 while playing and 0 while paused.
\<close>

theorem sanitized_media_well_formed:
  assumes "sanitize_media u input (decide_media u c aid name) requires_artist = Some m"
  shows "effective_media u c aid name = DShare \<and>
    texts_ok (mw_title m) (mw_artist m) (mw_album m) (mw_player_display_name m) \<and>
    playback_ok (mw_playback m) \<and> (requires_artist \<longrightarrow> mw_artist m \<noteq> None)"
proof -
  have "clean_opt (mdec_display_alias (decide_media u c aid name))"
    using decide_alias_clean(2) by (auto simp: clean_opt_def split: option.splits)
  with sanitize_media_ok [OF assms]
  have "texts_ok (mw_title m) (mw_artist m) (mw_album m) (mw_player_display_name m)"
    and "playback_ok (mw_playback m)" by blast+
  moreover have "effective_media u c aid name = DShare"
    using assms by (auto simp: sanitize_media_def text_simps split: if_splits)
  moreover have "requires_artist \<longrightarrow> mw_artist m \<noteq> None"
    using assms by (auto simp: sanitize_media_def Let_def split: if_splits)
  ultimately show ?thesis by blast
qed

definition sample_media_input :: media_sanitize_input where
  "sample_media_input =
     \<lparr>mi_kind = Music, mi_title = Some (lit '' Title ''), mi_artist = None, mi_album = None,
      mi_captured_player_name = Some (lit ''Player''), mi_mapped_player_name = None,
      mi_playing = True, mi_duration_seconds = Some (Fin 200), mi_position_seconds = Some (Fin 900),
      mi_sampled_at = 0\<rparr>"

lemma sanitized_media_well_formed_witness:
  "\<exists>m. sanitize_media ascii_unicode sample_media_input
      (decide_media ascii_unicode default_privacy_config None (lit ''Player'')) False = Some m \<and>
    pb_position_seconds (mw_playback m) = Some (Fin 200) \<and> playback_ok (mw_playback m)"
proof -
  let ?s = "sanitize_media ascii_unicode sample_media_input
      (decide_media ascii_unicode default_privacy_config None (lit ''Player'')) False"
  have "?s \<noteq> None \<and> pb_position_seconds (mw_playback (the ?s)) = Some (Fin 200)"
    by (simp add: sanitize_media_def decide_media_def sample_media_input_def text_eval Let_def
        default_privacy_config_def normalized_seconds_def clamp_position_def del: lit_eq_iff)
  then obtain m where "?s = Some m" and "pb_position_seconds (mw_playback m) = Some (Fin 200)"
    by auto
  with sanitized_media_well_formed [OF this(1)] show ?thesis by blast
qed

end
