(* ===== verification/Media_Session.thy ===== *)
theory Media_Session
  imports Sanitize
begin

text \<open>
  Media session identity (\<open>core/src/privacy/media_session_tracker.rs\<close>): one remembered
  identity with its random id. The fresh UUID of a minting call is an argument.
\<close>

record media_identity =
  mid_kind :: media_kind
  mid_title :: "rstr option"
  mid_artist :: "rstr option"
  mid_album :: "rstr option"
  mid_player_display_name :: "rstr option"
  mid_duration_seconds :: "f64 option"

text \<open>The derived \<open>PartialEq\<close>: fields compared, the duration as a float.\<close>

fun opt_f_eq :: "f64 option \<Rightarrow> f64 option \<Rightarrow> bool" where
  "opt_f_eq None None = True"
| "opt_f_eq (Some a) (Some b) = f_eq a b"
| "opt_f_eq _ _ = False"

definition identity_eq :: "media_identity \<Rightarrow> media_identity \<Rightarrow> bool" where
  "identity_eq a b \<longleftrightarrow>
     mid_kind a = mid_kind b \<and> mid_title a = mid_title b \<and> mid_artist a = mid_artist b \<and>
     mid_album a = mid_album b \<and> mid_player_display_name a = mid_player_display_name b \<and>
     opt_f_eq (mid_duration_seconds a) (mid_duration_seconds b)"

type_synonym session_tracker = "(media_identity \<times> rstr) option"

definition session_id :: "session_tracker \<Rightarrow> media_identity \<Rightarrow> rstr \<Rightarrow> rstr \<times> session_tracker" where
  "session_id t identity fresh =
     (case t of
        Some (current, sid) \<Rightarrow>
          if identity_eq current identity then (sid, t) else (fresh, Some (identity, fresh))
      | None \<Rightarrow> (fresh, Some (identity, fresh)))"

definition tracker_reset :: "session_tracker \<Rightarrow> session_tracker" where
  "tracker_reset t = None"

section \<open>Histories\<close>

datatype track_event = Seen media_identity rstr | Dropped

fun track :: "session_tracker \<Rightarrow> track_event list \<Rightarrow> rstr option list \<times> session_tracker" where
  "track t [] = ([], t)"
| "track t (Seen d fresh # es) =
     (case session_id t d fresh of
        (sid, t') \<Rightarrow> case track t' es of (ids, t'') \<Rightarrow> (Some sid # ids, t''))"
| "track t (Dropped # es) = (case track (tracker_reset t) es of (ids, t') \<Rightarrow> (None # ids, t'))"

definition fresh_ids :: "track_event list \<Rightarrow> rstr list" where
  "fresh_ids es = concat (map (\<lambda>e. case e of Seen _ f \<Rightarrow> [f] | Dropped \<Rightarrow> []) es)"

definition no_nan :: "track_event \<Rightarrow> bool" where
  "no_nan e \<longleftrightarrow> (case e of Seen d _ \<Rightarrow> mid_duration_seconds d \<noteq> Some NaN | Dropped \<Rightarrow> True)"

text \<open>Positions \<open>i\<close> to \<open>j\<close> of a history show one and the same identity without a break.\<close>

definition same_run :: "track_event list \<Rightarrow> nat \<Rightarrow> nat \<Rightarrow> bool" where
  "same_run es i j \<longleftrightarrow> (\<exists>d. \<forall>k. i \<le> k \<and> k \<le> j \<longrightarrow> (\<exists>f. es ! k = Seen d f))"

lemma opt_f_eq_iff: "opt_f_eq a b \<longleftrightarrow> a = b \<and> a \<noteq> Some NaN"
  by (cases a; cases b; cases "the a"; cases "the b") auto

lemma identity_eq_iff: "identity_eq a b \<longleftrightarrow> a = b \<and> mid_duration_seconds a \<noteq> Some NaN"
  by (cases a; cases b) (auto simp: identity_eq_def opt_f_eq_iff)

lemma track_append:
  "track t (xs @ ys) =
     (case track t xs of (a, t1) \<Rightarrow> case track t1 ys of (b, t2) \<Rightarrow> (a @ b, t2))"
  by (induction t xs rule: track.induct) (auto split: prod.splits)

lemma fresh_ids_append: "fresh_ids (xs @ ys) = fresh_ids xs @ fresh_ids ys"
  by (simp add: fresh_ids_def)

lemma same_run_refl: "same_run es i i \<longleftrightarrow> (\<exists>d f. es ! i = Seen d f)"
  by (auto simp: same_run_def)

lemma same_run_append: "j < length es \<Longrightarrow> same_run (es @ fs) i j = same_run es i j"
  by (simp add: same_run_def nth_append cong: conj_cong)

lemma same_run_Suc:
  assumes "i \<le> j"
  shows "same_run es i (Suc j) \<longleftrightarrow>
     same_run es i j \<and> (\<exists>d f g. es ! j = Seen d f \<and> es ! Suc j = Seen d g)"
proof
  assume "same_run es i (Suc j)"
  then obtain d where d: "\<forall>k. i \<le> k \<and> k \<le> Suc j \<longrightarrow> (\<exists>f. es ! k = Seen d f)"
    by (auto simp: same_run_def)
  then have "same_run es i j" unfolding same_run_def by (meson le_SucI)
  moreover have "\<exists>f. es ! j = Seen d f" "\<exists>f. es ! Suc j = Seen d f" using d assms by auto
  ultimately show "same_run es i j \<and> (\<exists>d f g. es ! j = Seen d f \<and> es ! Suc j = Seen d g)" by blast
next
  assume "same_run es i j \<and> (\<exists>d f g. es ! j = Seen d f \<and> es ! Suc j = Seen d g)"
  then obtain d c f g where d: "\<forall>k. i \<le> k \<and> k \<le> j \<longrightarrow> (\<exists>f. es ! k = Seen d f)"
    and c: "es ! j = Seen c f" "es ! Suc j = Seen c g"
    by (auto simp: same_run_def)
  have "d = c" using d [rule_format, of j] c assms by auto
  then have "\<exists>f. es ! k = Seen d f" if "i \<le> k" "k \<le> Suc j" for k
    using d [rule_format, of k] c(2) that by (cases "k = Suc j") auto
  then show "same_run es i (Suc j)" by (auto simp: same_run_def)
qed

text \<open>The state after a history: the last event's identity with the id it was given.\<close>

definition tracker_after :: "track_event list \<Rightarrow> rstr option list \<Rightarrow> session_tracker" where
  "tracker_after es ids =
     (if es = [] then None
      else case last es of Seen d _ \<Rightarrow> Some (d, the (last ids)) | Dropped \<Rightarrow> None)"

definition track_inv :: "track_event list \<Rightarrow> rstr option list \<Rightarrow> session_tracker \<Rightarrow> bool" where
  "track_inv es ids t \<longleftrightarrow>
     length ids = length es \<and> t = tracker_after es ids \<and>
     (\<forall>s. Some s \<in> set ids \<longrightarrow> s \<in> set (fresh_ids es)) \<and>
     (\<forall>i < length es. ids ! i \<noteq> None \<longleftrightarrow> (\<exists>d f. es ! i = Seen d f)) \<and>
     (\<forall>j < length es. \<forall>i \<le> j. ids ! i \<noteq> None \<and> ids ! i = ids ! j \<longleftrightarrow> same_run es i j)"

lemma track_inv_extend:
  assumes inv: "track_inv es ids t"
    and o_seen: "out \<noteq> None \<longleftrightarrow> (\<exists>d f. e = Seen d f)"
    and o_fresh: "\<And>s. out = Some s \<Longrightarrow> s \<in> set (fresh_ids (es @ [e]))"
    and o_tracker: "t' = tracker_after (es @ [e]) (ids @ [out])"
    and key: "\<And>i. i < length es \<Longrightarrow> ids ! i \<noteq> None \<and> ids ! i = out \<longleftrightarrow> same_run (es @ [e]) i (length es)"
  shows "track_inv (es @ [e]) (ids @ [out]) t'"
proof -
  have len: "length ids = length es" using inv by (simp add: track_inv_def)
  have self: "out \<noteq> None \<longleftrightarrow> same_run (es @ [e]) (length es) (length es)"
    unfolding same_run_refl o_seen by simp
  show ?thesis
    unfolding track_inv_def
  proof (intro conjI)
    show "\<forall>s. Some s \<in> set (ids @ [out]) \<longrightarrow> s \<in> set (fresh_ids (es @ [e]))"
      using inv o_fresh by (auto simp: track_inv_def fresh_ids_append)
    show "\<forall>i < length (es @ [e]). (ids @ [out]) ! i \<noteq> None \<longleftrightarrow> (\<exists>d f. (es @ [e]) ! i = Seen d f)"
      using inv o_seen by (auto simp: track_inv_def nth_append less_Suc_eq)
    show "\<forall>j < length (es @ [e]). \<forall>i \<le> j. (ids @ [out]) ! i \<noteq> None \<and>
        (ids @ [out]) ! i = (ids @ [out]) ! j \<longleftrightarrow> same_run (es @ [e]) i j"
    proof (intro allI impI)
      fix j i assume j: "j < length (es @ [e])" and i: "i \<le> j"
      consider "j < length es" | "j = length es" "i < length es" | "j = length es" "i = length es"
        using i j by force
      then show "(ids @ [out]) ! i \<noteq> None \<and> (ids @ [out]) ! i = (ids @ [out]) ! j \<longleftrightarrow> same_run (es @ [e]) i j"
      proof cases
        case 1
        then have "ids ! i \<noteq> None \<and> ids ! i = ids ! j \<longleftrightarrow> same_run es i j"
          using inv i unfolding track_inv_def by blast
        then show ?thesis using 1 i by (simp add: nth_append len same_run_append)
      next
        case 2
        then show ?thesis using key [of i] by (simp add: nth_append len)
      next
        case 3
        then show ?thesis using self by (simp add: nth_append len)
      qed
    qed
  qed (simp_all add: len o_tracker)
qed

lemma track_inv_snoc:
  assumes inv: "track_inv es ids t" and nn: "\<forall>e \<in> set (es @ [e]). no_nan e"
    and fr: "distinct (fresh_ids (es @ [e]))"
  shows "track_inv (es @ [e]) (ids @ fst (track t [e])) (snd (track t [e]))"
proof (cases e)
  case Dropped
  have "\<not> same_run (es @ [e]) i (length es)" if "i < length es" for i
    using that by (auto simp: same_run_def Dropped intro!: exI [of _ "length es"])
  then have "track_inv (es @ [e]) (ids @ [None]) None"
    using inv by (intro track_inv_extend) (auto simp: Dropped tracker_after_def)
  then show ?thesis by (simp add: Dropped tracker_reset_def)
next
  case (Seen d f)
  let ?n = "length es"
  have len: "length ids = ?n" using inv by (simp add: track_inv_def)
  obtain sid t' where st: "session_id t d f = (sid, t')" by force
  have t': "t' = Some (d, sid)"
    using st by (auto simp: session_id_def identity_eq_iff split: option.splits if_splits)
  have nf: "f \<notin> set (fresh_ids es)" using fr by (auto simp: Seen fresh_ids_append fresh_ids_def)
  have key: "ids ! i \<noteq> None \<and> ids ! i = Some sid \<longleftrightarrow> same_run (es @ [e]) i ?n" if i: "i < ?n" for i
  proof (cases "\<exists>g. es \<noteq> [] \<and> last es = Seen d g")
    case True
    then obtain g where g: "last es = Seen d g" and ne: "es \<noteq> []" by blast
    have "d = d \<and> mid_duration_seconds d \<noteq> Some NaN"
      using nn by (simp add: Seen no_nan_def)
    moreover have "t = Some (d, the (last ids))"
      using inv g ne by (simp add: track_inv_def tracker_after_def)
    ultimately have sid: "sid = the (last ids)"
      using st by (simp add: session_id_def identity_eq_iff)
    have last: "last ids = ids ! (?n - 1)" "last es = es ! (?n - 1)"
      using ne len by (metis last_conv_nth length_0_conv)+
    have "ids ! (?n - 1) \<noteq> None"
      using inv g ne last(2) unfolding track_inv_def by (metis diff_less length_greater_0_conv zero_less_one)
    then have s1: "Some sid = ids ! (?n - 1)" by (simp add: sid last(1))
    have "ids ! i \<noteq> None \<and> ids ! i = ids ! (?n - 1) \<longleftrightarrow> same_run es i (?n - 1)"
      using inv i ne unfolding track_inv_def
      by (metis Suc_pred' diff_less length_greater_0_conv less_Suc_eq_le zero_less_one)
    moreover have "same_run (es @ [e]) i ?n \<longleftrightarrow> same_run es i (?n - 1)"
      using same_run_Suc [of i "?n - 1" "es @ [e]"] i ne g last(2)
      by (simp add: Seen same_run_append nth_append)
    ultimately show ?thesis by (simp add: s1)
  next
    case False
    then have "sid = f"
      using inv st
      by (auto simp: track_inv_def tracker_after_def session_id_def identity_eq_iff
          split: if_splits track_event.splits)
    then have "ids ! i \<noteq> Some sid"
      using inv i nf len unfolding track_inv_def by (metis nth_mem)
    moreover have "\<not> same_run (es @ [e]) i ?n"
    proof
      assume "same_run (es @ [e]) i ?n"
      then obtain d' where d': "\<forall>k. i \<le> k \<and> k \<le> ?n \<longrightarrow> (\<exists>f. (es @ [e]) ! k = Seen d' f)"
        by (auto simp: same_run_def)
      have "d' = d" using d' i by (auto simp: Seen dest!: spec [of _ ?n])
      moreover have "\<exists>f. es ! (?n - 1) = Seen d' f"
        using d' i by (auto simp: nth_append dest!: spec [of _ "?n - 1"] split: if_splits)
      ultimately show False using False i by (metis last_conv_nth length_0_conv not_less_zero)
    qed
    ultimately show ?thesis by blast
  qed
  have fid: "sid \<in> insert f (set (fresh_ids es))"
  proof (cases "sid = f")
    case False
    then have "t = Some (d, sid)"
      using st by (auto simp: session_id_def identity_eq_iff split: option.splits if_splits)
    then have "es \<noteq> []" and "\<exists>g. last es = Seen d g" and s: "sid = the (last ids)"
      using inv by (auto simp: track_inv_def tracker_after_def split: if_splits track_event.splits)
    then have "last ids \<noteq> None" and "last ids \<in> set ids"
      using inv unfolding track_inv_def
      by (metis diff_less last_conv_nth length_0_conv length_greater_0_conv zero_less_one)
        (metis inv last_in_set length_0_conv track_inv_def \<open>es \<noteq> []\<close>)
    then have "Some sid \<in> set ids" by (simp add: s)
    then show ?thesis using inv by (simp add: track_inv_def)
  qed simp
  have "track_inv (es @ [e]) (ids @ [Some sid]) t'"
    using inv fid key
    by (intro track_inv_extend) (auto simp: Seen t' tracker_after_def fresh_ids_append fresh_ids_def)
  then show ?thesis by (simp add: Seen st)
qed

lemma track_inv_track:
  "\<forall>e \<in> set es. no_nan e \<Longrightarrow> distinct (fresh_ids es) \<Longrightarrow>
   track_inv es (fst (track None es)) (snd (track None es))"
proof (induction es rule: rev_induct)
  case Nil
  then show ?case by (simp add: track_inv_def tracker_after_def)
next
  case (snoc e es)
  then have "track_inv es (fst (track None es)) (snd (track None es))"
    by (simp add: fresh_ids_append)
  from track_inv_snoc [OF this snoc.prems] show ?case
    by (simp add: track_append case_prod_beta)
qed

section \<open>Properties\<close>

text \<open>
  Session ids are exactly the semantic sessions. In every history of captures with fresh
  random ids, two captures carry the same session id if and only if every capture from the one
  to the other showed the same identity: a changed title, artist, album, player or duration and
  every capture that dropped the media break the session, and the id of an earlier session is
  never given again.
\<close>

theorem session_ids_are_runs:
  assumes "distinct (fresh_ids es)" and "\<forall>e \<in> set es. no_nan e"
    and "i \<le> j" and "j < length es"
  shows "(\<exists>s. fst (track None es) ! i = Some s \<and> fst (track None es) ! j = Some s) \<longleftrightarrow> same_run es i j"
  using track_inv_track [OF assms(2,1)] assms(3,4) unfolding track_inv_def by (metis not_None_eq)

definition track_sample :: "track_event list" where
  "track_sample =
     (let d = \<lparr>mid_kind = Music, mid_title = Some (lit ''A''), mid_artist = None, mid_album = None,
               mid_player_display_name = None, mid_duration_seconds = None\<rparr>
      in [Seen d (lit ''1''), Seen d (lit ''2''), Dropped, Seen d (lit ''3'')])"

lemma session_ids_are_runs_witness:
  "(\<exists>s. fst (track None track_sample) ! 0 = Some s \<and> fst (track None track_sample) ! 1 = Some s) \<and>
   \<not> (\<exists>s. fst (track None track_sample) ! 1 = Some s \<and> fst (track None track_sample) ! 3 = Some s)"
proof -
  have d: "distinct (fresh_ids track_sample)" and n: "\<forall>e \<in> set track_sample. no_nan e"
    and l: "length track_sample = 4"
    by (simp_all add: track_sample_def fresh_ids_def no_nan_def Let_def)
  have "same_run track_sample 0 1"
    by (auto simp: same_run_def track_sample_def Let_def le_Suc_eq intro!: exI)
  moreover have "\<not> same_run track_sample 1 3"
    by (auto simp: same_run_def track_sample_def Let_def intro!: exI [of _ 2])
  ultimately show ?thesis
    using session_ids_are_runs [OF d n, of 0 1] session_ids_are_runs [OF d n, of 1 3] l by simp
qed

end
