(* ===== verification/Dto_Mapper.thy ===== *)
theory Dto_Mapper
  imports Sanitize
begin

text \<open>
  Sanitized snapshot to wire request (\<open>core/src/protocol/dto_mapper.rs\<close>). The fresh UUID of a
  request is an argument (\<open>Uuid::new_v4\<close>), the calendar a parameter.
\<close>

definition DISPLAY_NAME_LIMIT :: nat where
  "DISPLAY_NAME_LIMIT = 120"

definition WINDOW_TITLE_LIMIT :: nat where
  "WINDOW_TITLE_LIMIT = 500"

definition MEDIA_TEXT_LIMIT :: nat where
  "MEDIA_TEXT_LIMIT = 300"

record make_request_options =
  mo_device_id :: rstr
  mo_lease_min_seconds :: int
  mo_lease_max_seconds :: int

record 'b mapped_request =
  mapped_request_id :: rstr
  mapped_body :: 'b

definition bounded_text :: "rstr option \<Rightarrow> nat \<Rightarrow> rstr option" where
  "bounded_text value limit =
     (case value of
        None \<Rightarrow> None
      | Some v \<Rightarrow>
          let truncated = (if length v \<le> limit then v else take limit v);
              trimmed = trim_matches is_js_whitespace truncated
          in if trimmed = [] then None else Some trimmed)"

definition make_meta ::
  "calendar \<Rightarrow> rstr \<Rightarrow> rstr \<Rightarrow> nat \<Rightarrow> epoch_ms \<Rightarrow> wire_error + presence_request_meta" where
  "make_meta cal uuid device sequence observed_at_ms =
     rbind (encode_wire_date cal observed_at_ms) (\<lambda>date.
       Inr \<lparr>rm_schema = PRESENCE_SCHEMA, rm_schema_version = PRESENCE_SCHEMA_VERSION,
            rm_request_id = uuid, rm_device_id = device, rm_sequence = sequence,
            rm_observed_at = date\<rparr>)"

definition map_application :: "sanitized_snapshot \<Rightarrow> wire_error + wire_application_context option" where
  "map_application snapshot =
     (case snap_application snapshot of
        None \<Rightarrow> Inr None
      | Some a \<Rightarrow>
          rbind (ok_or DisplayNameEmptyAfterBounding
                  (bounded_text (Some (sa_display_name a)) DISPLAY_NAME_LIMIT)) (\<lambda>display_name.
            Inr (Some \<lparr>wac_display_name = display_name, wac_activity = None,
                       wac_window = bounded_text (sa_window_title a) WINDOW_TITLE_LIMIT,
                       wac_icon = None\<rparr>)))"

definition check_rate :: "sanitized_playback \<Rightarrow> wire_error + unit" where
  "check_rate p =
     (let rate = pb_rate p
      in if \<not> is_finite rate \<or> \<not> (f_le (Fin 0) rate \<and> f_le rate (Fin 4))
         then Inl (PlaybackRateOutOfRange rate)
         else if pb_state p = Paused \<and> \<not> f_eq rate (Fin 0) then Inl PausedMustHaveRateZero
         else if pb_state p = Playing \<and> f_le rate (Fin 0) then Inl PlayingMustHavePositiveRate
         else Inr ())"

definition clamp_position_ms :: "nat option \<Rightarrow> nat option \<Rightarrow> nat option" where
  "clamp_position_ms position duration =
     (case (position, duration) of
        (Some p, Some d) \<Rightarrow> if p > d then Some d else position
      | _ \<Rightarrow> position)"

definition map_media :: "calendar \<Rightarrow> sanitized_snapshot \<Rightarrow> wire_error + wire_media_context option" where
  "map_media cal snapshot =
     (case snap_media snapshot of
        None \<Rightarrow> Inr None
      | Some m \<Rightarrow>
          let title = bounded_text (sm_title m) MEDIA_TEXT_LIMIT;
              artist = bounded_text (sm_artist m) MEDIA_TEXT_LIMIT;
              album = bounded_text (sm_album m) MEDIA_TEXT_LIMIT;
              player = bounded_text (sm_player_display_name m) DISPLAY_NAME_LIMIT;
              p = sm_playback m
          in if title = None \<and> artist = None then Inl MediaRequiresTitleOrArtist
             else
               rbind (check_rate p) (\<lambda>_.
               rbind (map_transpose (\<lambda>s. seconds_to_wire_milliseconds s ''durationMs'')
                        (pb_duration_seconds p)) (\<lambda>duration_ms.
               rbind (map_transpose (\<lambda>s. seconds_to_wire_milliseconds s ''positionMs'')
                        (pb_position_seconds p)) (\<lambda>position_ms.
               rbind (encode_wire_date cal (pb_sampled_at p)) (\<lambda>sampled_at.
                 Inr (Some \<lparr>wmc_session_id = sm_session_id m, wmc_kind = sm_kind m,
                            wmc_title = title, wmc_artist = artist, wmc_album = album,
                            wmc_player = player,
                            wmc_playback =
                              \<lparr>wp_state = pb_state p, wp_duration_ms = duration_ms,
                               wp_position_ms = clamp_position_ms position_ms duration_ms,
                               wp_sampled_at = sampled_at, wp_rate = pb_rate p\<rparr>\<rparr>))))))"

text \<open>\<open>(requested.round() as i64).max(leaseMin).min(leaseMax).max(0) as u64\<close>.\<close>

definition clamp_ttl :: "f64 \<Rightarrow> int \<Rightarrow> int \<Rightarrow> nat" where
  "clamp_ttl requested lo hi = nat (max (min (max (as_i64 (f_round_int requested)) lo) hi) 0)"

definition make_presence_request ::
  "calendar \<Rightarrow> rstr \<Rightarrow> sanitized_snapshot \<Rightarrow> nat \<Rightarrow> f64 \<Rightarrow> make_request_options \<Rightarrow>
   wire_error + presence_request mapped_request" where
  "make_presence_request cal uuid snapshot sequence requested options =
     rbind (map_application snapshot) (\<lambda>application.
     rbind (map_media cal snapshot) (\<lambda>media.
     let ttl_seconds = clamp_ttl requested (mo_lease_min_seconds options) (mo_lease_max_seconds options)
     in rbind (make_meta cal uuid (mo_device_id options) sequence (observed_at snapshot)) (\<lambda>meta.
          Inr \<lparr>mapped_request_id = rm_request_id meta,
               mapped_body =
                 \<lparr>pr_meta = meta,
                  pr_data =
                    \<lparr>rd_availability =
                       (if application = None \<and> media = None then AvIdle else AvActive),
                     rd_ttl_seconds = ttl_seconds, rd_application = application,
                     rd_media = media\<rparr>\<rparr>\<rparr>)))"

definition make_clear_request ::
  "calendar \<Rightarrow> rstr \<Rightarrow> clear_reason \<Rightarrow> nat \<Rightarrow> epoch_ms \<Rightarrow> make_request_options \<Rightarrow>
   wire_error + clear_request mapped_request" where
  "make_clear_request cal uuid reason sequence observed_at_ms options =
     rbind (make_meta cal uuid (mo_device_id options) sequence observed_at_ms) (\<lambda>meta.
       Inr \<lparr>mapped_request_id = rm_request_id meta,
            mapped_body = \<lparr>cr_meta = meta, cr_reason = reason\<rparr>\<rparr>)"

section \<open>Lemmas\<close>

definition bounded_ok :: "nat \<Rightarrow> rstr \<Rightarrow> bool" where
  "bounded_ok n s \<longleftrightarrow> clean_text s \<and> length s \<le> n"

definition bounded_opt :: "nat \<Rightarrow> rstr option \<Rightarrow> bool" where
  "bounded_opt n v \<longleftrightarrow> (case v of None \<Rightarrow> True | Some s \<Rightarrow> bounded_ok n s)"

lemma bounded_text_Some: "bounded_text v n = Some s \<Longrightarrow> bounded_ok n s"
  (is "?l \<Longrightarrow> _")
proof -
  assume ?l
  then obtain w where w: "v = Some w" and s: "s = trim_matches is_js_whitespace (take n w)" and "s \<noteq> []"
    by (auto simp: bounded_text_def Let_def split: option.splits if_splits)
  have "length s \<le> n"
    unfolding s by (rule le_trans [OF trim_matches_length]) simp
  then show ?thesis
    using trim_matches_ends [of is_js_whitespace "take n w"] \<open>s \<noteq> []\<close>
    by (simp add: bounded_ok_def clean_text_def s)
qed

lemma bounded_opt_bounded_text [simp]: "bounded_opt n (bounded_text v n)"
  by (auto simp: bounded_opt_def bounded_text_Some split: option.splits)

lemma trim_head_kept: "s \<noteq> [] \<Longrightarrow> \<not> p (hd s) \<Longrightarrow> trim_matches p s \<noteq> []"
  by (cases s) (auto simp: trim_matches_def dropWhile_append)

lemma bounded_text_clean:
  assumes "clean_text s" and "0 < n"
  shows "\<exists>t. bounded_text (Some s) n = Some t"
proof -
  let ?t = "if length s \<le> n then s else take n s"
  have "?t \<noteq> []" and "hd ?t = hd s"
    using assms by (auto simp: clean_text_def hd_take)
  then have "trim_matches is_js_whitespace ?t \<noteq> []"
    using assms(1) by (intro trim_head_kept) (auto simp: clean_text_def)
  then show ?thesis by (auto simp: bounded_text_def Let_def)
qed

text \<open>Text within the limit passes unchanged; longer text is cut, never refused.\<close>

lemma trim_matches_clean: "clean_text s \<Longrightarrow> trim_matches is_js_whitespace s = s"
proof -
  assume c: "clean_text s"
  then have "dropWhile is_js_whitespace s = s"
    by (cases s) (auto simp: clean_text_def)
  moreover have "dropWhile is_js_whitespace (rev s) = rev s"
    using c by (cases s rule: rev_cases) (auto simp: clean_text_def)
  ultimately show ?thesis by (simp add: trim_matches_def)
qed

lemma bounded_text_id: "clean_text s \<Longrightarrow> length s \<le> n \<Longrightarrow> bounded_text (Some s) n = Some s"
  by (simp add: bounded_text_def trim_matches_clean clean_text_def)

lemma check_rate_playback_ok: "playback_ok p \<Longrightarrow> check_rate p = Inr ()"
  by (cases "pb_state p") (auto simp: check_rate_def playback_ok_def f_le_def Let_def)

lemma check_rate_Inr:
  "check_rate p = Inr u \<Longrightarrow> is_finite (pb_rate p) \<and> f_le (Fin 0) (pb_rate p) \<and> f_le (pb_rate p) (Fin 4) \<and>
    (pb_state p = Paused \<longrightarrow> f_eq (pb_rate p) (Fin 0)) \<and> (pb_state p = Playing \<longrightarrow> \<not> f_le (pb_rate p) (Fin 0))"
  by (auto simp: check_rate_def Let_def split: if_splits)

section \<open>Well-formed requests\<close>

definition application_context_ok :: "wire_application_context \<Rightarrow> bool" where
  "application_context_ok a \<longleftrightarrow>
     bounded_ok 120 (wac_display_name a) \<and> bounded_opt 500 (wac_window a) \<and>
     wac_activity a = None \<and> wac_icon a = None"

definition wire_ms_ok :: "nat option \<Rightarrow> bool" where
  "wire_ms_ok v \<longleftrightarrow> (case v of None \<Rightarrow> True | Some n \<Rightarrow> n \<le> MAXIMUM_SAFE_WIRE_INTEGER)"

fun within_ms :: "nat option \<Rightarrow> nat option \<Rightarrow> bool" where
  "within_ms (Some x) (Some d) = (x \<le> d)"
| "within_ms _ _ = True"

definition wire_playback_ok :: "wire_playback \<Rightarrow> bool" where
  "wire_playback_ok p \<longleftrightarrow>
     wire_ms_ok (wp_duration_ms p) \<and> wire_ms_ok (wp_position_ms p) \<and>
     within_ms (wp_position_ms p) (wp_duration_ms p) \<and>
     is_finite (wp_rate p) \<and> f_le (Fin 0) (wp_rate p) \<and> f_le (wp_rate p) (Fin 4) \<and>
     (wp_state p = Paused \<longrightarrow> f_eq (wp_rate p) (Fin 0)) \<and>
     (wp_state p = Playing \<longrightarrow> \<not> f_le (wp_rate p) (Fin 0)) \<and>
     matches_rfc3339_ms_utc (wp_sampled_at p)"

definition media_context_ok :: "wire_media_context \<Rightarrow> bool" where
  "media_context_ok m \<longleftrightarrow>
     bounded_opt 300 (wmc_title m) \<and> bounded_opt 300 (wmc_artist m) \<and> bounded_opt 300 (wmc_album m) \<and>
     bounded_opt 120 (wmc_player m) \<and> (wmc_title m \<noteq> None \<or> wmc_artist m \<noteq> None) \<and>
     wire_playback_ok (wmc_playback m)"

definition request_meta_ok :: "presence_request_meta \<Rightarrow> bool" where
  "request_meta_ok m \<longleftrightarrow>
     rm_schema m = PRESENCE_SCHEMA \<and> rm_schema_version m = PRESENCE_SCHEMA_VERSION \<and>
     matches_rfc3339_ms_utc (rm_observed_at m)"

definition presence_request_ok :: "int \<Rightarrow> int \<Rightarrow> presence_request \<Rightarrow> bool" where
  "presence_request_ok lo hi r \<longleftrightarrow>
     request_meta_ok (pr_meta r) \<and>
     (case rd_application (pr_data r) of None \<Rightarrow> True | Some a \<Rightarrow> application_context_ok a) \<and>
     (case rd_media (pr_data r) of None \<Rightarrow> True | Some m \<Rightarrow> media_context_ok m) \<and>
     (rd_availability (pr_data r) = AvIdle \<longleftrightarrow>
        rd_application (pr_data r) = None \<and> rd_media (pr_data r) = None) \<and>
     (0 \<le> lo \<and> lo \<le> hi \<longrightarrow>
        lo \<le> int (rd_ttl_seconds (pr_data r)) \<and> int (rd_ttl_seconds (pr_data r)) \<le> hi)"

lemma map_application_ok:
  "map_application s = Inr (Some a) \<Longrightarrow> application_context_ok a"
  by (auto simp: map_application_def application_context_ok_def DISPLAY_NAME_LIMIT_def
      WINDOW_TITLE_LIMIT_def dest: bounded_text_Some split: option.splits)

lemma transpose_ms_ok:
  "map_transpose (\<lambda>s. seconds_to_wire_milliseconds s f) v = Inr r \<Longrightarrow> wire_ms_ok r"
  by (cases v) (auto simp: wire_ms_ok_def dest: seconds_to_wire_milliseconds_bound)

lemma clamp_position_ms_ok:
  "wire_ms_ok p \<Longrightarrow> wire_ms_ok d \<Longrightarrow> wire_ms_ok (clamp_position_ms p d) \<and>
   within_ms (clamp_position_ms p d) d"
  by (auto simp: clamp_position_ms_def wire_ms_ok_def split: option.splits)

lemma map_media_ok:
  assumes "map_media cal s = Inr (Some m)"
  shows "media_context_ok m"
proof -
  obtain x dur pos date where x: "snap_media s = Some x"
    and r: "check_rate (sm_playback x) = Inr ()"
    and dur: "map_transpose (\<lambda>s. seconds_to_wire_milliseconds s ''durationMs'')
        (pb_duration_seconds (sm_playback x)) = Inr dur"
    and pos: "map_transpose (\<lambda>s. seconds_to_wire_milliseconds s ''positionMs'')
        (pb_position_seconds (sm_playback x)) = Inr pos"
    and date: "matches_rfc3339_ms_utc date"
    and tx: "bounded_text (sm_title x) MEDIA_TEXT_LIMIT \<noteq> None \<or> bounded_text (sm_artist x) MEDIA_TEXT_LIMIT \<noteq> None"
    and m: "m = \<lparr>wmc_session_id = sm_session_id x, wmc_kind = sm_kind x,
        wmc_title = bounded_text (sm_title x) MEDIA_TEXT_LIMIT,
        wmc_artist = bounded_text (sm_artist x) MEDIA_TEXT_LIMIT,
        wmc_album = bounded_text (sm_album x) MEDIA_TEXT_LIMIT,
        wmc_player = bounded_text (sm_player_display_name x) DISPLAY_NAME_LIMIT,
        wmc_playback = \<lparr>wp_state = pb_state (sm_playback x), wp_duration_ms = dur,
          wp_position_ms = clamp_position_ms pos dur, wp_sampled_at = date,
          wp_rate = pb_rate (sm_playback x)\<rparr>\<rparr>"
    using assms
    by (auto simp: map_media_def Let_def wire_simps split: option.splits if_splits)
  note d = transpose_ms_ok [OF dur] and p = transpose_ms_ok [OF pos]
  have "bounded_opt 300 (bounded_text v MEDIA_TEXT_LIMIT)" for v
    using bounded_opt_bounded_text [of MEDIA_TEXT_LIMIT v] by (simp add: MEDIA_TEXT_LIMIT_def)
  moreover have "bounded_opt 120 (bounded_text v DISPLAY_NAME_LIMIT)" for v
    using bounded_opt_bounded_text [of DISPLAY_NAME_LIMIT v] by (simp add: DISPLAY_NAME_LIMIT_def)
  ultimately show ?thesis
    using check_rate_Inr [OF r] clamp_position_ms_ok [OF p d] tx date d
    by (simp add: m media_context_ok_def wire_playback_ok_def)
qed

lemma clamp_ttl_bounds: "0 \<le> lo \<Longrightarrow> lo \<le> hi \<Longrightarrow> lo \<le> int (clamp_ttl r lo hi) \<and> int (clamp_ttl r lo hi) \<le> hi"
  by (auto simp: clamp_ttl_def)

lemma make_meta_Inr:
  "make_meta cal uuid dev n t = Inr m \<longleftrightarrow>
     (\<exists>date. encode_wire_date cal t = Inr date \<and>
        m = \<lparr>rm_schema = PRESENCE_SCHEMA, rm_schema_version = PRESENCE_SCHEMA_VERSION,
            rm_request_id = uuid, rm_device_id = dev, rm_sequence = n, rm_observed_at = date\<rparr>)"
  by (auto simp: make_meta_def)

lemma presence_request_ids:
  assumes "make_presence_request cal uuid snapshot sequence requested options = Inr r"
  shows "mapped_request_id r = uuid" and "rm_request_id (pr_meta (mapped_body r)) = uuid"
    and "rm_device_id (pr_meta (mapped_body r)) = mo_device_id options"
    and "rm_sequence (pr_meta (mapped_body r)) = sequence"
  using assms by (auto simp: make_presence_request_def make_meta_Inr Let_def)

lemma clear_request_ids:
  assumes "make_clear_request cal uuid reason sequence t options = Inr r"
  shows "mapped_request_id r = uuid" and "rm_request_id (cr_meta (mapped_body r)) = uuid"
    and "rm_device_id (cr_meta (mapped_body r)) = mo_device_id options"
    and "rm_sequence (cr_meta (mapped_body r)) = sequence" and "cr_reason (mapped_body r) = reason"
  using assms by (auto simp: make_clear_request_def make_meta_Inr)

section \<open>Properties\<close>

text \<open>
  C26: a mapped presence request satisfies every wire constraint, whatever the snapshot was:
  texts cut to 120, 500 and 300 scalars and trimmed, media with a title or an artist, a rate
  consistent with the playback state, milliseconds inside the wire range with the position not
  beyond the duration, \<open>idle\<close> exactly when both halves are null, a lease inside the negotiated
  bounds; and it carries the given sequence, device and request id.
\<close>

theorem presence_request_well_formed:
  assumes "make_presence_request cal uuid snapshot sequence requested options = Inr r"
  shows "presence_request_ok (mo_lease_min_seconds options) (mo_lease_max_seconds options) (mapped_body r) \<and>
    mapped_request_id r = uuid \<and> rm_request_id (pr_meta (mapped_body r)) = uuid \<and>
    rm_device_id (pr_meta (mapped_body r)) = mo_device_id options \<and>
    rm_sequence (pr_meta (mapped_body r)) = sequence"
  using assms clamp_ttl_bounds [of "mo_lease_min_seconds options" "mo_lease_max_seconds options" requested]
  by (auto simp: make_presence_request_def presence_request_ok_def request_meta_ok_def make_meta_Inr
      wire_simps Let_def map_application_ok map_media_ok split: option.splits)

definition sample_snapshot :: sanitized_snapshot where
  "sample_snapshot =
     \<lparr>observed_at = 0,
      snap_application = Some \<lparr>sa_display_name = lit ''Code'', sa_window_title = None\<rparr>,
      snap_media = None\<rparr>"

definition sample_options :: make_request_options where
  "sample_options =
     \<lparr>mo_device_id = sample_uuid, mo_lease_min_seconds = 30, mo_lease_max_seconds = 300\<rparr>"

lemma sample_request:
  "\<exists>r. make_presence_request epoch_calendar sample_uuid sample_snapshot 7 (Fin 180) sample_options = Inr r \<and>
    rd_availability (pr_data (mapped_body r)) = AvActive \<and>
    wac_display_name (the (rd_application (pr_data (mapped_body r)))) = lit ''Code''"
proof -
  have "clean_text (lit ''Code'')"
    by (simp add: clean_text_def lit_def is_js_whitespace_def)
  then have "bounded_text (Some (lit ''Code'')) 120 = Some (lit ''Code'')"
    by (rule bounded_text_id) (simp add: lit_def)
  then show ?thesis
    by (simp add: make_presence_request_def sample_snapshot_def map_application_def map_media_def
        make_meta_def encode_epoch DISPLAY_NAME_LIMIT_def Let_def)
qed

lemma presence_request_well_formed_witness:
  "\<exists>r. make_presence_request epoch_calendar sample_uuid sample_snapshot 7 (Fin 180) sample_options = Inr r \<and>
     presence_request_ok 30 300 (mapped_body r)"
  using sample_request presence_request_well_formed [of epoch_calendar sample_uuid sample_snapshot 7 "Fin 180" sample_options]
  by (auto simp: sample_options_def)

text \<open>
  C27: the sanitizer and the mapper fit together. A snapshot whose application and media have
  passed the sanitization boundary always maps, unless the calendar cannot encode one of its
  instants or a duration or position leaves the wire range: no text, however long, makes a
  publish fail.
\<close>

definition encodable_seconds :: "string \<Rightarrow> f64 option \<Rightarrow> bool" where
  "encodable_seconds f v \<longleftrightarrow> is_ok (map_transpose (\<lambda>s. seconds_to_wire_milliseconds s f) v)"

theorem sanitized_snapshot_maps:
  assumes "\<And>a. snap_application s = Some a \<Longrightarrow> application_ok a"
    and "\<And>m. snap_media s = Some m \<Longrightarrow> media_ok m \<and>
        is_ok (encode_wire_date cal (pb_sampled_at (sm_playback m))) \<and>
        encodable_seconds ''durationMs'' (pb_duration_seconds (sm_playback m)) \<and>
        encodable_seconds ''positionMs'' (pb_position_seconds (sm_playback m))"
    and "is_ok (encode_wire_date cal (observed_at s))"
  shows "is_ok (make_presence_request cal uuid s sequence requested options)"
proof -
  have "is_ok (map_application s)"
  proof (cases "snap_application s")
    case (Some a)
    obtain t where "bounded_text (Some (sa_display_name a)) DISPLAY_NAME_LIMIT = Some t"
      using bounded_text_clean [of "sa_display_name a" DISPLAY_NAME_LIMIT] assms(1) [OF Some]
      by (auto simp: application_ok_def DISPLAY_NAME_LIMIT_def)
    with Some show ?thesis by (simp add: map_application_def)
  qed (simp add: map_application_def)
  moreover have "is_ok (map_media cal s)"
  proof (cases "snap_media s")
    case (Some m)
    note ok = assms(2) [OF Some]
    have "\<exists>t. bounded_text (Some x) MEDIA_TEXT_LIMIT = Some t" if "clean_text x" for x
      by (rule bounded_text_clean [OF that]) (simp add: MEDIA_TEXT_LIMIT_def)
    then have "bounded_text (sm_title m) MEDIA_TEXT_LIMIT \<noteq> None \<or>
        bounded_text (sm_artist m) MEDIA_TEXT_LIMIT \<noteq> None"
      using ok by (fastforce simp: media_ok_def texts_ok_def clean_opt_def)
    moreover have "check_rate (sm_playback m) = Inr ()"
      using ok by (simp add: check_rate_playback_ok media_ok_def)
    ultimately show ?thesis
      using ok Some by (auto simp: map_media_def Let_def is_ok_iff encodable_seconds_def)
  qed (simp add: map_media_def)
  ultimately obtain a md date where "map_application s = Inr a" and "map_media cal s = Inr md"
    and "encode_wire_date cal (observed_at s) = Inr date"
    using assms(3) by (auto simp: is_ok_iff)
  then show ?thesis by (simp add: make_presence_request_def make_meta_def Let_def)
qed

lemma sanitized_snapshot_maps_witness:
  "is_ok (make_presence_request epoch_calendar sample_uuid sample_snapshot 7 (Fin 180) sample_options)"
  by (rule sanitized_snapshot_maps)
    (auto simp: sample_snapshot_def application_ok_def clean_text_def lit_def is_js_whitespace_def
      encode_epoch)

end
