(* ===== verification/Capture_Service.thy ===== *)
theory Capture_Service
  imports Media_Session Dto_Mapper
begin

text \<open>
  The capture pipeline (\<open>core/src/privacy/capture_service.rs\<close>). One delivery is a function of
  everything it observes: the clock, the provider, the three reads of the privacy
  configuration (before the media await, after it, before the application branch), the raw
  sample the bounded await ended with, what other captures did to the session tracker while
  it was suspended, and the foreground sample.
\<close>

record delivery =
  dl_now :: epoch_ms
  dl_provider :: bool
  dl_config1 :: privacy_config
  dl_raw :: "media_snapshot option"
  dl_config2 :: privacy_config
  dl_interference :: "session_tracker \<Rightarrow> session_tracker"
  dl_fresh_id :: rstr
  dl_config3 :: privacy_config
  dl_foreground :: "foreground_info option"

definition player_name_of :: "media_snapshot \<Rightarrow> rstr" where
  "player_name_of raw =
     (case ms_player_display_name raw of
        Some n \<Rightarrow> n
      | None \<Rightarrow> (case ms_source_aumid raw of Some a \<Rightarrow> a | None \<Rightarrow> []))"

definition mapped_player_name :: "unicode \<Rightarrow> privacy_config \<Rightarrow> media_snapshot \<Rightarrow> rstr option" where
  "mapped_player_name u config raw =
     (case ms_player_display_name raw of
        None \<Rightarrow> None
      | Some name \<Rightarrow>
          or_else (apply_mapping u config MediaPlayerName name)
                  (apply_mapping u config MediaProcessName name))"

definition media_input_of :: "unicode \<Rightarrow> privacy_config \<Rightarrow> media_snapshot \<Rightarrow> media_sanitize_input" where
  "media_input_of u config raw =
     \<lparr>mi_kind = ms_kind raw, mi_title = ms_title raw, mi_artist = ms_artist raw,
      mi_album = ms_album raw, mi_captured_player_name = ms_player_display_name raw,
      mi_mapped_player_name = mapped_player_name u config raw, mi_playing = ms_playing raw,
      mi_duration_seconds = ms_duration_seconds raw, mi_position_seconds = ms_position_seconds raw,
      mi_sampled_at = ms_sampled_at raw\<rparr>"

definition identity_of :: "media_without_session \<Rightarrow> media_identity" where
  "identity_of m =
     \<lparr>mid_kind = mw_kind m, mid_title = mw_title m, mid_artist = mw_artist m,
      mid_album = mw_album m, mid_player_display_name = mw_player_display_name m,
      mid_duration_seconds = pb_duration_seconds (mw_playback m)\<rparr>"

definition with_session :: "rstr \<Rightarrow> media_without_session \<Rightarrow> sanitized_media" where
  "with_session sid m =
     \<lparr>sm_session_id = sid, sm_kind = mw_kind m, sm_title = mw_title m, sm_artist = mw_artist m,
      sm_album = mw_album m, sm_player_display_name = mw_player_display_name m,
      sm_playback = mw_playback m\<rparr>"

text \<open>What the media branch makes of a raw sample under the configuration read after the await.\<close>

definition sanitize_raw_media :: "unicode \<Rightarrow> privacy_config \<Rightarrow> media_snapshot \<Rightarrow> media_without_session option"
where
  "sanitize_raw_media u config raw =
     (if src_media (sources config) \<and> ms_playing raw
      then sanitize_media u (media_input_of u config raw)
             (decide_media u config (ms_app_id raw) (player_name_of raw))
             (ignore_null_artist config)
      else None)"

definition capture_media ::
  "unicode \<Rightarrow> delivery \<Rightarrow> bool \<Rightarrow> session_tracker \<Rightarrow> sanitized_media option \<times> session_tracker" where
  "capture_media u dl include_media t =
     (if dl_provider dl \<and> include_media \<and> src_media (sources (dl_config1 dl)) then
        let t1 = dl_interference dl t
        in case Option.bind (dl_raw dl) (sanitize_raw_media u (dl_config2 dl)) of
             Some m \<Rightarrow>
               (case session_id t1 (identity_of m) (dl_fresh_id dl) of
                  (sid, t2) \<Rightarrow> (Some (with_session sid m), t2))
           | None \<Rightarrow> (None, tracker_reset t1)
      else if include_media then (None, tracker_reset t)
      else (None, t))"

definition capture_application :: "unicode \<Rightarrow> delivery \<Rightarrow> sanitized_application option" where
  "capture_application u dl =
     (let config = dl_config3 dl
      in if src_application (sources config)
         then case dl_foreground dl of
                None \<Rightarrow> None
              | Some info \<Rightarrow>
                  sanitize_application u
                    \<lparr>ai_captured_display_name = fg_display_name info,
                     ai_mapped_display_name = apply_mapping u config ProcessName (fg_app_id info),
                     ai_window_title = fg_window_title info\<rparr>
                    (decide_process u config (fg_app_id info)) (share_window_titles config)
         else None)"

definition capture_for_delivery ::
  "unicode \<Rightarrow> delivery \<Rightarrow> bool \<Rightarrow> session_tracker \<Rightarrow> sanitized_snapshot \<times> session_tracker" where
  "capture_for_delivery u dl include_media t =
     (case capture_media u dl include_media t of
        (media, t') \<Rightarrow>
          (\<lparr>observed_at = dl_now dl, snap_application = capture_application u dl,
            snap_media = media\<rparr>, t'))"

definition reset_media_continuity :: "session_tracker \<Rightarrow> session_tracker" where
  "reset_media_continuity t = tracker_reset t"

section \<open>Lemmas\<close>

lemma capture_application_Some:
  assumes "capture_application u dl = Some a"
  shows "application_ok a \<and> src_application (sources (dl_config3 dl)) \<and>
    (\<exists>info. dl_foreground dl = Some info \<and>
       effective_application u (dl_config3 dl) (fg_app_id info) = DShare \<and>
       (sa_window_title a \<noteq> None \<longrightarrow>
          effective_title u (dl_config3 dl) (fg_app_id info) = DShare \<and>
          share_window_titles (dl_config3 dl)))"
proof -
  obtain info where i: "dl_foreground dl = Some info" and src: "src_application (sources (dl_config3 dl))"
    and a: "sanitize_application u
       \<lparr>ai_captured_display_name = fg_display_name info,
        ai_mapped_display_name = apply_mapping u (dl_config3 dl) ProcessName (fg_app_id info),
        ai_window_title = fg_window_title info\<rparr>
       (decide_process u (dl_config3 dl) (fg_app_id info)) (share_window_titles (dl_config3 dl)) = Some a"
    using assms by (auto simp: capture_application_def Let_def split: if_splits option.splits)
  have "clean_opt (pd_display_alias (decide_process u (dl_config3 dl) (fg_app_id info)))"
    using decide_alias_clean(1) by (auto simp: clean_opt_def split: option.splits)
  with a have "application_ok a" by (rule sanitize_application_ok)
  with i src a show ?thesis
    by (auto simp: sanitize_application_def text_simps split: if_splits option.splits)
qed

lemma sanitize_raw_media_Some:
  assumes "sanitize_raw_media u c raw = Some m"
  shows "src_media (sources c) \<and> ms_playing raw \<and>
    effective_media u c (ms_app_id raw) (player_name_of raw) = DShare \<and>
    texts_ok (mw_title m) (mw_artist m) (mw_album m) (mw_player_display_name m) \<and>
    playback_ok (mw_playback m) \<and> pb_state (mw_playback m) = Playing"
proof -
  have s: "sanitize_media u (media_input_of u c raw)
      (decide_media u c (ms_app_id raw) (player_name_of raw)) (ignore_null_artist c) = Some m"
    and g: "src_media (sources c)" "ms_playing raw"
    using assms by (auto simp: sanitize_raw_media_def split: if_splits)
  have "clean_opt (mdec_display_alias (decide_media u c (ms_app_id raw) (player_name_of raw)))"
    using decide_alias_clean(2) by (auto simp: clean_opt_def split: option.splits)
  from sanitize_media_ok [OF s this] s g show ?thesis
    by (auto simp: sanitize_media_def text_simps media_input_of_def Let_def split: if_splits)
qed

lemma capture_media_Some:
  assumes "capture_media u dl inc t = (Some m, t')"
  shows "inc \<and> dl_provider dl \<and> src_media (sources (dl_config1 dl)) \<and>
    (\<exists>raw w sid. dl_raw dl = Some raw \<and> sanitize_raw_media u (dl_config2 dl) raw = Some w \<and>
       m = with_session sid w \<and>
       session_id (dl_interference dl t) (identity_of w) (dl_fresh_id dl) = (sid, t'))"
  using assms
  by (auto simp: capture_media_def Let_def bind_eq_Some_conv split: if_splits option.splits prod.splits)

lemma capture_media_None:
  "capture_media u dl inc t = (None, t') \<Longrightarrow> t' = (if inc then None else t)"
  by (auto simp: capture_media_def Let_def tracker_reset_def split: if_splits option.splits prod.splits)

lemma media_ok_with_session:
  "texts_ok (mw_title w) (mw_artist w) (mw_album w) (mw_player_display_name w) \<Longrightarrow>
   playback_ok (mw_playback w) \<Longrightarrow> media_ok (with_session sid w)"
  by (simp add: media_ok_def with_session_def)

lemma capture_media_facts:
  assumes "capture_media u dl inc t = (Some m, t')"
  shows "inc \<and> media_ok m \<and> pb_state (sm_playback m) = Playing \<and>
    src_media (sources (dl_config1 dl)) \<and> src_media (sources (dl_config2 dl)) \<and>
    (\<exists>raw. dl_raw dl = Some raw \<and> ms_playing raw \<and>
       effective_media u (dl_config2 dl) (ms_app_id raw) (player_name_of raw) = DShare)"
proof -
  obtain raw w sid where w: "dl_raw dl = Some raw" "sanitize_raw_media u (dl_config2 dl) raw = Some w"
    and m: "m = with_session sid w" and "inc" "src_media (sources (dl_config1 dl))"
    using capture_media_Some [OF assms] by blast
  with sanitize_raw_media_Some [OF w(2)] show ?thesis
    by (simp add: media_ok_with_session) (simp add: with_session_def)
qed

lemma capture_split:
  "capture_for_delivery u dl inc t = (s, t') \<longleftrightarrow>
     (\<exists>m. capture_media u dl inc t = (m, t') \<and>
        s = \<lparr>observed_at = dl_now dl, snap_application = capture_application u dl, snap_media = m\<rparr>)"
  by (auto simp: capture_for_delivery_def split: prod.splits)

section \<open>Properties\<close>

text \<open>
  C5: the capture fails closed. Whatever configuration the first read saw, media is delivered
  only when the configuration read after the await still has the media source on and shares this
  session, and the application only under the third read; both halves are then well formed, and
  media is delivered only while playing.
\<close>

theorem capture_fails_closed:
  assumes "capture_for_delivery u dl include_media t = (s, t')"
  shows "(\<forall>m. snap_media s = Some m \<longrightarrow> include_media \<and> media_ok m \<and>
      pb_state (sm_playback m) = Playing \<and>
      src_media (sources (dl_config1 dl)) \<and> src_media (sources (dl_config2 dl)) \<and>
      (\<exists>raw. dl_raw dl = Some raw \<and> ms_playing raw \<and>
         effective_media u (dl_config2 dl) (ms_app_id raw) (player_name_of raw) = DShare)) \<and>
    (\<forall>a. snap_application s = Some a \<longrightarrow> application_ok a \<and>
      src_application (sources (dl_config3 dl)) \<and>
      (\<exists>info. dl_foreground dl = Some info \<and>
         effective_application u (dl_config3 dl) (fg_app_id info) = DShare))"
proof -
  obtain m where m: "capture_media u dl include_media t = (m, t')"
    and s: "s = \<lparr>observed_at = dl_now dl, snap_application = capture_application u dl, snap_media = m\<rparr>"
    using assms by (auto simp: capture_split)
  show ?thesis
    unfolding s using capture_media_facts [of u dl include_media t _ t'] capture_application_Some [of u dl] m
    by fastforce
qed

definition sample_info :: foreground_info where
  "sample_info =
     \<lparr>fg_app_id = lit ''code.exe'', fg_exe_path = Some (lit ''p''), fg_display_name = lit ''Code'',
      fg_window_title = Some (lit ''secret'')\<rparr>"

definition sample_delivery :: delivery where
  "sample_delivery =
     \<lparr>dl_now = 0, dl_provider = False, dl_config1 = default_privacy_config, dl_raw = None,
      dl_config2 = default_privacy_config, dl_interference = (\<lambda>t. t), dl_fresh_id = sample_uuid,
      dl_config3 = default_privacy_config, dl_foreground = Some sample_info\<rparr>"

lemma sample_capture:
  "capture_for_delivery ascii_unicode sample_delivery True None = (sample_snapshot, None)"
  by (simp add: capture_for_delivery_def capture_media_def capture_application_def sample_delivery_def
      sample_info_def sample_snapshot_def sanitize_application_def decide_process_def text_eval
      default_privacy_config_def tracker_reset_def Let_def del: lit_eq_iff)

lemma capture_fails_closed_witness:
  "capture_for_delivery ascii_unicode sample_delivery True None = (sample_snapshot, None) \<and>
   application_ok \<lparr>sa_display_name = lit ''Code'', sa_window_title = None\<rparr>"
  using capture_fails_closed [OF sample_capture] sample_capture
  by (auto simp: sample_snapshot_def)

text \<open>
  C13: raw process identity does not cross the boundary. Two foreground samples with the same
  application id and display name give the same delivery whatever their executable paths are,
  and, unless the rule level and the global switch both share titles, whatever their window
  titles are; and all samples of hidden applications give the same delivery.
\<close>

theorem capture_noninterference:
  assumes "fg_app_id i1 = fg_app_id i2 \<and> fg_display_name i1 = fg_display_name i2 \<and>
      (fg_window_title i1 = fg_window_title i2 \<or>
       effective_title u (dl_config3 dl) (fg_app_id i1) = DHide \<or> \<not> share_window_titles (dl_config3 dl))
    \<or> effective_application u (dl_config3 dl) (fg_app_id i1) = DHide \<and>
      effective_application u (dl_config3 dl) (fg_app_id i2) = DHide"
  shows "capture_for_delivery u (dl\<lparr>dl_foreground := Some i1\<rparr>) include_media t =
         capture_for_delivery u (dl\<lparr>dl_foreground := Some i2\<rparr>) include_media t"
proof -
  have "capture_application u (dl\<lparr>dl_foreground := Some i1\<rparr>) =
        capture_application u (dl\<lparr>dl_foreground := Some i2\<rparr>)"
  proof (cases "effective_application u (dl_config3 dl) (fg_app_id i1) = DHide \<and>
      effective_application u (dl_config3 dl) (fg_app_id i2) = DHide")
    case True
    then show ?thesis
      by (simp add: capture_application_def Let_def sanitize_application_def decide_process_fields)
  next
    case False
    then have same: "fg_app_id i1 = fg_app_id i2" "fg_display_name i1 = fg_display_name i2"
      and t: "fg_window_title i1 = fg_window_title i2 \<or>
        effective_title u (dl_config3 dl) (fg_app_id i2) = DHide \<or> \<not> share_window_titles (dl_config3 dl)"
      using assms by metis+
    from t show ?thesis
      by (elim disjE)
        (simp_all add: capture_application_def Let_def sanitize_application_def decide_process_fields same)
  qed
  moreover have "capture_media u (dl\<lparr>dl_foreground := Some i1\<rparr>) include_media t =
        capture_media u (dl\<lparr>dl_foreground := Some i2\<rparr>) include_media t"
    by (simp add: capture_media_def cong: option.case_cong)
  ultimately show ?thesis by (simp add: capture_for_delivery_def)
qed

lemma capture_noninterference_witness:
  "capture_for_delivery ascii_unicode (sample_delivery\<lparr>dl_foreground := Some sample_info\<rparr>) True None =
   capture_for_delivery ascii_unicode
     (sample_delivery\<lparr>dl_foreground := Some (sample_info\<lparr>fg_exe_path := None, fg_window_title := None\<rparr>)\<rparr>) True None"
  by (rule capture_noninterference)
    (simp add: sample_info_def sample_delivery_def default_privacy_config_def effective_title_def find_rule_def)

end
