(* ===== verification/Fingerprint.thy ===== *)
theory Fingerprint
  imports Privacy_Model
begin

text \<open>
  The policy fingerprint (\<open>core/src/privacy/fingerprint.rs\<close>): the canonical text of the
  persisted privacy projection, hashed. The JSON string literal writer of \<open>serde_json\<close> and
  SHA-256 are parameters (\<open>js\<close>, \<open>sha\<close>); the emission, the normalization, the filter and both
  stable sorts are modelled.
\<close>

fun mapping_type_str :: "privacy_mapping_type \<Rightarrow> rstr" where
  "mapping_type_str ProcessName = lit ''process_name''"
| "mapping_type_str MediaProcessName = lit ''media_process_name''"
| "mapping_type_str MediaPlayerName = lit ''media_player_name''"

fun default_str :: "privacy_default \<Rightarrow> rstr" where
  "default_str DShare = lit ''share''"
| "default_str DHide = lit ''hide''"

fun override_str :: "privacy_override \<Rightarrow> rstr" where
  "override_str Inherit = lit ''inherit''"
| "override_str OShare = lit ''share''"
| "override_str OHide = lit ''hide''"

definition bool_str :: "bool \<Rightarrow> rstr" where
  "bool_str b = (if b then lit ''true'' else lit ''false'')"

text \<open>The double quote, which an Isabelle string literal cannot spell.\<close>

definition dq :: rstr where
  "dq = [34]"

definition quoted :: "string \<Rightarrow> rstr" where
  "quoted s = dq @ lit s @ dq"

definition rule_text :: "(rstr \<Rightarrow> rstr) \<Rightarrow> application_privacy_rule \<Rightarrow> rstr" where
  "rule_text js r =
     lit ''{'' @ quoted ''appId'' @ lit '':'' @ js (app_id r) @
     lit '','' @ quoted ''application'' @ lit '':'' @ dq @ override_str (rule_application r) @ dq @
     (case display_alias r of
        None \<Rightarrow> []
      | Some a \<Rightarrow> lit '','' @ quoted ''displayAlias'' @ lit '':'' @ js a) @
     lit '','' @ quoted ''media'' @ lit '':'' @ dq @ override_str (rule_media r) @ dq @
     lit '','' @ quoted ''windowTitle'' @ lit '':'' @ dq @ override_str (rule_window_title r) @ dq @
     lit ''}''"

definition mapping_text :: "(rstr \<Rightarrow> rstr) \<Rightarrow> privacy_mapping \<Rightarrow> rstr" where
  "mapping_text js m =
     lit ''{'' @ quoted ''from'' @ lit '':'' @ js (map_from m) @
     lit '','' @ quoted ''to'' @ lit '':'' @ js (map_to m) @
     lit '','' @ quoted ''type'' @ lit '':'' @ dq @ mapping_type_str (mapping_type m) @ dq @ lit ''}''"

text \<open>\<open>for (index, x) in xs.iter().enumerate()\<close> with a comma before every element but the first.\<close>

fun comma_list :: "('a \<Rightarrow> rstr) \<Rightarrow> 'a list \<Rightarrow> rstr" where
  "comma_list f [] = []"
| "comma_list f [x] = f x"
| "comma_list f (x # y # xs) = f x @ lit '','' @ comma_list f (y # xs)"

text \<open>The literal runtime key: type, backslash, zero, source.\<close>

definition mapping_sort_key :: "privacy_mapping \<Rightarrow> rstr" where
  "mapping_sort_key m = mapping_type_str (mapping_type m) @ [92, 48] @ map_from m"

definition canonical_rules :: "unicode \<Rightarrow> privacy_config \<Rightarrow> application_privacy_rule list" where
  "canonical_rules u config =
     sort_key (\<lambda>r. utf16_units (app_id r))
       (filter (\<lambda>r. \<not> is_empty_rule u r) (map (normalized_rule u) (rules config)))"

definition canonical_mappings :: "privacy_config \<Rightarrow> privacy_mapping list" where
  "canonical_mappings config =
     sort_key (\<lambda>m. utf16_units (mapping_sort_key m)) (mappings config)"

definition policy_preimage :: "(rstr \<Rightarrow> rstr) \<Rightarrow> unicode \<Rightarrow> privacy_config \<Rightarrow> rstr" where
  "policy_preimage js u config =
     lit ''{'' @ quoted ''defaults'' @ lit '':{'' @ quoted ''application'' @ lit '':'' @ dq @
     default_str (def_application (defaults config)) @ dq @
     lit '','' @ quoted ''media'' @ lit '':'' @ dq @ default_str (def_media (defaults config)) @ dq @
     lit '','' @ quoted ''windowTitle'' @ lit '':'' @ dq @
     default_str (def_window_title (defaults config)) @ dq @
     lit ''},'' @ quoted ''ignoreNullArtist'' @ lit '':'' @ bool_str (ignore_null_artist config) @
     lit '','' @ quoted ''mappings'' @ lit '':['' @
     comma_list (mapping_text js) (canonical_mappings config) @
     lit ''],'' @ quoted ''rules'' @ lit '':['' @
     comma_list (rule_text js) (canonical_rules u config) @
     lit ''],'' @ quoted ''shareWindowTitles'' @ lit '':'' @ bool_str (share_window_titles config) @
     lit '','' @ quoted ''sources'' @ lit '':{'' @ quoted ''application'' @ lit '':'' @
     bool_str (src_application (sources config)) @
     lit '','' @ quoted ''media'' @ lit '':'' @ bool_str (src_media (sources config)) @ lit ''}}''"

definition hex_digit :: "nat \<Rightarrow> scalar" where
  "hex_digit n = (if n < 10 then 48 + n else 87 + n)"

definition hex_lower :: "u8 list \<Rightarrow> rstr" where
  "hex_lower bytes = concat (map (\<lambda>b. [hex_digit (unat b div 16), hex_digit (unat b mod 16)]) bytes)"

definition policy_fingerprint ::
  "(rstr \<Rightarrow> rstr) \<Rightarrow> (u8 list \<Rightarrow> u8 list) \<Rightarrow> unicode \<Rightarrow> privacy_config \<Rightarrow> rstr" where
  "policy_fingerprint js sha u config = hex_lower (sha (str_bytes (policy_preimage js u config)))"

interpretation utf16_order: keyed_order cmp_utf16 utf16_units
  by unfold_locales (simp add: cmp_utf16_def)

section \<open>Lemmas\<close>

lemma hex_digit_inj: "a < 16 \<Longrightarrow> b < 16 \<Longrightarrow> hex_digit a = hex_digit b \<Longrightarrow> a = b"
  by (auto simp: hex_digit_def split: if_splits)

lemma hex_lower_Cons:
  "hex_lower (b # bs) = hex_digit (unat b div 16) # hex_digit (unat b mod 16) # hex_lower bs"
  by (simp add: hex_lower_def)

lemma hex_lower_inj: "hex_lower as = hex_lower bs \<Longrightarrow> as = bs"
proof (induction as arbitrary: bs)
  case Nil
  then show ?case by (cases bs) (simp_all add: hex_lower_def)
next
  case (Cons a as)
  then obtain b cs where bs: "bs = b # cs" by (cases bs) (simp_all add: hex_lower_def)
  have "unat w < 2 ^ LENGTH(8)" for w :: u8 by (rule unsigned_less)
  then have "unat a < 256" "unat b < 256" by simp_all
  then have "unat a div 16 < 16" "unat b div 16 < 16" by simp_all
  then have "unat a div 16 = unat b div 16" and "unat a mod 16 = unat b mod 16"
    using Cons.prems hex_digit_inj by (simp_all add: bs hex_lower_Cons)
  then have "unat a = unat b" by (metis div_mult_mod_eq)
  then have "a = b" by (rule unsigned_word_eqI)
  with Cons show ?case by (simp add: bs hex_lower_Cons)
qed

lemma hex_lower_length: "length (hex_lower bs) = 2 * length bs"
  by (induction bs) (simp_all add: hex_lower_Cons hex_lower_def)

text \<open>
  What the code relies on: a JSON string literal is self-delimiting, so two texts that start
  with literals agree only if the literals do. The same holds of every piece the emission is
  made of.
\<close>

definition self_delimiting :: "('a \<Rightarrow> rstr) \<Rightarrow> bool" where
  "self_delimiting f \<longleftrightarrow> (\<forall>a b x y. f a @ x = f b @ y \<longrightarrow> a = b \<and> x = y)"

lemma self_delimiting_iff: "self_delimiting f \<Longrightarrow> f a @ x = f b @ y \<longleftrightarrow> a = b \<and> x = y"
  by (auto simp: self_delimiting_def)

lemma override_str_sd: "override_str v @ 34 # x = override_str w @ 34 # y \<longleftrightarrow> v = w \<and> x = y"
  by (cases v; cases w) (simp_all add: lit_def)

lemma default_str_sd: "default_str v @ 34 # x = default_str w @ 34 # y \<longleftrightarrow> v = w \<and> x = y"
  by (cases v; cases w) (simp_all add: lit_def)

lemma mapping_type_str_sd: "mapping_type_str v @ 34 # x = mapping_type_str w @ 34 # y \<longleftrightarrow> v = w \<and> x = y"
  by (cases v; cases w) (simp_all add: lit_def)

lemma bool_str_sd: "bool_str v @ x = bool_str w @ y \<longleftrightarrow> v = w \<and> x = y"
  by (cases v; cases w) (simp_all add: bool_str_def lit_def)

lemma bool_str_inj: "bool_str v = bool_str w \<longleftrightarrow> v = w"
  by (cases v; cases w) (simp_all add: bool_str_def lit_def)

lemma rule_text_sd:
  assumes "self_delimiting js"
  shows "self_delimiting (rule_text js)"
  unfolding self_delimiting_def
proof (intro allI impI)
  fix r1 r2 x y
  assume eq: "rule_text js r1 @ x = rule_text js r2 @ y"
  show "r1 = r2 \<and> x = y"
    using eq
    by (cases r1; cases r2; cases "display_alias r1"; cases "display_alias r2")
      (auto simp: rule_text_def dq_def quoted_def lit_def self_delimiting_iff [OF assms] override_str_sd)
qed

lemma mapping_text_sd:
  assumes "self_delimiting js"
  shows "self_delimiting (mapping_text js)"
  unfolding self_delimiting_def
proof (intro allI impI)
  fix m1 m2 x y
  assume eq: "mapping_text js m1 @ x = mapping_text js m2 @ y"
  show "m1 = m2 \<and> x = y"
    using eq
    by (cases m1; cases m2)
      (auto simp: mapping_text_def dq_def quoted_def lit_def self_delimiting_iff [OF assms] mapping_type_str_sd)
qed

lemma text_starts:
  "rule_text js r \<noteq> [] \<and> hd (rule_text js r) = 123"
  "mapping_text js m \<noteq> [] \<and> hd (mapping_text js m) = 123"
  by (simp_all add: rule_text_def mapping_text_def lit_def)

lemma comma_list_Cons:
  "comma_list f (x # xs) @ r = f x @ (if xs = [] then r else 44 # comma_list f xs @ r)"
  by (cases xs) (simp_all add: lit_def)

lemma comma_list_sd:
  assumes f: "self_delimiting f" and h: "\<And>a. f a \<noteq> [] \<and> hd (f a) = 123"
  shows "comma_list f xs @ 93 # x = comma_list f ys @ 93 # y \<Longrightarrow> xs = ys \<and> x = y"
proof (induction xs arbitrary: ys)
  case Nil
  then show ?case
    using h by (cases ys) (auto simp: comma_list_Cons simp del: comma_list.simps(3) dest!: arg_cong [of _ _ hd])
next
  case (Cons a xs)
  obtain b zs where ys: "ys = b # zs"
    using Cons.prems h
    by (cases ys) (auto simp: comma_list_Cons simp del: comma_list.simps(3) dest!: arg_cong [of _ _ hd])
  have "a = b \<and> (if xs = [] then 93 # x else 44 # comma_list f xs @ 93 # x) =
      (if zs = [] then 93 # y else 44 # comma_list f zs @ 93 # y)"
    using Cons.prems unfolding ys comma_list_Cons self_delimiting_iff [OF f] .
  with Cons.IH [of zs] show ?case by (auto simp: ys split: if_splits)
qed

text \<open>The parts of a configuration that the preimage determines.\<close>

definition canonical_projection where
  "canonical_projection u c =
     (defaults c, ignore_null_artist c, canonical_mappings c, canonical_rules u c,
      share_window_titles c, sources c)"

lemma policy_preimage_inj:
  assumes js: "self_delimiting js" and eq: "policy_preimage js u c1 = policy_preimage js u c2"
  shows "canonical_projection u c1 = canonical_projection u c2"
proof -
  note m = comma_list_sd [OF mapping_text_sd [OF js]]
  note r = comma_list_sd [OF rule_text_sd [OF js]]
  obtain x y where m1: "comma_list (mapping_text js) (canonical_mappings c1) @ 93 # 44 # x =
      comma_list (mapping_text js) (canonical_mappings c2) @ 93 # 44 # y"
    and d: "def_application (defaults c1) = def_application (defaults c2)"
      "def_media (defaults c1) = def_media (defaults c2)"
      "def_window_title (defaults c1) = def_window_title (defaults c2)"
      "ignore_null_artist c1 = ignore_null_artist c2"
    and x: "x = quoted ''rules'' @ lit '':['' @ comma_list (rule_text js) (canonical_rules u c1) @
       lit ''],'' @ quoted ''shareWindowTitles'' @ lit '':'' @ bool_str (share_window_titles c1) @
       lit '','' @ quoted ''sources'' @ lit '':{'' @ quoted ''application'' @ lit '':'' @
       bool_str (src_application (sources c1)) @
       lit '','' @ quoted ''media'' @ lit '':'' @ bool_str (src_media (sources c1)) @ lit ''}}''"
    and y: "y = quoted ''rules'' @ lit '':['' @ comma_list (rule_text js) (canonical_rules u c2) @
       lit ''],'' @ quoted ''shareWindowTitles'' @ lit '':'' @ bool_str (share_window_titles c2) @
       lit '','' @ quoted ''sources'' @ lit '':{'' @ quoted ''application'' @ lit '':'' @
       bool_str (src_application (sources c2)) @
       lit '','' @ quoted ''media'' @ lit '':'' @ bool_str (src_media (sources c2)) @ lit ''}}''"
    using eq
    by (simp add: policy_preimage_def dq_def quoted_def lit_def default_str_sd bool_str_sd)
  have mm: "canonical_mappings c1 = canonical_mappings c2" and "44 # x = 44 # y"
    using m [OF text_starts(2) m1] by auto
  then obtain z w where r1: "comma_list (rule_text js) (canonical_rules u c1) @ 93 # 44 # z =
      comma_list (rule_text js) (canonical_rules u c2) @ 93 # 44 # w"
    and z: "z = quoted ''shareWindowTitles'' @ lit '':'' @ bool_str (share_window_titles c1) @
       lit '','' @ quoted ''sources'' @ lit '':{'' @ quoted ''application'' @ lit '':'' @
       bool_str (src_application (sources c1)) @
       lit '','' @ quoted ''media'' @ lit '':'' @ bool_str (src_media (sources c1)) @ lit ''}}''"
    and w: "w = quoted ''shareWindowTitles'' @ lit '':'' @ bool_str (share_window_titles c2) @
       lit '','' @ quoted ''sources'' @ lit '':{'' @ quoted ''application'' @ lit '':'' @
       bool_str (src_application (sources c2)) @
       lit '','' @ quoted ''media'' @ lit '':'' @ bool_str (src_media (sources c2)) @ lit ''}}''"
    unfolding x y by (simp add: dq_def quoted_def lit_def)
  have rr: "canonical_rules u c1 = canonical_rules u c2" and "44 # z = 44 # w"
    using r [OF text_starts(1) r1] by auto
  then have "share_window_titles c1 = share_window_titles c2"
    "src_application (sources c1) = src_application (sources c2)"
    "src_media (sources c1) = src_media (sources c2)"
    unfolding z w by (simp_all add: dq_def quoted_def lit_def bool_str_sd bool_str_inj)
  with d mm rr show ?thesis
    by (cases "defaults c1"; cases "defaults c2"; cases "sources c1"; cases "sources c2")
      (simp add: canonical_projection_def)
qed

section \<open>What the canonical projection determines\<close>

definition distinct_ids :: "unicode \<Rightarrow> privacy_config \<Rightarrow> bool" where
  "distinct_ids u c \<longleftrightarrow> distinct (map (\<lambda>r. normalize_app_id u (app_id r)) (rules c))"

definition distinct_mappings :: "unicode \<Rightarrow> privacy_config \<Rightarrow> bool" where
  "distinct_mappings u c \<longleftrightarrow>
     distinct (map (\<lambda>m. (mapping_type m, normalize_app_id u (map_from m))) (mappings c))"

lemma find_unique:
  assumes "distinct (map f xs)" and "x \<in> set xs" and "f x = k"
  shows "List.find (\<lambda>y. f y = k) xs = Some x"
  using assms by (induction xs) (auto simp: image_iff)

lemma find_permuted:
  assumes "mset xs = mset ys" and "distinct (map f xs)"
  shows "List.find (\<lambda>y. f y = k) xs = List.find (\<lambda>y. f y = k) ys"
proof (cases "\<exists>x \<in> set xs. f x = k")
  case True
  have "mset (map f xs) = mset (map f ys)" using assms(1) by simp
  then have d: "distinct (map f ys)" using assms(2) mset_eq_imp_distinct_iff by blast
  have "set xs = set ys" using assms(1) by (rule mset_eq_setD)
  moreover from True obtain x where "x \<in> set xs" "f x = k" by blast
  ultimately show ?thesis using find_unique [OF assms(2)] find_unique [OF d] by simp
next
  case False
  have "set xs = set ys" using assms(1) by (rule mset_eq_setD)
  with False have "List.find (\<lambda>y. f y = k) xs = None" and "List.find (\<lambda>y. f y = k) ys = None"
    by (auto simp: find_None_iff)
  then show ?thesis by simp
qed

lemma is_empty_normalized: "nfc_closed u \<Longrightarrow> is_empty_rule u (normalized_rule u r) = is_empty_rule u r"
  by (simp add: is_empty_rule_def normalized_rule_def normalize_text_idem)

text \<open>The rule a lookup sees through the canonical projection: empty rules are no rules.\<close>

definition canonical_rule :: "unicode \<Rightarrow> privacy_config \<Rightarrow> rstr \<Rightarrow> application_privacy_rule option" where
  "canonical_rule u c k = List.find (\<lambda>r. app_id r = k) (canonical_rules u c)"

lemma find_rule_canonical:
  assumes "distinct_ids u c" and "nfc_closed u"
  shows "canonical_rule u c k =
    (case List.find (\<lambda>r. normalize_app_id u (app_id r) = k) (rules c) of
       None \<Rightarrow> None
     | Some r \<Rightarrow> if is_empty_rule u r then None else Some (normalized_rule u r))"
proof -
  let ?ns = "filter (\<lambda>r. \<not> is_empty_rule u r) (map (normalized_rule u) (rules c))"
  have ids: "map app_id (map (normalized_rule u) (rules c)) = map (\<lambda>r. normalize_app_id u (app_id r)) (rules c)"
    by (simp add: normalized_rule_def)
  have d: "distinct (map app_id ?ns)"
    using assms(1) unfolding distinct_ids_def ids [symmetric] by (rule distinct_map_filter)
  have "canonical_rule u c k = List.find (\<lambda>r. app_id r = k) ?ns"
    unfolding canonical_rule_def canonical_rules_def by (rule find_permuted [symmetric]) (simp_all add: d)
  also have "\<dots> = (case List.find (\<lambda>r. normalize_app_id u (app_id r) = k) (rules c) of
       None \<Rightarrow> None
     | Some r \<Rightarrow> if is_empty_rule u r then None else Some (normalized_rule u r))"
  proof (cases "List.find (\<lambda>r. normalize_app_id u (app_id r) = k) (rules c)")
    case None
    then have "List.find (\<lambda>r. app_id r = k) ?ns = None"
      by (auto simp: find_None_iff normalized_rule_def)
    with None show ?thesis by simp
  next
    case (Some r)
    then have r: "r \<in> set (rules c)" "normalize_app_id u (app_id r) = k"
      by (auto simp: find_Some_iff in_set_conv_nth)
    show ?thesis
    proof (cases "is_empty_rule u r")
      case True
      have "app_id x \<noteq> k" if "x \<in> set ?ns" for x
      proof
        assume k: "app_id x = k"
        from that obtain y where y: "y \<in> set (rules c)" "x = normalized_rule u y" "\<not> is_empty_rule u x"
          by auto
        then have "normalize_app_id u (app_id y) = k" using k by (simp add: normalized_rule_def)
        then have "y = r"
          using r y(1) assms(1) unfolding distinct_ids_def distinct_map by (auto dest: inj_onD)
        with y True show False by (simp add: is_empty_normalized [OF assms(2)])
      qed
      then have "List.find (\<lambda>r. app_id r = k) ?ns = None" by (auto simp: find_None_iff)
      with Some True show ?thesis by simp
    next
      case False
      then have "normalized_rule u r \<in> set ?ns"
        using r by (auto simp: is_empty_normalized [OF assms(2)])
      moreover have "app_id (normalized_rule u r) = k" using r by (simp add: normalized_rule_def)
      ultimately show ?thesis using Some False find_unique [OF d] by simp
    qed
  qed
  finally show ?thesis .
qed

definition decide_process_from :: "privacy_defaults \<Rightarrow> application_privacy_rule option \<Rightarrow> process_decision" where
  "decide_process_from d rule =
     (let hidden = (resolve_override (case rule of None \<Rightarrow> Inherit | Some r \<Rightarrow> rule_application r)
                      (def_application d) = DHide)
      in \<lparr>shares_application = (\<not> hidden),
          shares_window_title =
            (\<not> hidden \<and> resolve_override (case rule of None \<Rightarrow> Inherit | Some r \<Rightarrow> rule_window_title r)
               (def_window_title d) = DShare),
          pd_display_alias = (if hidden then None else Option.bind rule display_alias)\<rparr>)"

definition decide_media_from :: "privacy_defaults \<Rightarrow> application_privacy_rule option \<Rightarrow> media_decision" where
  "decide_media_from d rule =
     (let hidden = (resolve_override (case rule of None \<Rightarrow> Inherit | Some r \<Rightarrow> rule_media r) (def_media d) = DHide)
      in \<lparr>shares_media = (\<not> hidden),
          mdec_display_alias = (if hidden then None else Option.bind rule display_alias)\<rparr>)"

lemma decide_process_canonical:
  assumes "distinct_ids u c" and "nfc_closed u"
  shows "decide_process u c i = decide_process_from (defaults c) (canonical_rule u c (normalize_app_id u i))"
  unfolding find_rule_canonical [OF assms]
  by (auto simp: decide_process_def decide_process_from_def find_rule_def Let_def is_empty_rule_def
      normalized_rule_def split: option.splits)

lemma decide_media_canonical:
  assumes "distinct_ids u c" and "nfc_closed u"
  shows "decide_media u c aid name = decide_media_from (defaults c)
    (case aid of Some i \<Rightarrow> canonical_rule u c (normalize_app_id u i)
     | None \<Rightarrow> if normalize_app_id u name = [] then None else canonical_rule u c (normalize_app_id u name))"
  unfolding find_rule_canonical [OF assms]
  by (auto simp: decide_media_def decide_media_from_def find_rule_def find_rule_by_player_name_def Let_def
      is_empty_rule_def normalized_rule_def split: option.splits)

lemma apply_mapping_permuted:
  assumes "mset (mappings c1) = mset (mappings c2)" and "distinct_mappings u c1"
  shows "apply_mapping u c1 ty from = apply_mapping u c2 ty from"
proof -
  let ?f = "\<lambda>m. (mapping_type m, normalize_app_id u (map_from m))"
  have "List.find (\<lambda>m. ?f m = (ty, normalize_app_id u from)) (mappings c1) =
        List.find (\<lambda>m. ?f m = (ty, normalize_app_id u from)) (mappings c2)"
    by (rule find_permuted [OF assms(1)]) (use assms(2) in \<open>simp add: distinct_mappings_def\<close>)
  then show ?thesis by (simp add: apply_mapping_def Let_def)
qed

lemma canonical_mappings_mset: "mset (canonical_mappings c) = mset (mappings c)"
  by (simp add: canonical_mappings_def)

section \<open>Properties\<close>

text \<open>
  C15: every change of the effective policy changes the fingerprint. When two configurations
  with pairwise different normalized rule ids and mapping sources have the same fingerprint, and
  SHA-256 does not collide on their two preimages, then every process decision, every media
  decision, every mapping, and all global switches agree.
\<close>

theorem fingerprint_determines_policy:
  assumes "policy_fingerprint js sha u c1 = policy_fingerprint js sha u c2"
    and "sha (str_bytes (policy_preimage js u c1)) = sha (str_bytes (policy_preimage js u c2)) \<Longrightarrow>
      policy_preimage js u c1 = policy_preimage js u c2"
    and "self_delimiting js" and "nfc_closed u"
    and "distinct_ids u c1" and "distinct_ids u c2" and "distinct_mappings u c1"
  shows "(\<forall>i. decide_process u c1 i = decide_process u c2 i) \<and>
    (\<forall>aid name. decide_media u c1 aid name = decide_media u c2 aid name) \<and>
    (\<forall>ty from. apply_mapping u c1 ty from = apply_mapping u c2 ty from) \<and>
    share_window_titles c1 = share_window_titles c2 \<and>
    ignore_null_artist c1 = ignore_null_artist c2 \<and> sources c1 = sources c2"
proof -
  have "canonical_projection u c1 = canonical_projection u c2"
    using assms(1,2,3) hex_lower_inj policy_preimage_inj unfolding policy_fingerprint_def by blast
  then have p: "defaults c1 = defaults c2" "canonical_rules u c1 = canonical_rules u c2"
    "canonical_mappings c1 = canonical_mappings c2" "share_window_titles c1 = share_window_titles c2"
    "ignore_null_artist c1 = ignore_null_artist c2" "sources c1 = sources c2"
    by (simp_all add: canonical_projection_def)
  then have "mset (mappings c1) = mset (mappings c2)" by (metis canonical_mappings_mset)
  note mappings = apply_mapping_permuted [OF this assms(7)]
  have rule: "canonical_rule u c1 = canonical_rule u c2"
    by (rule ext) (simp add: canonical_rule_def p(2))
  show ?thesis
    using p mappings
    by (simp add: decide_process_canonical [OF assms(5,4)] decide_process_canonical [OF assms(6,4)]
        decide_media_canonical [OF assms(5,4)] decide_media_canonical [OF assms(6,4)] rule
        split: option.split)
qed

text \<open>A self-delimiting string literal and an injective digest, for a concrete instance.\<close>

definition escape_all :: "rstr \<Rightarrow> rstr" where
  "escape_all s = 34 # concat (map (\<lambda>c. [92, c]) s) @ [34]"

lemma escape_all_sd: "self_delimiting escape_all"
proof -
  have "concat (map (\<lambda>c. [92, c]) a) @ 34 # x = concat (map (\<lambda>c. [92, c]) b) @ 34 # y \<Longrightarrow>
      a = b \<and> x = y" for a b x y :: rstr
  proof (induction a arbitrary: b)
    case Nil
    then show ?case by (cases b) auto
  next
    case (Cons c a)
    then show ?case by (cases b) auto
  qed
  then show ?thesis unfolding self_delimiting_def escape_all_def
    by (metis append.assoc append_Cons append_Nil list.inject)
qed

lemma fingerprint_determines_policy_witness:
  "policy_fingerprint escape_all (\<lambda>b. b) ascii_unicode (default_privacy_config\<lparr>share_window_titles := True\<rparr>) \<noteq>
   policy_fingerprint escape_all (\<lambda>b. b) ascii_unicode default_privacy_config"
proof
  let ?c1 = "default_privacy_config\<lparr>share_window_titles := True\<rparr>" and ?c2 = default_privacy_config
  assume eq: "policy_fingerprint escape_all (\<lambda>b. b) ascii_unicode ?c1 =
      policy_fingerprint escape_all (\<lambda>b. b) ascii_unicode ?c2"
  have "str_bytes (policy_preimage escape_all ascii_unicode ?c1) \<noteq>
      str_bytes (policy_preimage escape_all ascii_unicode ?c2)"
    by (simp add: policy_preimage_def canonical_rules_def canonical_mappings_def default_privacy_config_def
        dq_def quoted_def lit_def bool_str_def utf8_def)
  then have "share_window_titles ?c1 = share_window_titles ?c2"
    using fingerprint_determines_policy [OF eq _ escape_all_sd ascii_nfc_closed]
    by (simp add: distinct_ids_def distinct_mappings_def default_privacy_config_def)
  then show False by (simp add: default_privacy_config_def)
qed

text \<open>
  Cosmetic changes do not change the fingerprint: any reordering of rules and mappings,
  adding or dropping empty rules, respelling a rule id and white space around an alias, as long
  as no two effective rules share a normalized id and no two mappings share type and source.
\<close>

definition effective_rules :: "unicode \<Rightarrow> privacy_config \<Rightarrow> application_privacy_rule list" where
  "effective_rules u c = filter (\<lambda>r. \<not> is_empty_rule u r) (map (normalized_rule u) (rules c))"

theorem fingerprint_ignores_cosmetics:
  assumes "mset (effective_rules u c1) = mset (effective_rules u c2)"
    and "mset (mappings c1) = mset (mappings c2)"
    and "defaults c1 = defaults c2" and "ignore_null_artist c1 = ignore_null_artist c2"
    and "share_window_titles c1 = share_window_titles c2" and "sources c1 = sources c2"
    and "inj_on app_id (set (effective_rules u c1))"
    and "inj_on mapping_sort_key (set (mappings c1))"
    and "\<forall>r \<in> set (effective_rules u c1). wf_str (app_id r)"
    and "\<forall>m \<in> set (mappings c1). wf_str (mapping_sort_key m)"
  shows "policy_fingerprint js sha u c1 = policy_fingerprint js sha u c2"
proof -
  have "inj_on (\<lambda>r. utf16_units (app_id r)) (set (effective_rules u c1))"
    using assms(7,9) utf16_units_inj unfolding inj_on_def by blast
  then have "canonical_rules u c1 = canonical_rules u c2"
    using sort_key_mset_eq [OF assms(1)] by (simp add: canonical_rules_def effective_rules_def)
  moreover have "inj_on (\<lambda>m. utf16_units (mapping_sort_key m)) (set (mappings c1))"
    using assms(8,10) utf16_units_inj unfolding inj_on_def by blast
  then have "canonical_mappings c1 = canonical_mappings c2"
    using sort_key_mset_eq [OF assms(2)] by (simp add: canonical_mappings_def)
  ultimately show ?thesis
    using assms(3-6) by (simp add: policy_fingerprint_def policy_preimage_def)
qed

definition plain_rule :: "rstr \<Rightarrow> privacy_override \<Rightarrow> application_privacy_rule" where
  "plain_rule i a =
     \<lparr>app_id = i, rule_application = a, rule_window_title = Inherit, rule_media = Inherit,
      display_alias = None\<rparr>"

lemma plain_rule_facts [simp]:
  "normalized_rule u (plain_rule i a) = plain_rule (normalize_app_id u i) a"
  "is_empty_rule u (plain_rule i a) \<longleftrightarrow> a = Inherit" "app_id (plain_rule i a) = i"
  "rule_application (plain_rule i a) = a"
  by (simp_all add: plain_rule_def normalized_rule_def is_empty_rule_def)

lemma fingerprint_ignores_cosmetics_witness:
  "policy_fingerprint escape_all (\<lambda>b. b) ascii_unicode
     (default_privacy_config\<lparr>rules := [plain_rule (lit ''a'') OHide, plain_rule (lit ''B'') OShare]\<rparr>) =
   policy_fingerprint escape_all (\<lambda>b. b) ascii_unicode
     (default_privacy_config\<lparr>rules :=
        [plain_rule (lit ''b'') OShare, plain_rule (lit ''c'') Inherit, plain_rule (lit '' A'') OHide]\<rparr>)"
  by (rule fingerprint_ignores_cosmetics)
    (simp_all add: effective_rules_def default_privacy_config_def text_eval wf_str_def is_scalar_def
      inj_on_def del: lit_eq_iff)

text \<open>
  Without distinct ids the fingerprint misses policy changes. An empty rule that precedes a
  rule with the same normalized id switches that rule off, and swapping two mappings whose
  sources differ only in case changes the name shown; neither changes the fingerprint, whatever
  the digest is. The module documentation says that any change to the effective policy must
  change the string.
\<close>

theorem fingerprint_misses_shadowing:
  "\<exists>c1 c2 c3 c4.
     (\<forall>js sha. policy_fingerprint js sha ascii_unicode c1 = policy_fingerprint js sha ascii_unicode c2) \<and>
     shares_application (decide_process ascii_unicode c1 (lit ''a.exe'')) \<and>
     \<not> shares_application (decide_process ascii_unicode c2 (lit ''a.exe'')) \<and>
     (\<forall>js sha. policy_fingerprint js sha ascii_unicode c3 = policy_fingerprint js sha ascii_unicode c4) \<and>
     apply_mapping ascii_unicode c3 ProcessName (lit ''a.exe'') \<noteq>
       apply_mapping ascii_unicode c4 ProcessName (lit ''a.exe'')"
proof (intro exI conjI allI)
  let ?c1 = "default_privacy_config\<lparr>rules := [plain_rule (lit ''a.exe'') Inherit, plain_rule (lit ''a.exe'') OHide]\<rparr>"
  let ?c2 = "default_privacy_config\<lparr>rules := [plain_rule (lit ''a.exe'') OHide]\<rparr>"
  let ?m1 = "\<lparr>mapping_type = ProcessName, map_from = lit ''A.exe'', map_to = lit ''X''\<rparr>"
  let ?m2 = "\<lparr>mapping_type = ProcessName, map_from = lit ''a.exe'', map_to = lit ''Y''\<rparr>"
  let ?c3 = "default_privacy_config\<lparr>mappings := [?m1, ?m2]\<rparr>"
  let ?c4 = "default_privacy_config\<lparr>mappings := [?m2, ?m1]\<rparr>"
  show "policy_fingerprint js sha ascii_unicode ?c1 = policy_fingerprint js sha ascii_unicode ?c2" for js sha
    by (simp add: policy_fingerprint_def policy_preimage_def canonical_rules_def canonical_mappings_def
        default_privacy_config_def)
  show "shares_application (decide_process ascii_unicode ?c1 (lit ''a.exe''))"
    by (simp add: decide_process_def default_privacy_config_def find_rule_def)
  show "\<not> shares_application (decide_process ascii_unicode ?c2 (lit ''a.exe''))"
    by (simp add: decide_process_def default_privacy_config_def find_rule_def)
  have "canonical_mappings ?c3 = canonical_mappings ?c4"
    by (simp add: canonical_mappings_def mapping_sort_key_def lit_def utf16_def)
  then show "policy_fingerprint js sha ascii_unicode ?c3 = policy_fingerprint js sha ascii_unicode ?c4" for js sha
    by (simp add: policy_fingerprint_def policy_preimage_def canonical_rules_def default_privacy_config_def)
  show "apply_mapping ascii_unicode ?c3 ProcessName (lit ''a.exe'') \<noteq>
       apply_mapping ascii_unicode ?c4 ProcessName (lit ''a.exe'')"
    by (simp add: text_eval del: lit_eq_iff)
qed

end
