(* ===== verification/Consent_Gate.thy ===== *)
theory Consent_Gate
  imports Capture_Service
begin

text \<open>
  The consent gate (\<open>core/src/companion/consent_gate.rs\<close>): the current policy fingerprint and
  at most one confirmation, with histories of its operations.
\<close>

record confirmation =
  cf_policy_fingerprint :: rstr
  cf_projection :: preview_projection

record consent_gate =
  cg_fingerprint :: rstr
  cg_confirmation :: "confirmation option"

definition gate_new :: "rstr \<Rightarrow> consent_gate" where
  "gate_new initial = \<lparr>cg_fingerprint = initial, cg_confirmation = None\<rparr>"

definition policy_did_change :: "rstr \<Rightarrow> consent_gate \<Rightarrow> consent_gate" where
  "policy_did_change fingerprint g =
     (if fingerprint = cg_fingerprint g then g
      else \<lparr>cg_fingerprint = fingerprint, cg_confirmation = None\<rparr>)"

definition gate_record :: "preview_projection \<Rightarrow> consent_gate \<Rightarrow> confirmation \<times> consent_gate" where
  "gate_record p g =
     (let c = \<lparr>cf_policy_fingerprint = cg_fingerprint g, cf_projection = p\<rparr>
      in (c, g\<lparr>cg_confirmation := Some c\<rparr>))"

definition gate_clear :: "consent_gate \<Rightarrow> consent_gate" where
  "gate_clear g = g\<lparr>cg_confirmation := None\<rparr>"

text \<open>The derived \<open>PartialEq\<close> of the projection: structural, with float equality.\<close>

definition playback_eq :: "preview_playback \<Rightarrow> preview_playback \<Rightarrow> bool" where
  "playback_eq a b \<longleftrightarrow>
     pp_state a = pp_state b \<and> opt_f_eq (pp_duration_seconds a) (pp_duration_seconds b) \<and>
     f_eq (pp_rate a) (pp_rate b)"

definition preview_media_eq :: "preview_media \<Rightarrow> preview_media \<Rightarrow> bool" where
  "preview_media_eq a b \<longleftrightarrow>
     pm_kind a = pm_kind b \<and> pm_title a = pm_title b \<and> pm_artist a = pm_artist b \<and>
     pm_album a = pm_album b \<and> pm_player_display_name a = pm_player_display_name b \<and>
     playback_eq (pm_playback a) (pm_playback b)"

definition projection_eq :: "preview_projection \<Rightarrow> preview_projection \<Rightarrow> bool" where
  "projection_eq a b \<longleftrightarrow>
     proj_application a = proj_application b \<and>
     (case (proj_media a, proj_media b) of
        (None, None) \<Rightarrow> True
      | (Some m, Some n) \<Rightarrow> preview_media_eq m n
      | _ \<Rightarrow> False)"

definition confirmation_eq :: "confirmation \<Rightarrow> confirmation \<Rightarrow> bool" where
  "confirmation_eq a b \<longleftrightarrow>
     cf_policy_fingerprint a = cf_policy_fingerprint b \<and>
     projection_eq (cf_projection a) (cf_projection b)"

definition gate_validates :: "consent_gate \<Rightarrow> confirmation \<Rightarrow> preview_projection \<Rightarrow> bool" where
  "gate_validates g candidate current =
     (case cg_confirmation g of
        None \<Rightarrow> False
      | Some c \<Rightarrow>
          confirmation_eq candidate c \<and> cf_policy_fingerprint candidate = cg_fingerprint g \<and>
          projection_eq (cf_projection candidate) current)"

definition projection_of :: "sanitized_snapshot \<Rightarrow> preview_projection" where
  "projection_of s =
     \<lparr>proj_application =
        map_option (\<lambda>a. \<lparr>pa_display_name = sa_display_name a, pa_window_title = sa_window_title a\<rparr>)
          (snap_application s),
      proj_media =
        map_option (\<lambda>m.
          \<lparr>pm_kind = sm_kind m, pm_title = sm_title m, pm_artist = sm_artist m, pm_album = sm_album m,
           pm_player_display_name = sm_player_display_name m,
           pm_playback =
             \<lparr>pp_state = pb_state (sm_playback m),
              pp_duration_seconds = pb_duration_seconds (sm_playback m),
              pp_rate = pb_rate (sm_playback m)\<rparr>\<rparr>)
          (snap_media s)\<rparr>"

section \<open>Float equality is equality on sanitized values\<close>

lemma f_eq_iff: "f_eq a b \<longleftrightarrow> a = b \<and> a \<noteq> NaN"
  by (cases a; cases b) auto

lemma preview_media_eq_imp: "preview_media_eq m n \<Longrightarrow> m = n"
  by (cases m; cases n; cases "pm_playback m"; cases "pm_playback n")
    (auto simp: preview_media_eq_def playback_eq_def opt_f_eq_iff f_eq_iff)

lemma projection_eq_imp: "projection_eq a b \<Longrightarrow> a = b"
  by (cases a; cases b) (auto simp: projection_eq_def split: option.splits dest: preview_media_eq_imp)

lemma confirmation_eq_imp: "confirmation_eq a b \<Longrightarrow> a = b"
  by (cases a; cases b) (auto simp: confirmation_eq_def dest: projection_eq_imp)

lemma playback_ok_numbers:
  "playback_ok p \<Longrightarrow> pb_duration_seconds p \<noteq> Some NaN \<and> pb_rate p \<noteq> NaN"
  by (auto simp: playback_ok_def seconds_ok_def split: option.splits playback_state.splits)

lemma projection_eq_refl:
  assumes "\<And>m. snap_media s = Some m \<Longrightarrow> media_ok m"
  shows "projection_eq (projection_of s) (projection_of s)"
proof (cases "snap_media s")
  case (Some m)
  then have "playback_ok (sm_playback m)" using assms by (simp add: media_ok_def)
  with Some playback_ok_numbers show ?thesis
    by (simp add: projection_eq_def projection_of_def preview_media_eq_def playback_eq_def
        opt_f_eq_iff f_eq_iff)
qed (simp add: projection_eq_def projection_of_def)

section \<open>Histories\<close>

datatype gate_op = PolicyChange rstr | Record preview_projection | Clear

fun gate_step :: "gate_op \<Rightarrow> consent_gate \<Rightarrow> consent_gate" where
  "gate_step (PolicyChange f) g = policy_did_change f g"
| "gate_step (Record p) g = snd (gate_record p g)"
| "gate_step Clear g = gate_clear g"

definition gate_run :: "gate_op list \<Rightarrow> consent_gate \<Rightarrow> consent_gate" where
  "gate_run ops g = fold gate_step ops g"

definition harmless :: "rstr \<Rightarrow> gate_op \<Rightarrow> bool" where
  "harmless fp op \<longleftrightarrow> op = PolicyChange fp"

lemma gate_run_snoc: "gate_run (ops @ [op]) g = gate_step op (gate_run ops g)"
  by (simp add: gate_run_def)

text \<open>Where a confirmation in force comes from.\<close>

lemma gate_confirmation_origin:
  assumes "cg_confirmation (gate_run ops (gate_new f0)) = Some c"
  shows "\<exists>pre post. ops = pre @ Record (cf_projection c) # post \<and>
    cf_policy_fingerprint c = cg_fingerprint (gate_run pre (gate_new f0)) \<and>
    cg_fingerprint (gate_run ops (gate_new f0)) = cf_policy_fingerprint c \<and>
    list_all (harmless (cf_policy_fingerprint c)) post"
  using assms
proof (induction ops rule: rev_induct)
  case Nil
  then show ?case by (simp add: gate_run_def gate_new_def)
next
  case (snoc op ops)
  let ?g = "gate_run ops (gate_new f0)"
  show ?case
  proof (cases op)
    case (PolicyChange f)
    then have f: "f = cg_fingerprint ?g" and c: "cg_confirmation ?g = Some c"
      using snoc.prems by (auto simp: gate_run_snoc policy_did_change_def split: if_splits)
    from snoc.IH [OF c] obtain pre post where o: "ops = pre @ Record (cf_projection c) # post"
      "cf_policy_fingerprint c = cg_fingerprint (gate_run pre (gate_new f0))"
      "cg_fingerprint ?g = cf_policy_fingerprint c" "list_all (harmless (cf_policy_fingerprint c)) post"
      by blast
    show ?thesis
    proof (intro exI conjI)
      show "ops @ [op] = pre @ Record (cf_projection c) # (post @ [op])" using o(1) by simp
      show "cg_fingerprint (gate_run (ops @ [op]) (gate_new f0)) = cf_policy_fingerprint c"
        using o(3) f PolicyChange by (simp add: gate_run_snoc policy_did_change_def)
      show "list_all (harmless (cf_policy_fingerprint c)) (post @ [op])"
        using o(3,4) f PolicyChange by (simp add: harmless_def)
    qed (rule o(2))
  next
    case (Record p)
    then have "c = \<lparr>cf_policy_fingerprint = cg_fingerprint ?g, cf_projection = p\<rparr>"
      using snoc.prems by (simp add: gate_run_snoc gate_record_def Let_def)
    with Record show ?thesis
      by (intro exI [of _ ops] exI [of _ "[]"]) (simp add: gate_run_snoc gate_record_def Let_def)
  next
    case Clear
    then show ?thesis using snoc.prems by (simp add: gate_run_snoc gate_clear_def)
  qed
qed

section \<open>Properties\<close>

text \<open>
  C10: consent binds. In every history of the gate, a candidate validates only if it is exactly
  the latest recorded projection, recorded under the fingerprint in force now, with no recording,
  no clearing and no effective policy change in between, and the fresh capture still shows the
  same projection.
\<close>

theorem consent_binds:
  assumes "gate_validates (gate_run ops (gate_new f0)) candidate current"
  shows "current = cf_projection candidate \<and>
    cf_policy_fingerprint candidate = cg_fingerprint (gate_run ops (gate_new f0)) \<and>
    (\<exists>pre post. ops = pre @ Record current # post \<and>
       cf_policy_fingerprint candidate = cg_fingerprint (gate_run pre (gate_new f0)) \<and>
       list_all (harmless (cf_policy_fingerprint candidate)) post)"
proof -
  obtain c where c: "cg_confirmation (gate_run ops (gate_new f0)) = Some c" and "candidate = c"
    and "cf_policy_fingerprint candidate = cg_fingerprint (gate_run ops (gate_new f0))"
    and "cf_projection candidate = current"
    using assms
    by (auto simp: gate_validates_def split: option.splits dest: confirmation_eq_imp projection_eq_imp)
  with gate_confirmation_origin [OF c] show ?thesis by auto
qed

lemma consent_binds_witness:
  "gate_validates (gate_run [Record (projection_of sample_snapshot), PolicyChange (lit ''f'')] (gate_new (lit ''f'')))
     \<lparr>cf_policy_fingerprint = lit ''f'', cf_projection = projection_of sample_snapshot\<rparr>
     (projection_of sample_snapshot) \<and>
   (\<exists>pre post. [Record (projection_of sample_snapshot), PolicyChange (lit ''f'')] =
      pre @ Record (projection_of sample_snapshot) # post)"
proof -
  have eq: "projection_eq (projection_of sample_snapshot) (projection_of sample_snapshot)"
    by (rule projection_eq_refl) (simp add: sample_snapshot_def)
  then have v: "gate_validates (gate_run [Record (projection_of sample_snapshot), PolicyChange (lit ''f'')] (gate_new (lit ''f'')))
     \<lparr>cf_policy_fingerprint = lit ''f'', cf_projection = projection_of sample_snapshot\<rparr>
     (projection_of sample_snapshot)"
    by (simp add: gate_validates_def gate_run_def gate_new_def gate_record_def policy_did_change_def
        confirmation_eq_def Let_def)
  from consent_binds [OF v] v show ?thesis by blast
qed

text \<open>
  Natural playback progress does not invalidate consent, anything else does. Two sanitized
  snapshots have equal projections exactly when they differ at most in the observation time, the
  media session id, the position and its sampling time.
\<close>

definition forget_progress :: "sanitized_snapshot \<Rightarrow> sanitized_snapshot" where
  "forget_progress s =
     s\<lparr>observed_at := 0,
       snap_media := map_option (\<lambda>m. m\<lparr>sm_session_id := [],
         sm_playback := (sm_playback m)\<lparr>pb_position_seconds := None, pb_sampled_at := 0\<rparr>\<rparr>) (snap_media s)\<rparr>"

theorem projection_forgets_progress:
  assumes "\<And>m. snap_media s = Some m \<Longrightarrow> media_ok m"
  shows "projection_eq (projection_of s) (projection_of t) \<longleftrightarrow> forget_progress s = forget_progress t"
proof
  assume eq: "projection_eq (projection_of s) (projection_of t)"
  then have p: "projection_of s = projection_of t" by (rule projection_eq_imp)
  have app: "snap_application s = snap_application t"
    using p by (cases "snap_application s"; cases "snap_application t") (auto simp: projection_of_def)
  show "forget_progress s = forget_progress t"
  proof (cases "snap_media s")
    case None
    then have "snap_media t = None" using p by (simp add: projection_of_def)
    with None app show ?thesis by (cases s; cases t) (simp add: forget_progress_def)
  next
    case (Some m)
    then obtain n where n: "snap_media t = Some n" using p by (cases "snap_media t") (auto simp: projection_of_def)
    from p Some n app show ?thesis
      by (cases s; cases t; cases m; cases n; cases "sm_playback m"; cases "sm_playback n")
        (simp add: projection_of_def forget_progress_def)
  qed
next
  assume eq: "forget_progress s = forget_progress t"
  have app: "snap_application s = snap_application t"
    using eq by (cases s; cases t) (simp add: forget_progress_def)
  have "projection_of s = projection_of t"
  proof (cases "snap_media s")
    case None
    then have "snap_media t = None" using eq by (cases s; cases t) (simp add: forget_progress_def)
    with None app show ?thesis by (simp add: projection_of_def)
  next
    case (Some m)
    then obtain n where n: "snap_media t = Some n"
      using eq by (cases s; cases t; cases "snap_media t") (auto simp: forget_progress_def)
    from eq Some n app show ?thesis
      by (cases s; cases t; cases m; cases n; cases "sm_playback m"; cases "sm_playback n")
        (simp add: projection_of_def forget_progress_def)
  qed
  moreover have "projection_eq (projection_of s) (projection_of s)"
    by (rule projection_eq_refl) (rule assms)
  ultimately show "projection_eq (projection_of s) (projection_of t)" by simp
qed

lemma projection_forgets_progress_witness:
  "projection_eq (projection_of sample_snapshot) (projection_of (sample_snapshot\<lparr>observed_at := 99\<rparr>))"
proof -
  have "forget_progress sample_snapshot = forget_progress (sample_snapshot\<lparr>observed_at := 99\<rparr>)"
    by (simp add: forget_progress_def)
  then show ?thesis
    by (subst projection_forgets_progress) (simp_all add: sample_snapshot_def)
qed

end
