(* ===== verification/Sequencer.thy ===== *)
theory Sequencer
  imports Disk
begin

text \<open>
  Durable monotonic sequence reservation and reconciliation
  (\<open>core/src/protocol/sequencer.rs\<close>). The persistence interface \<open>SequenceBacking\<close> is the
  locale \<open>sequence_backing\<close>; the operations of \<open>CompanionSequencer\<close> take the two functions
  of the interface as arguments, and their lemmas are proved once from its laws. The FIFO
  mutex makes every operation one atomic step, so a history of the sequencer is a list of
  operations.
\<close>

datatype sequencer_error = Exhausted | Backing io_error

record sequencer =
  seq_device :: rstr
  seq_floor :: nat

text \<open>
  The interface: a load is told whether its read of the backing succeeds (if not, it answers as if there
  was nothing), a store what its read and its write meet. One operation of the sequencer loads, and may
  then store.
\<close>

type_synonym 's load_fn = "bool \<Rightarrow> 's \<Rightarrow> rstr \<Rightarrow> int option"
type_synonym 's store_fn = "rw_fault \<Rightarrow> 's \<Rightarrow> rstr \<Rightarrow> nat \<Rightarrow> (io_error + unit) \<times> 's"

record seq_fault =
  sf_loads :: bool
  sf_store :: rw_fault

abbreviation no_seq_fault :: seq_fault where
  "no_seq_fault \<equiv> \<lparr>sf_loads = True, sf_store = no_rw_fault\<rparr>"

definition current_next :: "'s load_fn \<Rightarrow> bool \<Rightarrow> sequencer \<Rightarrow> 's \<Rightarrow> nat" where
  "current_next load readable q s =
     (let stored = load readable s (seq_device q);
          valid = (case stored of
                     None \<Rightarrow> None
                   | Some v \<Rightarrow> if 0 \<le> v \<and> nat v \<le> MAXIMUM_SAFE_WIRE_INTEGER then Some (nat v) else None)
      in max (seq_floor q) (case valid of None \<Rightarrow> seq_floor q | Some v \<Rightarrow> v))"

definition reserve ::
  "'s load_fn \<Rightarrow> 's store_fn \<Rightarrow> sequencer \<Rightarrow> seq_fault \<Rightarrow> 's \<Rightarrow> (sequencer_error + nat) \<times> 's" where
  "reserve load store q flt s =
     (let current = current_next load (sf_loads flt) q s
      in if MAXIMUM_SAFE_WIRE_INTEGER \<le> current then (Inl Exhausted, s)
         else case store (sf_store flt) s (seq_device q) (current + 1) of
                (Inl e, s') \<Rightarrow> (Inl (Backing e), s')
              | (Inr _, s') \<Rightarrow> (Inr current, s'))"

definition reconcile ::
  "'s load_fn \<Rightarrow> 's store_fn \<Rightarrow> sequencer \<Rightarrow> seq_fault \<Rightarrow> nat \<Rightarrow> 's \<Rightarrow> (sequencer_error + unit) \<times> 's"
where
  "reconcile load store q flt accepted s =
     (if MAXIMUM_SAFE_WIRE_INTEGER \<le> accepted then (Inr (), s)
      else let current = current_next load (sf_loads flt) q s; nxt = max current (accepted + 1)
           in if nxt \<noteq> current
              then case store (sf_store flt) s (seq_device q) nxt of
                     (Inl e, s') \<Rightarrow> (Inl (Backing e), s')
                   | (Inr _, s') \<Rightarrow> (Inr (), s')
              else (Inr (), s))"

section \<open>Histories\<close>

text \<open>
  A history interleaves reservations and reconciliations, each with the storage faults it
  meets. \<open>seq_run\<close> collects the sequences handed out, in order. The sequencer keeps no
  state of its own, so a history also describes a process that restarts in between.
\<close>

datatype seq_op = Reserve seq_fault | Reconcile nat seq_fault

fun op_loads :: "seq_op \<Rightarrow> bool" where
  "op_loads (Reserve flt) = sf_loads flt"
| "op_loads (Reconcile _ flt) = sf_loads flt"

fun seq_run ::
  "'s load_fn \<Rightarrow> 's store_fn \<Rightarrow> sequencer \<Rightarrow> seq_op list \<Rightarrow> 's \<Rightarrow> nat list \<times> 's" where
  "seq_run load store q [] s = ([], s)"
| "seq_run load store q (Reserve flt # ops) s =
     (case reserve load store q flt s of
        (Inl _, s') \<Rightarrow> seq_run load store q ops s'
      | (Inr n, s') \<Rightarrow> (case seq_run load store q ops s' of (ns, t) \<Rightarrow> (n # ns, t)))"
| "seq_run load store q (Reconcile acc flt # ops) s =
     seq_run load store q ops (snd (reconcile load store q flt acc s))"

section \<open>The persistence contract and what follows from it\<close>

locale sequence_backing =
  fixes load :: "'s load_fn"
    and store :: "'s store_fn"
  assumes load_store: "store flt s d n = (Inr u, s') \<Longrightarrow> n \<le> MAXIMUM_SAFE_WIRE_INTEGER \<Longrightarrow>
            load True s' d = Some (int n)"
    and load_store_fail: "store flt s d n = (Inl e, s') \<Longrightarrow> load True s' d = load True s d"
    and load_store_other: "store flt s d n = (r, s') \<Longrightarrow> rw_reads flt \<Longrightarrow> d' \<noteq> d \<Longrightarrow>
            load True s' d' = load True s d'"
    and store_succeeds: "rw_write flt = NoFault \<Longrightarrow> \<exists>s'. store flt s d n = (Inr (), s')"
    and load_unreadable: "load False s d = None"
begin

lemma current_next_floor: "seq_floor q \<le> current_next load b q s"
  by (simp add: current_next_def Let_def)

lemma current_next_unreadable: "current_next load False q s = seq_floor q"
  by (simp add: current_next_def load_unreadable)

lemma current_next_cong:
  "load True s' (seq_device q) = load True s (seq_device q) \<Longrightarrow> current_next load True q s' = current_next load True q s"
  by (simp add: current_next_def)

lemma current_next_stored:
  assumes "store flt s (seq_device q) n = (Inr u, s')" and "n \<le> MAXIMUM_SAFE_WIRE_INTEGER"
  shows "current_next load True q s' = max (seq_floor q) n"
  using load_store [OF assms] assms(2) by (simp add: current_next_def)

lemma reserve_Inr:
  assumes "reserve load store q flt s = (Inr n, s')"
  shows "n = current_next load (sf_loads flt) q s" and "current_next load True q s' = n + 1"
    and "n < MAXIMUM_SAFE_WIRE_INTEGER" and "seq_floor q \<le> n"
proof -
  have c: "n = current_next load (sf_loads flt) q s \<and> n < MAXIMUM_SAFE_WIRE_INTEGER \<and>
      (\<exists>u. store (sf_store flt) s (seq_device q) (n + 1) = (Inr u, s'))"
    using assms by (auto simp: reserve_def Let_def split: if_splits prod.splits sum.splits)
  then show "n = current_next load (sf_loads flt) q s" and "n < MAXIMUM_SAFE_WIRE_INTEGER" by auto
  show f: "seq_floor q \<le> n" using c current_next_floor by auto
  show "current_next load True q s' = n + 1"
    using c f current_next_stored [of "sf_store flt" s q "n + 1"] by fastforce
qed

lemma reserve_Inl:
  assumes "reserve load store q flt s = (Inl e, s')"
  shows "current_next load True q s' = current_next load True q s"
  using assms
  by (auto simp: reserve_def Let_def split: if_splits prod.splits sum.splits
      intro!: current_next_cong dest: load_store_fail)

lemma reserve_mono: "reserve load store q flt s = (r, s') \<Longrightarrow> sf_loads flt \<Longrightarrow>
    current_next load True q s \<le> current_next load True q s'"
  by (cases r) (use reserve_Inl reserve_Inr(1,2) in fastforce)+

lemma reconcile_cases:
  assumes "reconcile load store q flt acc s = (r, s')"
  shows "current_next load True q s' = current_next load True q s \<or>
    acc < MAXIMUM_SAFE_WIRE_INTEGER \<and> seq_floor q < acc + 1 \<and>
      current_next load True q s' = max (current_next load (sf_loads flt) q s) (acc + 1)"
proof (cases "MAXIMUM_SAFE_WIRE_INTEGER \<le> acc \<or> acc + 1 \<le> current_next load (sf_loads flt) q s")
  case True
  then show ?thesis using assms by (auto simp: reconcile_def Let_def max_def split: if_splits)
next
  case False
  then consider (fail) e where "store (sf_store flt) s (seq_device q) (acc + 1) = (Inl e, s')"
    | (ok) u where "store (sf_store flt) s (seq_device q) (acc + 1) = (Inr u, s')"
    using assms by (auto simp: reconcile_def Let_def max_def split: if_splits prod.splits sum.splits)
  then show ?thesis
  proof cases
    case fail
    then show ?thesis by (metis current_next_cong load_store_fail)
  next
    case st: ok
    then have "current_next load True q s' = max (seq_floor q) (acc + 1)"
      using st False current_next_stored [of "sf_store flt" s q "acc + 1"] by auto
    moreover have "seq_floor q \<le> current_next load (sf_loads flt) q s" by (rule current_next_floor)
    ultimately show ?thesis using False by auto
  qed
qed

lemma reconcile_mono:
  "sf_loads flt \<Longrightarrow> current_next load True q s \<le> current_next load True q (snd (reconcile load store q flt acc s))"
  using reconcile_cases [of q flt acc s] by (metis max.cobounded1 order_refl prod.collapse)

text \<open>Success means that the accepted sequence is past, whether or not the load could read.\<close>

lemma reconcile_past:
  assumes "reconcile load store q flt acc s = (Inr u, s')" and "acc < MAXIMUM_SAFE_WIRE_INTEGER"
  shows "acc < current_next load True q s'"
proof (cases "acc + 1 \<le> current_next load (sf_loads flt) q s")
  case True
  then have "s' = s" using assms by (auto simp: reconcile_def Let_def max_def split: if_splits)
  then show ?thesis using True current_next_floor [of q True s] current_next_unreadable [of q s]
    by (cases "sf_loads flt") auto
next
  case False
  then have "store (sf_store flt) s (seq_device q) (acc + 1) = (Inr (), s')"
    using assms by (auto simp: reconcile_def Let_def max_def split: if_splits prod.splits sum.splits)
  then have "current_next load True q s' = max (seq_floor q) (acc + 1)"
    using assms(2) by (intro current_next_stored) auto
  then show ?thesis by simp
qed

lemma reconcile_ok:
  assumes "reconcile load store q flt acc s = (Inr u, s')" and "acc < MAXIMUM_SAFE_WIRE_INTEGER" and "sf_loads flt"
  shows "current_next load True q s' = max (current_next load True q s) (acc + 1)"
  using reconcile_cases [OF assms(1)] reconcile_past [OF assms(1,2)] assms(3) by auto

lemma reserve_progress:
  "current_next load (sf_loads flt) q s < MAXIMUM_SAFE_WIRE_INTEGER \<Longrightarrow> rw_write (sf_store flt) = NoFault \<Longrightarrow>
   \<exists>s'. reserve load store q flt s = (Inr (current_next load (sf_loads flt) q s), s')"
  using store_succeeds [of "sf_store flt" s "seq_device q" "current_next load (sf_loads flt) q s + 1"]
  by (auto simp: reserve_def Let_def)

lemma reserve_other_device:
  "reserve load store q flt s = (r, s') \<Longrightarrow> rw_reads (sf_store flt) \<Longrightarrow> d \<noteq> seq_device q \<Longrightarrow>
   load True s' d = load True s d"
  by (auto simp: reserve_def Let_def split: if_splits prod.splits sum.splits
      dest: load_store_other)

lemma reconcile_other_device:
  "reconcile load store q flt acc s = (r, s') \<Longrightarrow> rw_reads (sf_store flt) \<Longrightarrow> d \<noteq> seq_device q \<Longrightarrow>
   load True s' d = load True s d"
  by (auto simp: reconcile_def Let_def split: if_splits prod.splits sum.splits
      dest: load_store_other)

text \<open>
  The invariant of a history whose loads can read: everything it hands out lies between the next
  sequence at its start and the next sequence at its end, in strictly increasing order.
\<close>

lemma seq_run_window:
  assumes "seq_run load store q ops s = (ns, t)" and "\<forall>op \<in> set ops. op_loads op"
  shows "sorted_wrt (<) ns" and "\<forall>n \<in> set ns. current_next load True q s \<le> n \<and>
      n < current_next load True q t \<and> n < MAXIMUM_SAFE_WIRE_INTEGER"
    and "current_next load True q s \<le> current_next load True q t"
proof -
  have "sorted_wrt (<) ns \<and> (\<forall>n \<in> set ns. current_next load True q s \<le> n \<and>
      n < current_next load True q t \<and> n < MAXIMUM_SAFE_WIRE_INTEGER) \<and>
      current_next load True q s \<le> current_next load True q t"
    using assms
  proof (induction ops arbitrary: s ns)
    case (Cons op ops)
    then have rest: "\<forall>op \<in> set ops. op_loads op" by simp
    show ?case
    proof (cases op)
      case (Reserve flt)
      obtain r s' where r: "reserve load store q flt s = (r, s')" by force
      have l: "sf_loads flt" using Cons.prems(2) Reserve by simp
      note le = reserve_mono [OF r l]
      show ?thesis
      proof (cases r)
        case (Inl e)
        then have "seq_run load store q ops s' = (ns, t)" using Cons.prems Reserve r by simp
        from Cons.IH [OF this rest] le show ?thesis by fastforce
      next
        case (Inr n)
        then obtain ms where ms: "seq_run load store q ops s' = (ms, t)" and ns: "ns = n # ms"
          using Cons.prems Reserve r by (auto split: prod.splits)
        from reserve_Inr [OF r [unfolded Inr]] Cons.IH [OF ms rest] ns le l show ?thesis by fastforce
      qed
    next
      case (Reconcile acc flt)
      then have "seq_run load store q ops (snd (reconcile load store q flt acc s)) = (ns, t)"
        using Cons.prems by simp
      from Cons.IH [OF this rest] reconcile_mono [of flt q s acc] Cons.prems(2) Reconcile show ?thesis by fastforce
    qed
  qed simp
  then show "sorted_wrt (<) ns" and "\<forall>n \<in> set ns. current_next load True q s \<le> n \<and>
      n < current_next load True q t \<and> n < MAXIMUM_SAFE_WIRE_INTEGER"
    and "current_next load True q s \<le> current_next load True q t" by auto
qed

text \<open>What every history hands out lies in the window of the pairing, whatever its reads and writes meet.\<close>

lemma seq_run_bounds:
  assumes "seq_run load store q ops s = (ns, t)"
  shows "\<forall>n \<in> set ns. seq_floor q \<le> n \<and> n < MAXIMUM_SAFE_WIRE_INTEGER"
  using assms
proof (induction ops arbitrary: s ns)
  case (Cons op ops)
  show ?case
  proof (cases op)
    case (Reserve flt)
    obtain r s' where r: "reserve load store q flt s = (r, s')" by force
    then show ?thesis
      using Cons.IH Cons.prems Reserve reserve_Inr(3,4) [of q flt s _ s']
      by (cases r) (force split: prod.splits)+
  next
    case (Reconcile acc flt)
    then show ?thesis using Cons.IH Cons.prems by simp
  qed
qed simp

end

end
