(* ===== verification/Authority.thy ===== *)
theory Authority
  imports Sequencer Wire_Types
begin

text \<open>
  The authority registry (\<open>core/src/companion/authority.rs\<close>): at most one publish authority,
  keyed by base URL and device. A sequencer object is its device and floor together with the
  identity of the allocation (\<open>Arc\<close>), so that reuse and rebuilding can be told apart.
\<close>

record 'c publish_authority =
  auth_sequencer :: "nat \<times> sequencer"
  auth_client :: "'c option"

type_synonym 'c registry = "(rstr \<times> 'c publish_authority) option"

definition authority_key :: "rstr \<Rightarrow> rstr \<Rightarrow> rstr" where
  "authority_key base device = base @ lit ''|'' @ device"

definition registry_resolve ::
  "rstr \<Rightarrow> rstr \<Rightarrow> 'c publish_authority \<Rightarrow> 'c registry \<Rightarrow> 'c publish_authority \<times> 'c registry" where
  "registry_resolve base device factory r =
     (let key = authority_key base device
      in case r of
           Some (k, a) \<Rightarrow> if k = key then (a, r) else (factory, Some (key, factory))
         | None \<Rightarrow> (factory, Some (key, factory)))"

definition registry_peek :: "'c registry \<Rightarrow> 'c publish_authority option" where
  "registry_peek r = map_option snd r"

definition registry_discard :: "'c registry \<Rightarrow> 'c registry" where
  "registry_discard r = None"

text \<open>\<open>authority.client = Some(client)\<close> on the resolved entry.\<close>

definition registry_set_client :: "'c \<Rightarrow> 'c registry \<Rightarrow> 'c registry" where
  "registry_set_client c r = map_option (\<lambda>(k, a). (k, a\<lparr>auth_client := Some c\<rparr>)) r"

section \<open>The key separates pairings\<close>

lemma utf8_bar: "utf8 124 = [124]"
  by (simp add: utf8_def)

lemma str_bytes_bar: "124 \<in> set s \<Longrightarrow> (124 :: u8) \<in> set (str_bytes s)"
  by (induction s) (auto simp: utf8_bar)

lemma wire_identifier_no_bar: "is_valid_wire_identifier s \<Longrightarrow> 124 \<notin> set s"
proof
  assume v: "is_valid_wire_identifier s" and "124 \<in> set s"
  then have b: "(124 :: u8) \<in> set (str_bytes s)" by (simp add: str_bytes_bar)
  from v have "124 = (45 :: u8) \<or> ascii_hexdigit 124 \<or> ascii_digit 124 \<or> ascii_upper 124"
    unfolding is_valid_wire_identifier_def using is_uuid_bytes [OF _ b] is_ulid_bytes [OF _ b] by blast
  then show False by (simp add: ascii_hexdigit_def ascii_digit_def ascii_upper_def)
qed

lemma split_at_last:
  "a @ x # b = c @ x # d \<Longrightarrow> x \<notin> set b \<Longrightarrow> x \<notin> set d \<Longrightarrow> a = c \<and> b = d"
  by (auto simp: append_eq_append_conv2 Cons_eq_append_conv append_eq_Cons_conv)

lemma authority_key_inj:
  assumes "is_valid_wire_identifier d1" and "is_valid_wire_identifier d2"
    and "authority_key b1 d1 = authority_key b2 d2"
  shows "b1 = b2 \<and> d1 = d2"
  using assms split_at_last [of b1 124 d1 b2 d2] wire_identifier_no_bar
  by (simp add: authority_key_def lit_def)

section \<open>Histories\<close>

datatype registry_op = Resolve rstr rstr "nat \<times> sequencer" | Discard

fun registry_step :: "registry_op \<Rightarrow> unit registry \<Rightarrow> unit registry" where
  "registry_step (Resolve b d q) r =
     snd (registry_resolve b d \<lparr>auth_sequencer = q, auth_client = None\<rparr> r)"
| "registry_step Discard r = registry_discard r"

section \<open>Properties\<close>

text \<open>
  One ordered writer per pairing. Resolving twice for the same pairing, with any
  renegotiation in between, yields the same sequencer object; resolving for another pairing
  (another base URL or another valid device id), or after a discard, installs the new one.
\<close>

theorem authority_per_pairing:
  assumes "is_valid_wire_identifier d1" and "is_valid_wire_identifier d2"
  shows "auth_sequencer (fst (registry_resolve b2 d2 f2 (snd (registry_resolve b1 d1 f1 r)))) =
      (if b1 = b2 \<and> d1 = d2 then auth_sequencer (fst (registry_resolve b1 d1 f1 r))
       else auth_sequencer f2) \<and>
    auth_sequencer (fst (registry_resolve b2 d2 f2 (registry_discard r))) = auth_sequencer f2 \<and>
    auth_sequencer (fst (registry_resolve b1 d1 f2
      (registry_set_client c (snd (registry_resolve b1 d1 f1 r))))) =
    auth_sequencer (fst (registry_resolve b1 d1 f1 r))"
proof -
  have "\<exists>a. registry_resolve b1 d1 f1 r = (a, Some (authority_key b1 d1, a))"
    by (auto simp: registry_resolve_def Let_def split: option.splits)
  then obtain a where r1: "registry_resolve b1 d1 f1 r = (a, Some (authority_key b1 d1, a))" ..
  have "b1 = b2 \<and> d1 = d2 \<longleftrightarrow> authority_key b1 d1 = authority_key b2 d2"
    using authority_key_inj [OF assms] by blast
  then show ?thesis
    unfolding r1
    by (simp add: registry_resolve_def registry_discard_def registry_set_client_def Let_def)
qed

lemma authority_per_pairing_witness:
  "auth_sequencer (fst (registry_resolve (lit ''https://a/'') sample_uuid
      \<lparr>auth_sequencer = (2, \<lparr>seq_device = sample_uuid, seq_floor = 1\<rparr>), auth_client = Some ()\<rparr>
      (snd (registry_resolve (lit ''https://a/'') sample_uuid
        \<lparr>auth_sequencer = (1, \<lparr>seq_device = sample_uuid, seq_floor = 1\<rparr>), auth_client = None\<rparr> None)))) =
   (1, \<lparr>seq_device = sample_uuid, seq_floor = 1\<rparr>)"
  using authority_per_pairing [OF sample_uuid_valid sample_uuid_valid]
  by (simp add: registry_resolve_def)

end
