(* ===== verification/Capabilities.thy ===== *)
theory Capabilities
  imports Wire_Types
begin

text \<open>
  Capability negotiation with the strict SemVer comparator
  (\<open>core/src/protocol/capabilities.rs\<close>). The comparator is shown to be the order of a
  lexicographic key, an instance of the locale \<open>keyed_order\<close>.
\<close>

record semantic_version =
  sv_major :: nat
  sv_minor :: nat
  sv_patch :: nat
  sv_prerelease :: "rstr list"

section \<open>Identifiers\<close>

definition is_alphanumeric_identifier :: "rstr \<Rightarrow> bool" where
  "is_alphanumeric_identifier i \<longleftrightarrow>
     i \<noteq> [] \<and> list_all (\<lambda>b. ascii_alphanumeric b \<or> b = 45) (str_bytes i)"

definition is_all_digits :: "rstr \<Rightarrow> bool" where
  "is_all_digits i \<longleftrightarrow> i \<noteq> [] \<and> list_all ascii_digit (str_bytes i)"

definition is_numeric_identifier :: "rstr \<Rightarrow> bool" where
  "is_numeric_identifier i \<longleftrightarrow> i = lit ''0'' \<or> is_all_digits i \<and> hd i \<noteq> 48"

text \<open>\<open>str::parse::<u64>\<close> on a string of digits: \<open>None\<close> on overflow.\<close>

definition digits_value :: "rstr \<Rightarrow> nat" where
  "digits_value s = foldl (\<lambda>a c. a * 10 + (c - 48)) 0 s"

definition parse_u64 :: "rstr \<Rightarrow> nat option" where
  "parse_u64 s =
     (if is_all_digits s \<and> digits_value s < 2 ^ 64 then Some (digits_value s) else None)"

definition u64_max :: nat where
  "u64_max = 2 ^ 64 - 1"

section \<open>Parsing\<close>

fun check_prerelease :: "rstr list \<Rightarrow> rstr list option" where
  "check_prerelease [] = Some []"
| "check_prerelease (i # is) =
     (if \<not> is_alphanumeric_identifier i then None
      else if is_all_digits i \<and> \<not> is_numeric_identifier i then None
      else map_option ((#) i) (check_prerelease is))"

text \<open>The core loop: at most three parts, each a number without leading zeros.\<close>

fun check_core :: "nat list \<Rightarrow> rstr list \<Rightarrow> nat list option" where
  "check_core nums [] = Some nums"
| "check_core nums (p # ps) =
     (if length nums = 3 \<or> \<not> is_numeric_identifier p then None
      else Option.bind (parse_u64 p) (\<lambda>n. check_core (nums @ [n]) ps))"

definition strip_build :: "rstr \<Rightarrow> rstr option" where
  "strip_build input =
     (case split_once 43 input of
        None \<Rightarrow> Some input
      | Some (before, build) \<Rightarrow>
          if build = [] \<or> \<not> list_all is_alphanumeric_identifier (str_split 46 build) then None
          else Some before)"

definition strip_prerelease :: "rstr \<Rightarrow> (rstr \<times> rstr list) option" where
  "strip_prerelease s =
     (case split_once 45 s of
        None \<Rightarrow> Some (s, [])
      | Some (core, pre) \<Rightarrow>
          if pre = [] then None
          else map_option (Pair core) (check_prerelease (str_split 46 pre)))"

definition parse_semantic_version :: "rstr \<Rightarrow> semantic_version option" where
  "parse_semantic_version input =
     Option.bind (strip_build input) (\<lambda>s1.
     Option.bind (strip_prerelease s1) (\<lambda>(core, pre).
     Option.bind (check_core [] (str_split 46 core)) (\<lambda>nums.
       if length nums \<noteq> 3 then None
       else Some \<lparr>sv_major = nums ! 0, sv_minor = nums ! 1, sv_patch = nums ! 2,
                  sv_prerelease = pre\<rparr>)))"

section \<open>Comparison\<close>

definition parse_or_max :: "rstr \<Rightarrow> nat" where
  "parse_or_max i = (case parse_u64 i of Some n \<Rightarrow> n | None \<Rightarrow> u64_max)"

definition cmp_str :: "rstr \<Rightarrow> rstr \<Rightarrow> ordering" where
  "cmp_str a b = cmp (map unat (str_bytes a)) (map unat (str_bytes b))"

definition compare_identifiers :: "rstr \<Rightarrow> rstr \<Rightarrow> ordering" where
  "compare_identifiers a b =
     (let num_a = is_all_digits a; num_b = is_all_digits b
      in if num_a \<and> num_b then cmp (parse_or_max a) (parse_or_max b)
         else if num_a \<noteq> num_b then (if num_a then Less else Greater)
         else cmp_str a b)"

fun compare_zip :: "rstr list \<Rightarrow> rstr list \<Rightarrow> ordering option" where
  "compare_zip (a # as) (b # bs) =
     (let o1 = compare_identifiers a b in if o1 \<noteq> Equal then Some o1 else compare_zip as bs)"
| "compare_zip _ _ = None"

definition compare_semantic_versions :: "semantic_version \<Rightarrow> semantic_version \<Rightarrow> ordering" where
  "compare_semantic_versions a b =
     (let core = ord_then (ord_then (cmp (sv_major a) (sv_major b)) (cmp (sv_minor a) (sv_minor b)))
                   (cmp (sv_patch a) (sv_patch b));
          pre_a = sv_prerelease a; pre_b = sv_prerelease b
      in if core \<noteq> Equal then core
         else if pre_a = [] \<and> pre_b = [] then Equal
         else if pre_a = [] then Greater
         else if pre_b = [] then Less
         else case compare_zip pre_a pre_b of
                Some o1 \<Rightarrow> o1
              | None \<Rightarrow> cmp (length pre_a) (length pre_b))"

section \<open>Negotiation\<close>

datatype presence_negotiation =
    Available negotiated_configuration
  | NegClientUpdateRequired | SchemaUnsupported | FeatureUnavailable | InvalidCapabilities

definition limits_are_valid :: "capabilities_limits \<Rightarrow> bool" where
  "limits_are_valid l \<longleftrightarrow>
     cl_presence_payload_bytes l > 0 \<and> cl_presence_requests_per_minute l > 0 \<and>
     cl_presence_lease_min_seconds l > 0 \<and>
     cl_presence_lease_min_seconds l \<le> cl_presence_lease_max_seconds l \<and>
     cl_presence_lease_min_seconds l \<le> cl_recommended_heartbeat_seconds l \<and>
     cl_recommended_heartbeat_seconds l \<le> cl_presence_lease_max_seconds l \<and>
     cl_maximum_clock_skew_seconds l \<ge> 0"

definition negotiate_presence :: "capabilities_data \<Rightarrow> rstr \<Rightarrow> presence_negotiation" where
  "negotiate_presence capabilities client_version =
     (let limits = cd_limits capabilities
      in case (parse_semantic_version client_version,
               parse_semantic_version (cd_minimum_client_version capabilities)) of
           (Some client, Some minimum) \<Rightarrow>
             if list_ex (\<lambda>v. v \<le> 0) (cd_presence_schema_versions capabilities) \<or>
                list_ex (\<lambda>v. v \<le> 0) (cd_moment_schema_versions capabilities) \<or>
                \<not> limits_are_valid limits
             then InvalidCapabilities
             else if compare_semantic_versions client minimum = Less then NegClientUpdateRequired
             else if \<not> (int PRESENCE_SCHEMA_VERSION \<in> set (cd_presence_schema_versions capabilities))
             then SchemaUnsupported
             else if \<not> cf_live_desk (cd_features capabilities) then FeatureUnavailable
             else Available
               \<lparr>supports_media_timeline = cf_media_timeline (cd_features capabilities),
                maximum_payload_bytes = nat (cl_presence_payload_bytes limits),
                requests_per_minute = nat (cl_presence_requests_per_minute limits),
                lease_min_seconds = cl_presence_lease_min_seconds limits,
                lease_max_seconds = cl_presence_lease_max_seconds limits,
                recommended_heartbeat_seconds = cl_recommended_heartbeat_seconds limits,
                maximum_clock_skew_seconds = cl_maximum_clock_skew_seconds limits\<rparr>
         | _ \<Rightarrow> InvalidCapabilities)"

lemmas semver_eval =
  parse_semantic_version_def strip_build_def strip_prerelease_def is_alphanumeric_identifier_def
  is_numeric_identifier_def ascii_alphanumeric_def parse_u64_def is_all_digits_def lit_def
  str_bytes_def utf8_def ascii_digit_def ascii_upper_def ascii_lower_def digits_value_def
  compare_semantic_versions_def compare_identifiers_def cmp_str_def parse_or_max_def
  u64_max_def cmp_def Let_def

section \<open>The order of a key\<close>

definition identifier_key :: "rstr \<Rightarrow> nat list" where
  "identifier_key i = (if is_all_digits i then [0, parse_or_max i] else 1 # map unat (str_bytes i))"

definition semver_key :: "semantic_version \<Rightarrow> nat list list" where
  "semver_key v =
     [[sv_major v], [sv_minor v], [sv_patch v], [if sv_prerelease v = [] then 1 else 0]] @
     map identifier_key (sv_prerelease v)"

lemma cmp_Cons: "cmp (a # as) (b # bs) = ord_then (cmp a b) (cmp as bs)"
  by (auto simp: cmp_def)

lemma cmp_singleton: "cmp [a] [b] = cmp a b"
  by (auto simp: cmp_def)

lemma cmp_Nil: "cmp [] [] = Equal" "cmp [] (b # bs) = Less" "cmp (b # bs) [] = Greater"
  by (auto simp: cmp_def)

lemma compare_identifiers_key: "compare_identifiers a b = cmp (identifier_key a) (identifier_key b)"
  by (auto simp: compare_identifiers_def identifier_key_def cmp_Cons cmp_str_def Let_def cmp_singleton)
    (auto simp: cmp_def)

lemma ord_then_assoc: "ord_then (ord_then a b) c = ord_then a (ord_then b c)"
  by (cases a) auto

lemma cmp_refl [simp]: "cmp a a = Equal"
  by (simp add: cmp_def)

lemma compare_zip_key:
  "(case compare_zip as bs of Some o1 \<Rightarrow> o1 | None \<Rightarrow> cmp (length as) (length bs)) =
   cmp (map identifier_key as) (map identifier_key bs)"
proof (induction as bs rule: compare_zip.induct)
  case (1 a as b bs)
  have len: "cmp (length (a # as)) (length (b # bs)) = cmp (length as) (length bs)"
    by (simp add: cmp_def)
  show ?case
  proof (cases "compare_identifiers a b = Equal")
    case True
    with 1 [OF refl] show ?thesis
      unfolding len by (simp add: cmp_Cons Let_def flip: compare_identifiers_key del: cmp_simps)
  next
    case False
    then show ?thesis
      by (cases "compare_identifiers a b")
        (simp_all add: cmp_Cons Let_def flip: compare_identifiers_key del: cmp_simps)
  qed
qed (auto simp: cmp_def neq_Nil_conv)

lemma compare_key:
  "compare_semantic_versions a b = cmp (semver_key a) (semver_key b)"
proof -
  let ?core = "ord_then (ord_then (cmp (sv_major a) (sv_major b)) (cmp (sv_minor a) (sv_minor b)))
                   (cmp (sv_patch a) (sv_patch b))"
  have key: "cmp (semver_key a) (semver_key b) = ord_then ?core
      (ord_then (cmp [if sv_prerelease a = [] then 1 else 0::nat] [if sv_prerelease b = [] then 1 else 0])
        (cmp (map identifier_key (sv_prerelease a)) (map identifier_key (sv_prerelease b))))"
    by (simp add: semver_key_def cmp_Cons cmp_singleton ord_then_assoc)
  show ?thesis
    unfolding key compare_semantic_versions_def Let_def compare_zip_key
    by (cases ?core) (auto simp: cmp_Nil cmp_def)
qed

interpretation semver: keyed_order compare_semantic_versions semver_key
  by unfold_locales (rule compare_key)

section \<open>What a parsed version looks like\<close>

lemma check_prerelease_Some:
  "check_prerelease is = Some js \<Longrightarrow> js = is \<and>
     list_all (\<lambda>i. is_alphanumeric_identifier i \<and> (is_all_digits i \<longrightarrow> is_numeric_identifier i)) is"
  by (induction "is" arbitrary: js) (auto split: if_splits)

lemma parse_u64_Some: "parse_u64 s = Some n \<Longrightarrow> n = digits_value s \<and> n < 2 ^ 64"
  by (auto simp: parse_u64_def split: if_splits)

lemma check_core_Some:
  "check_core acc ps = Some nums \<Longrightarrow>
   nums = acc @ map digits_value ps \<and> list_all (\<lambda>p. is_numeric_identifier p \<and> digits_value p < 2 ^ 64) ps"
  by (induction acc ps rule: check_core.induct)
    (auto split: if_splits bind_splits dest!: parse_u64_Some)

lemma strip_build_Some:
  "strip_build s = Some t \<Longrightarrow> \<exists>b. s = t @ b \<and> (b = [] \<or> hd b = 43) \<and> 43 \<notin> set t"
  by (auto simp: strip_build_def split_once_None split: option.splits if_splits dest: split_once_Some)

lemma strip_prerelease_Some:
  assumes "strip_prerelease s = Some (core, pre)"
  shows "s = core @ (if pre = [] then [] else 45 # str_join 46 pre) \<and> 45 \<notin> set core \<and>
    list_all (\<lambda>i. is_alphanumeric_identifier i \<and> (is_all_digits i \<longrightarrow> is_numeric_identifier i)) pre"
proof (cases "split_once 45 s")
  case None
  then have "s = core \<and> pre = []" using assms by (simp add: strip_prerelease_def)
  with None show ?thesis by (simp add: split_once_None)
next
  case (Some cp)
  then obtain c p where cp: "split_once 45 s = Some (c, p)" by (cases cp) auto
  then have c: "c = core" and p: "check_prerelease (str_split 46 p) = Some pre"
    using assms by (auto simp: strip_prerelease_def split: if_splits)
  note pre = check_prerelease_Some [OF p]
  then have "pre \<noteq> []" and "str_join 46 pre = p" by (simp_all add: str_join_split)
  with pre split_once_Some [OF cp] show ?thesis by (simp add: c)
qed

text \<open>The literal form of a version: core, prerelease identifiers, anything after a plus.\<close>

definition semver_text :: "rstr list \<Rightarrow> rstr list \<Rightarrow> rstr \<Rightarrow> rstr" where
  "semver_text core pre build =
     str_join 46 core @ (if pre = [] then [] else 45 # str_join 46 pre) @ build"

section \<open>Properties\<close>

text \<open>
  The parser is sound for strict SemVer. A version it accepts is spelled
  major.minor.patch with three numbers without leading zeros that fit 64 bits and are the
  fields of the result, then the prerelease identifiers of the result joined by dots, each
  alphanumeric and without a leading zero when numeric, then nothing or a build part.
\<close>

theorem parse_semantic_version_sound:
  assumes "parse_semantic_version s = Some v"
  shows "\<exists>a b c build. s = semver_text [a, b, c] (sv_prerelease v) build \<and>
    (build = [] \<or> hd build = 43) \<and>
    list_all (\<lambda>p. is_numeric_identifier p \<and> digits_value p < 2 ^ 64) [a, b, c] \<and>
    [sv_major v, sv_minor v, sv_patch v] = map digits_value [a, b, c] \<and>
    list_all (\<lambda>i. is_alphanumeric_identifier i \<and> (is_all_digits i \<longrightarrow> is_numeric_identifier i))
      (sv_prerelease v)"
proof -
  obtain t core pre nums where t: "strip_build s = Some t"
    and c: "strip_prerelease t = Some (core, pre)"
    and n: "check_core [] (str_split 46 core) = Some nums" and len: "length nums = 3"
    and v: "v = \<lparr>sv_major = nums ! 0, sv_minor = nums ! 1, sv_patch = nums ! 2, sv_prerelease = pre\<rparr>"
    using assms by (auto simp: parse_semantic_version_def bind_eq_Some_conv split: if_splits prod.splits)
  note m = check_core_Some [OF n]
  then obtain x y z where xyz: "str_split 46 core = [x, y, z]"
    using len by (auto simp: numeral_3_eq_3 length_Suc_conv)
  then have core: "core = str_join 46 [x, y, z]" by (metis str_join_split)
  obtain build where build: "s = t @ build" "build = [] \<or> hd build = 43"
    using strip_build_Some [OF t] by blast
  note pre = strip_prerelease_Some [OF c]
  show ?thesis
  proof (intro exI conjI)
    show "s = semver_text [x, y, z] (sv_prerelease v) build"
      using build(1) pre core by (simp add: semver_text_def v)
    show "[sv_major v, sv_minor v, sv_patch v] = map digits_value [x, y, z]"
      using m xyz by (simp add: v)
    show "list_all (\<lambda>p. is_numeric_identifier p \<and> digits_value p < 2 ^ 64) [x, y, z]"
      using m unfolding xyz by blast
  qed (use build(2) pre in \<open>simp_all add: v\<close>)
qed

lemma parse_semantic_version_sound_witness:
  "parse_semantic_version (lit ''1.8.3-rc.1+win'') =
     Some \<lparr>sv_major = 1, sv_minor = 8, sv_patch = 3, sv_prerelease = [lit ''rc'', lit ''1'']\<rparr> \<and>
   (\<exists>a b c build. lit ''1.8.3-rc.1+win'' = semver_text [a, b, c] [lit ''rc'', lit ''1''] build)"
proof -
  have p: "parse_semantic_version (lit ''1.8.3-rc.1+win'') =
     Some \<lparr>sv_major = 1, sv_minor = 8, sv_patch = 3, sv_prerelease = [lit ''rc'', lit ''1'']\<rparr>"
    by (simp add: semver_eval del: lit_eq_iff)
  show ?thesis using parse_semantic_version_sound [OF p] p by auto
qed

text \<open>
  C29: the comparator is a total preorder. It compares the lexicographic key of core numbers,
  release flag and identifiers (numeric below textual, a proper prefix below its extension), so
  it is reflexive, antisymmetric as an ordering and transitive.
\<close>

theorem compare_semantic_versions_order:
  "compare_semantic_versions a b = cmp (semver_key a) (semver_key b) \<and>
   compare_semantic_versions a a = Equal \<and>
   compare_semantic_versions b a = ord_rev (compare_semantic_versions a b) \<and>
   (compare_semantic_versions a b \<noteq> Greater \<and> compare_semantic_versions b c \<noteq> Greater \<longrightarrow>
    compare_semantic_versions a c \<noteq> Greater)"
  using compare_key semver.compare_refl semver.compare_rev semver.compare_le_trans by blast

definition sv :: "nat \<Rightarrow> nat \<Rightarrow> nat \<Rightarrow> rstr list \<Rightarrow> semantic_version" where
  "sv a b c p = \<lparr>sv_major = a, sv_minor = b, sv_patch = c, sv_prerelease = p\<rparr>"

lemma compare_semantic_versions_order_witness:
  "compare_semantic_versions (sv 1 0 0 [lit ''alpha'']) (sv 1 0 0 []) \<noteq> Greater"
proof -
  have "compare_semantic_versions (sv 1 0 0 [lit ''alpha'']) (sv 1 0 0 [lit ''beta'']) \<noteq> Greater"
    and "compare_semantic_versions (sv 1 0 0 [lit ''beta'']) (sv 1 0 0 []) \<noteq> Greater"
    by (simp_all add: semver_eval sv_def PROTOCOL_CLIENT_VERSION_def del: lit_eq_iff)
  with compare_semantic_versions_order show ?thesis by blast
qed


definition sample_capabilities :: capabilities_data where
  "sample_capabilities =
     \<lparr>cd_minimum_client_version = lit ''1.8.0'', cd_presence_schema_versions = [2],
      cd_moment_schema_versions = [1],
      cd_features = \<lparr>cf_live_desk = True, cf_media_timeline = True, cf_moments = False,
                     cf_reading_sessions = False, cf_media_artwork = None,
                     cf_media_playback_links = None\<rparr>,
      cd_limits = \<lparr>cl_presence_payload_bytes = 16384, cl_presence_requests_per_minute = 30,
                   cl_presence_lease_min_seconds = 30, cl_presence_lease_max_seconds = 300,
                   cl_recommended_heartbeat_seconds = 60, cl_maximum_clock_skew_seconds = 5\<rparr>\<rparr>"

definition sample_configuration :: negotiated_configuration where
  "sample_configuration =
     \<lparr>supports_media_timeline = True, maximum_payload_bytes = 16384, requests_per_minute = 30,
      lease_min_seconds = 30, lease_max_seconds = 300, recommended_heartbeat_seconds = 60,
      maximum_clock_skew_seconds = 5\<rparr>"


text \<open>
  Numeric prerelease identifiers beyond 64 bits collapse. Two different versions whose
  only difference is such an identifier compare equal, so the comparator is not the SemVer
  order on the texts the parser accepts.
\<close>

theorem huge_prerelease_collapse:
  "\<exists>s t. parse_semantic_version s \<noteq> None \<and> parse_semantic_version t \<noteq> None \<and>
     parse_semantic_version s \<noteq> parse_semantic_version t \<and>
     compare_semantic_versions (the (parse_semantic_version s)) (the (parse_semantic_version t)) = Equal"
proof (intro exI conjI)
  let ?s = "lit ''1.0.0-18446744073709551616''" and ?t = "lit ''1.0.0-18446744073709551617''"
  show "parse_semantic_version ?s \<noteq> None" by (simp add: semver_eval del: lit_eq_iff)
  show "parse_semantic_version ?t \<noteq> None" by (simp add: semver_eval del: lit_eq_iff)
  show "parse_semantic_version ?s \<noteq> parse_semantic_version ?t" by (simp add: semver_eval del: lit_eq_iff)
  show "compare_semantic_versions (the (parse_semantic_version ?s)) (the (parse_semantic_version ?t)) = Equal"
    by (simp add: semver_eval del: lit_eq_iff)
qed

section \<open>A capabilities reply\<close>

definition sample_meta_json :: json where
  "sample_meta_json =
     JObj [(lit ''schema'', JStr PRESENCE_SCHEMA), (lit ''schemaVersion'', JInt 2),
           (lit ''requestId'', JStr sample_uuid), (lit ''serverTime'', JStr epoch_date)]"

definition sample_features_json :: json where
  "sample_features_json =
     JObj [(lit ''liveDesk'', JBool True), (lit ''mediaTimeline'', JBool True),
           (lit ''moments'', JBool False), (lit ''readingSessions'', JBool False)]"

definition sample_limits_json :: json where
  "sample_limits_json =
     JObj [(lit ''presencePayloadBytes'', JInt 16384), (lit ''presenceRequestsPerMinute'', JInt 30),
           (lit ''presenceLeaseMinSeconds'', JInt 30), (lit ''presenceLeaseMaxSeconds'', JInt 300),
           (lit ''recommendedHeartbeatSeconds'', JInt 60), (lit ''maximumClockSkewSeconds'', JInt 5)]"

definition sample_capabilities_json :: json where
  "sample_capabilities_json =
     JObj [(lit ''meta'', sample_meta_json),
           (lit ''data'', JObj [(lit ''minimumClientVersion'', JStr (lit ''1.8.0'')),
              (lit ''presenceSchemaVersions'', JArr [JInt 2]), (lit ''momentSchemaVersions'', JArr [JInt 1]),
              (lit ''features'', sample_features_json), (lit ''limits'', sample_limits_json)])]"

lemma sample_meta_decodes:
  "de_response_meta sample_meta_json = Inr \<lparr>rs_schema = PRESENCE_SCHEMA, rs_schema_version = 2,
     rs_request_id = sample_uuid, rs_server_time = epoch_date\<rparr>"
  by (simp add: de_response_meta_def sample_meta_json_def reader_defs json_simps
      de_presence_schema_literal_def de_schema_version_literal_def PRESENCE_SCHEMA_def)

lemma sample_features_decode: "de_features sample_features_json = Inr (cd_features sample_capabilities)"
  by (simp add: de_features_def sample_features_json_def sample_capabilities_def reader_defs json_simps)

lemma sample_limits_decode: "de_limits sample_limits_json = Inr (cd_limits sample_capabilities)"
  by (simp add: de_limits_def sample_limits_json_def sample_capabilities_def reader_defs json_simps)

lemma sample_capabilities_decode:
  "\<exists>m. decode_capabilities_response epoch_calendar sample_capabilities_json =
     Inr \<lparr>cap_meta = m, cap_data = sample_capabilities\<rparr>"
  by (simp add: decode_capabilities_response_def de_capabilities_response_def de_capabilities_data_def
      sample_capabilities_json_def reader_defs sample_meta_decodes sample_features_decode
      sample_limits_decode refine_response_meta_def sample_uuid_valid epoch_date_decodes
      refine_safe_integer_def limit_list_def MAXIMUM_SAFE_WIRE_INTEGER_def)
    (simp add: sample_capabilities_def refine_safe_integer_def MAXIMUM_SAFE_WIRE_INTEGER_def)

lemma sample_negotiates:
  "negotiate_presence sample_capabilities PROTOCOL_CLIENT_VERSION = Available sample_configuration"
proof -
  have "parse_semantic_version PROTOCOL_CLIENT_VERSION = Some (sv 1 8 3 [])"
    by (simp add: semver_eval sv_def PROTOCOL_CLIENT_VERSION_def del: lit_eq_iff)
  moreover have "parse_semantic_version (lit ''1.8.0'') = Some (sv 1 8 0 [])"
    and "compare_semantic_versions (sv 1 8 3 []) (sv 1 8 0 []) \<noteq> Less"
    by (simp_all add: semver_eval sv_def del: lit_eq_iff)
  ultimately show ?thesis
    by (simp add: negotiate_presence_def sample_capabilities_def sample_configuration_def
        limits_are_valid_def PRESENCE_SCHEMA_VERSION_def)
qed

end
