(* ===== verification/Sequence_Store.thy ===== *)
theory Sequence_Store
  imports Sequencer Config_Store
begin

text \<open>
  \<open>sequence.json\<close>, the per-device persistence of the sequencer
  (\<open>core/src/store/sequence.rs\<close>): one JSON object from device id to next sequence, re-read
  for every operation. \<open>FileSequenceStore\<close> implements \<open>SequenceBacking\<close>; here that is the
  interpretation of the locale \<open>sequence_backing\<close> on the three operations of the file.
\<close>

definition fss_new :: "path option \<Rightarrow> config_store_error + path \<Rightarrow> bool \<Rightarrow> io_error + path" where
  "fss_new directory data_dir created =
     (case open_directory directory data_dir created of
        Inl _ \<Rightarrow> Inl DirectoryError
      | Inr p \<Rightarrow> Inr (path_join p (lit ''sequence.json'')))"

definition fss_load :: "path \<Rightarrow> bool \<Rightarrow> disk \<Rightarrow> rstr \<Rightarrow> int option" where
  "fss_load p readable d device = Option.bind (obj_get (read_json_object readable d p) device) json_as_i64"

definition fss_store :: "path \<Rightarrow> rw_fault \<Rightarrow> disk \<Rightarrow> rstr \<Rightarrow> nat \<Rightarrow> (io_error + unit) \<times> disk" where
  "fss_store p flt d device n =
     atomic_write_json (rw_write flt) d p (JObj (obj_set (read_json_object (rw_reads flt) d p) device (JInt (int n))))"

definition fss_remove :: "path \<Rightarrow> rw_fault \<Rightarrow> disk \<Rightarrow> rstr \<Rightarrow> (io_error + unit) \<times> disk" where
  "fss_remove p flt d device =
     (let m = read_json_object (rw_reads flt) d p
      in if obj_get m device \<noteq> None
         then atomic_write_json (rw_write flt) d p (JObj (obj_remove m device))
         else (Inr (), d))"

lemma fss_load_cong: "d' p = d p \<Longrightarrow> fss_load p r d' = fss_load p r d"
  by (rule ext) (simp add: fss_load_def read_json_object_cong [of d' p d])

lemma fss_store_Inr:
  assumes "fss_store p flt d dev n = (Inr u, d')"
  shows "read_json_object True d' p = obj_set (read_json_object (rw_reads flt) d p) dev (JInt (int n))"
  using assms unfolding fss_store_def by (rule read_written_set)

lemma fss_store_Inl: "fss_store p flt d dev n = (Inl e, d') \<Longrightarrow> fss_load p r d' = fss_load p r d"
  unfolding fss_store_def by (drule atomic_write_Inl) (rule fss_load_cong)

lemma wire_max_fits_i64: "n \<le> MAXIMUM_SAFE_WIRE_INTEGER \<Longrightarrow> json_as_i64 (JInt (int n)) = Some (int n)"
  by (simp add: MAXIMUM_SAFE_WIRE_INTEGER_def)

interpretation file_seq: sequence_backing "fss_load p" "fss_store p" for p
proof
  show "fss_load p True s' d = Some (int n)"
    if "fss_store p flt s d n = (Inr u, s')" "n \<le> MAXIMUM_SAFE_WIRE_INTEGER" for flt s d n u s'
    using fss_store_Inr [OF that(1)] wire_max_fits_i64 [OF that(2)] by (simp add: fss_load_def)
  show "fss_load p True s' d = fss_load p True s d"
    if "fss_store p flt s d n = (Inl e, s')" for flt s d n e s'
    using fss_store_Inl [OF that, of True] by simp
  show "fss_load p True s' d' = fss_load p True s d'"
    if "fss_store p flt s d n = (r, s')" "rw_reads flt" "d' \<noteq> d" for flt s d n r s' d'
  proof (cases r)
    case (Inl e)
    then show ?thesis using that fss_store_Inl by metis
  next
    case (Inr u)
    then show ?thesis using that fss_store_Inr [of p flt s d n u s'] by (simp add: fss_load_def)
  qed
  show "\<exists>s'. fss_store p flt s d n = (Inr (), s')" if "rw_write flt = NoFault" for flt s d n
    using that atomic_write_ok by (simp add: fss_store_def)
  show "fss_load p False s d = None" for s d
    by (simp add: fss_load_def)
qed

section \<open>Properties\<close>

text \<open>
  C1: no sequence is ever handed out twice while the file can be read. In every history of reservations
  and reconciliations over \<open>sequence.json\<close>, from an arbitrary initial file (missing, corrupt or holding
  any value), with any number of restarts in between and any step of any write failing, the sequences
  returned by \<open>reserve\<close> are strictly increasing, provided that no load fails to read the file; and whatever
  fails, every one of them is at or above the pairing floor and at most 2^53 - 2. What a failed read does
  is the next theorem.
\<close>

theorem sequences_never_reused:
  assumes "seq_run (fss_load p) (fss_store p) q ops d = (ns, d')"
  shows "((\<forall>op \<in> set ops. op_loads op) \<longrightarrow> sorted_wrt (<) ns) \<and>
    (\<forall>n \<in> set ns. seq_floor q \<le> n \<and> n \<le> 2 ^ 53 - 2)"
proof -
  have "n \<le> 2 ^ 53 - 2" if "n < MAXIMUM_SAFE_WIRE_INTEGER" for n
    using that by (simp add: MAXIMUM_SAFE_WIRE_INTEGER_def)
  with file_seq.seq_run_window(1) [OF assms] file_seq.seq_run_bounds [OF assms] show ?thesis by blast
qed

lemmas sequence_evaluation =
  lit_def reserve_def reconcile_def current_next_def fss_load_def fss_store_def read_json_object_def
  obj_of_members_def atomic_write_json_def sibling_with_suffix_def MAXIMUM_SAFE_WIRE_INTEGER_def

lemma sequences_never_reused_witness:
  "\<exists>ns d'. seq_run (fss_load (lit ''s'')) (fss_store (lit ''s'')) \<lparr>seq_device = lit ''D'', seq_floor = 7\<rparr>
      [Reserve no_seq_fault, Reserve (no_seq_fault\<lparr>sf_store := \<lparr>rw_reads = False, rw_write = FailSync\<rparr>\<rparr>),
       Reconcile 20 no_seq_fault, Reserve no_seq_fault]
      (\<lambda>_. None) = (ns, d') \<and> ns = [7, 21] \<and> sorted_wrt (<) ns"
proof -
  let ?ops = "[Reserve no_seq_fault, Reserve (no_seq_fault\<lparr>sf_store := \<lparr>rw_reads = False, rw_write = FailSync\<rparr>\<rparr>),
       Reconcile 20 no_seq_fault, Reserve no_seq_fault]"
  let ?run = "seq_run (fss_load (lit ''s'')) (fss_store (lit ''s'')) \<lparr>seq_device = lit ''D'', seq_floor = 7\<rparr>
      ?ops (\<lambda>_. None)"
  have "fst ?run = [7, 21]"
    by (simp add: sequence_evaluation)
  moreover have "\<forall>op \<in> set ?ops. op_loads op" by simp
  ultimately show ?thesis
    using sequences_never_reused [of "lit ''s''" _ ?ops _ "fst ?run" "snd ?run"] by (metis prod.collapse)
qed

text \<open>
  A load that cannot read the file falls back to the pairing floor, and the following store succeeds: the
  sequence is handed out a second time, and the file now says so. A store that cannot read the file
  forgets the sequences of all other devices.
\<close>

theorem unreadable_load_reuses_sequence:
  "fst (seq_run (fss_load p) (fss_store p) \<lparr>seq_device = lit ''D'', seq_floor = 7\<rparr>
      [Reserve no_seq_fault, Reserve no_seq_fault, Reserve (no_seq_fault\<lparr>sf_loads := False\<rparr>), Reserve no_seq_fault]
      (\<lambda>_. None)) = [7, 8, 7, 8]"
  by (simp add: sequence_evaluation)

theorem unreadable_store_forgets_others:
  assumes "fss_store p \<lparr>rw_reads = False, rw_write = NoFault\<rparr> d dev n = (r, d')" and "other \<noteq> dev"
  shows "r = Inr () \<and> fss_load p True d' other = None"
proof -
  have r: "r = Inr ()" using assms(1) by (auto simp: fss_store_def atomic_write_json_def Let_def)
  then show ?thesis using fss_store_Inr [of p "\<lparr>rw_reads = False, rw_write = NoFault\<rparr>" d dev n "()" d'] assms
    by (simp add: fss_load_def)
qed

lemma unreadable_store_forgets_others_witness:
  "\<exists>d'. fss_store (lit ''s'') \<lparr>rw_reads = False, rw_write = NoFault\<rparr>
      (\<lambda>_. Some (Parsed (JObj [(lit ''E'', JInt 9)]))) (lit ''D'') 7 = (Inr (), d') \<and>
     fss_load (lit ''s'') True d' (lit ''E'') = None"
proof -
  obtain r d' where "fss_store (lit ''s'') \<lparr>rw_reads = False, rw_write = NoFault\<rparr>
      (\<lambda>_. Some (Parsed (JObj [(lit ''E'', JInt 9)]))) (lit ''D'') 7 = (r, d')" by force
  from unreadable_store_forgets_others [OF this, of "lit ''E''"] this show ?thesis by auto
qed

text \<open>
  Reserve-before-send. A successful \<open>reserve\<close> has already persisted the successor of the
  sequence it returns; a failed one, whatever the fault, leaves the next sequence as it was;
  and as long as the space is not exhausted a \<open>reserve\<close> whose write succeeds returns
  exactly the next sequence that its load gave.
\<close>

theorem reserve_is_durable:
  "(case reserve (fss_load p) (fss_store p) q flt d of
      (Inr n, d') \<Rightarrow> n = current_next (fss_load p) (sf_loads flt) q d \<and>
                     fss_load p True d' (seq_device q) = Some (int (n + 1)) \<and>
                     current_next (fss_load p) True q d' = n + 1
    | (Inl e, d') \<Rightarrow> current_next (fss_load p) True q d' = current_next (fss_load p) True q d \<and>
                     (e = Exhausted \<longleftrightarrow>
                      MAXIMUM_SAFE_WIRE_INTEGER \<le> current_next (fss_load p) (sf_loads flt) q d) \<and>
                     (e \<noteq> Exhausted \<longrightarrow> rw_write (sf_store flt) \<noteq> NoFault))"
proof -
  let ?cur = "current_next (fss_load p) (sf_loads flt) q d"
  obtain r d' where r: "reserve (fss_load p) (fss_store p) q flt d = (r, d')" by force
  show ?thesis
  proof (cases r)
    case (Inl e)
    have "(e = Exhausted \<longleftrightarrow> MAXIMUM_SAFE_WIRE_INTEGER \<le> ?cur) \<and> (e \<noteq> Exhausted \<longrightarrow> rw_write (sf_store flt) \<noteq> NoFault)"
      using r Inl file_seq.store_succeeds [of "sf_store flt" p d "seq_device q" "?cur + 1"]
      by (auto simp: reserve_def Let_def split: if_splits prod.splits sum.splits)
    with file_seq.reserve_Inl [OF r [unfolded Inl]] r Inl show ?thesis by simp
  next
    case (Inr n)
    note ok = file_seq.reserve_Inr [OF r [unfolded Inr]]
    obtain u where "fss_store p (sf_store flt) d (seq_device q) (n + 1) = (Inr u, d')"
      using r Inr ok(1)
      by (auto simp: reserve_def Let_def split: if_splits prod.splits sum.splits)
    then have "fss_load p True d' (seq_device q) = Some (int (n + 1))"
      by (rule file_seq.load_store) (use ok(3) in simp)
    with ok r Inr show ?thesis by simp
  qed
qed

lemma reserve_is_durable_witness:
  "fst (reserve (fss_load (lit ''s'')) (fss_store (lit ''s'')) \<lparr>seq_device = lit ''D'', seq_floor = 7\<rparr>
      (no_seq_fault\<lparr>sf_store := \<lparr>rw_reads = True, rw_write = FailSync\<rparr>\<rparr>) (\<lambda>_. None)) = Inl (Backing (IoError FailSync)) \<and>
   FailSync \<noteq> NoFault"
proof -
  let ?flt = "no_seq_fault\<lparr>sf_store := \<lparr>rw_reads = True, rw_write = FailSync\<rparr>\<rparr>"
  let ?r = "reserve (fss_load (lit ''s'')) (fss_store (lit ''s'')) \<lparr>seq_device = lit ''D'', seq_floor = 7\<rparr>
      ?flt (\<lambda>_. None)"
  obtain d' where r: "?r = (Inl (Backing (IoError FailSync)), d')"
    by (simp add: sequence_evaluation)
  show ?thesis
    using reserve_is_durable [of "lit ''s''" "\<lparr>seq_device = lit ''D'', seq_floor = 7\<rparr>"
        "\<lambda>_. None" ?flt]
    unfolding r by simp
qed

text \<open>
  Reconciliation whose load reads never moves a sequence backwards, and touches no other device when its
  store reads; when it reports success for a sequence inside the wire range, the next sequence is the
  larger of what it was and one past the accepted one.
\<close>

theorem reconcile_forward_only:
  assumes "reconcile (fss_load p) (fss_store p) q flt accepted d = (r, d')" and "sf_loads flt"
  shows "current_next (fss_load p) True q d \<le> current_next (fss_load p) True q d' \<and>
    (rw_reads (sf_store flt) \<longrightarrow> (\<forall>dev. dev \<noteq> seq_device q \<longrightarrow> fss_load p True d' dev = fss_load p True d dev)) \<and>
    (is_ok r \<and> accepted < MAXIMUM_SAFE_WIRE_INTEGER \<longrightarrow>
      current_next (fss_load p) True q d' = max (current_next (fss_load p) True q d) (accepted + 1))"
  using file_seq.reconcile_mono [of flt p q d accepted] assms
    file_seq.reconcile_other_device [OF assms(1)] file_seq.reconcile_ok
  by (auto simp: is_ok_iff)

lemma reconcile_forward_only_witness:
  "\<exists>d'. reconcile (fss_load (lit ''s'')) (fss_store (lit ''s'')) \<lparr>seq_device = lit ''D'', seq_floor = 7\<rparr>
      no_seq_fault 20 (\<lambda>_. None) = (Inr (), d') \<and>
      current_next (fss_load (lit ''s'')) True \<lparr>seq_device = lit ''D'', seq_floor = 7\<rparr> d' = 21"
proof -
  let ?q = "\<lparr>seq_device = lit ''D'', seq_floor = 7\<rparr>"
  let ?run = "reconcile (fss_load (lit ''s'')) (fss_store (lit ''s'')) ?q no_seq_fault 20 (\<lambda>_. None)"
  have r: "fst ?run = Inr ()" and c: "current_next (fss_load (lit ''s'')) True ?q (\<lambda>_. None) = 7"
    by (simp_all add: sequence_evaluation)
  have e: "?run = (Inr (), snd ?run)" using r by (metis prod.collapse)
  have "current_next (fss_load (lit ''s'')) True ?q (snd ?run) = 21"
    using reconcile_forward_only [OF e] c by (simp add: MAXIMUM_SAFE_WIRE_INTEGER_def)
  with e show ?thesis by blast
qed

text \<open>
  \<open>remove\<close> (unpair) of a file it can read drops the device's entry and no other, keeps the file an object,
  and does not touch the disk when the device has no entry; a file it cannot read stays, and the removal
  still succeeds.
\<close>

lemma fss_remove_ok:
  assumes "fss_remove p flt d dev = (Inr u, d')" and "rw_reads flt"
  shows "fss_load p True d' dev = None" and "dev' \<noteq> dev \<Longrightarrow> fss_load p True d' dev' = fss_load p True d dev'"
    and "obj_get (read_json_object True d p) dev = None \<Longrightarrow> d' = d"
proof -
  have "d' = d \<and> obj_get (read_json_object True d p) dev = None \<or>
      read_json_object True d' p = obj_remove (read_json_object True d p) dev \<and>
      obj_get (read_json_object True d p) dev \<noteq> None"
    using assms read_written_remove
    by (fastforce simp: fss_remove_def Let_def split: if_splits)
  then show "fss_load p True d' dev = None" "dev' \<noteq> dev \<Longrightarrow> fss_load p True d' dev' = fss_load p True d dev'"
    "obj_get (read_json_object True d p) dev = None \<Longrightarrow> d' = d"
    by (auto simp: fss_load_def)
qed

lemma fss_remove_unreadable: "\<not> rw_reads flt \<Longrightarrow> fss_remove p flt d dev = (Inr (), d)"
  by (simp add: fss_remove_def)

end
