(* ===== verification/Transport.thy ===== *)
theory Transport
  imports Wire_Types Privacy_Model
begin

text \<open>
  The transport: error classes (\<open>core/src/companion/errors.rs\<close>), server configuration and one
  HTTP attempt (\<open>core/src/companion/http_client.rs\<close>). URL parsing, serialization and
  \<open>set_path\<close> belong to the \<open>url\<close> crate and are the parameter \<open>url_crate\<close>; what the network
  answers is the argument \<open>reply\<close>; the compact JSON writer is the argument \<open>to_vec\<close>.
\<close>

datatype transport_error =
    Network
  | EmptyResponse nat
  | DecodeFailed "decode_error option"
  | RequestIdMismatch
  | PayloadTooLarge nat nat
  | CredentialDeviceMismatch
  | ServerError nat error_envelope
  | HttpStatus nat
  | PairingServer nat rstr

section \<open>Classification\<close>

fun is_safe_for_immediate_idempotent_retry :: "transport_error \<Rightarrow> bool" where
  "is_safe_for_immediate_idempotent_retry (PayloadTooLarge _ _) = False"
| "is_safe_for_immediate_idempotent_retry CredentialDeviceMismatch = False"
| "is_safe_for_immediate_idempotent_retry (ServerError status e) =
     (500 \<le> status \<and> status \<le> 599 \<and> ed_retryable (ee_error e))"
| "is_safe_for_immediate_idempotent_retry (HttpStatus status) = (500 \<le> status \<and> status \<le> 599)"
| "is_safe_for_immediate_idempotent_retry (EmptyResponse _) = True"
| "is_safe_for_immediate_idempotent_retry (DecodeFailed _) = True"
| "is_safe_for_immediate_idempotent_retry RequestIdMismatch = True"
| "is_safe_for_immediate_idempotent_retry Network = True"
| "is_safe_for_immediate_idempotent_retry (PairingServer _ _) = False"

fun needs_renegotiation :: "transport_error \<Rightarrow> bool" where
  "needs_renegotiation (ServerError _ e) = (ed_code (ee_error e) \<in> set MUTATION_RENEGOTIATE_CODES)"
| "needs_renegotiation (HttpStatus status) = (status = 426)"
| "needs_renegotiation _ = False"

fun accepted_sequence_of :: "transport_error \<Rightarrow> nat option" where
  "accepted_sequence_of (ServerError _ e) = ed_accepted_sequence (ee_error e)"
| "accepted_sequence_of _ = None"

section \<open>Server configuration\<close>

record url =
  u_scheme :: rstr
  u_host :: "rstr option"
  u_username :: rstr
  u_password :: "rstr option"
  u_path :: rstr
  u_query :: "rstr option"
  u_fragment :: "rstr option"
  u_rest :: rstr

record url_crate =
  url_parse :: "rstr \<Rightarrow> url option"
  url_to_string :: "url \<Rightarrow> rstr"
  url_set_path :: "url \<Rightarrow> rstr \<Rightarrow> url"

definition octet_ok :: "rstr \<Rightarrow> bool" where
  "octet_ok part \<longleftrightarrow>
     1 \<le> length (str_bytes part) \<and> length (str_bytes part) \<le> 3 \<and>
     list_all ascii_digit (str_bytes part) \<and> foldl (\<lambda>a c. a * 10 + (c - 48)) 0 part \<le> 255"

definition is_loopback_host :: "unicode \<Rightarrow> rstr \<Rightarrow> bool" where
  "is_loopback_host u host =
     (let lowered = lowercase u host
      in if lowered = lit ''localhost'' \<or> lowered = lit ''::1'' \<or> lowered = lit ''[::1]'' then True
         else
           let parts = str_split 46 lowered
           in if length parts \<noteq> 4 \<or> parts ! 0 \<noteq> lit ''127'' then False
              else list_all octet_ok parts)"

datatype configuration_error = InvalidUrl | SchemeNotAllowed | EmbeddedCredentials | QueryOrFragment

definition non_empty :: "rstr option \<Rightarrow> bool" where
  "non_empty v \<longleftrightarrow> (case v of None \<Rightarrow> False | Some s \<Rightarrow> s \<noteq> [])"

definition server_configuration :: "unicode \<Rightarrow> url_crate \<Rightarrow> rstr \<Rightarrow> configuration_error + url" where
  "server_configuration u uc base =
     (case url_parse uc base of
        None \<Rightarrow> Inl InvalidUrl
      | Some parsed \<Rightarrow>
          let hostname = (case u_host parsed of None \<Rightarrow> [] | Some h \<Rightarrow> h)
          in if u_scheme parsed \<noteq> lit ''https'' \<and>
                \<not> (u_scheme parsed = lit ''http'' \<and> is_loopback_host u hostname)
             then Inl SchemeNotAllowed
             else if u_username parsed \<noteq> [] \<or> non_empty (u_password parsed)
             then Inl EmbeddedCredentials
             else if non_empty (u_query parsed) \<or> non_empty (u_fragment parsed)
             then Inl QueryOrFragment
             else Inr parsed)"

text \<open>\<open>strip_suffix('/')\<close>: at most one trailing slash.\<close>

definition strip_slash :: "rstr \<Rightarrow> rstr" where
  "strip_slash p = (if p \<noteq> [] \<and> last p = 47 then butlast p else p)"

definition endpoint :: "url_crate \<Rightarrow> url \<Rightarrow> rstr \<Rightarrow> url" where
  "endpoint uc base path =
     url_set_path uc base
       (if path \<noteq> [] \<and> hd path = 47 then strip_slash (u_path base) @ path
        else strip_slash (u_path base) @ [47] @ path)"

section \<open>One attempt\<close>

datatype http_method = Get | Post | Put

record execute_options =
  eo_method :: http_method
  eo_path :: rstr
  eo_credential :: "companion_credential option"
  eo_expected_request_id :: "rstr option"
  eo_maximum_payload_bytes :: "nat option"
  eo_encoded_body :: "u8 list option"

definition DEFAULT_MAX_PAYLOAD_BYTES :: nat where
  "DEFAULT_MAX_PAYLOAD_BYTES = 32 * 1024"

text \<open>What leaves the process.\<close>

record http_request =
  rq_method :: http_method
  rq_url :: url
  rq_authorization :: "rstr option"
  rq_version :: "rstr option"
  rq_body :: "u8 list option"

definition payload_limit :: "execute_options \<Rightarrow> nat" where
  "payload_limit o1 =
     (case eo_maximum_payload_bytes o1 of Some n \<Rightarrow> n | None \<Rightarrow> DEFAULT_MAX_PAYLOAD_BYTES)"

definition build_request :: "url_crate \<Rightarrow> url \<Rightarrow> execute_options \<Rightarrow> transport_error + http_request" where
  "build_request uc base o1 =
     (let request =
        \<lparr>rq_method = eo_method o1, rq_url = endpoint uc base (eo_path o1),
         rq_authorization = map_option (\<lambda>c. lit ''Bearer '' @ cred_device_token c) (eo_credential o1),
         rq_version = map_option (\<lambda>_. PROTOCOL_CLIENT_VERSION) (eo_credential o1), rq_body = None\<rparr>
      in case eo_encoded_body o1 of
           None \<Rightarrow> Inr request
         | Some bytes \<Rightarrow>
             if length bytes > payload_limit o1
             then Inl (PayloadTooLarge (length bytes) (payload_limit o1))
             else Inr (request\<lparr>rq_body := Some bytes\<rparr>))"

text \<open>The body of a response, up to the lossy decoding: empty, not JSON, or a JSON value.\<close>

datatype reply_body = EmptyBody | NotJson | JsonBody json

datatype reply = NetworkFailure | Reply nat reply_body

definition json_get :: "rstr \<Rightarrow> json \<Rightarrow> json option" where
  "json_get k v = (case v of JObj m \<Rightarrow> obj_get m k | _ \<Rightarrow> None)"

definition check_request_id_echo :: "json \<Rightarrow> rstr option \<Rightarrow> transport_error + unit" where
  "check_request_id_echo payload expected =
     (case expected of
        None \<Rightarrow> Inr ()
      | Some e \<Rightarrow>
          let echoed = Option.bind (Option.bind (json_get (lit ''meta'') payload)
                         (json_get (lit ''requestId''))) json_as_str
          in if echoed \<noteq> Some e then Inl RequestIdMismatch else Inr ())"

definition handle_reply ::
  "calendar \<Rightarrow> rstr option \<Rightarrow> (json \<Rightarrow> decode_error + 'a) \<Rightarrow> reply \<Rightarrow> transport_error + 'a" where
  "handle_reply cal expected schema r =
     (case r of
        NetworkFailure \<Rightarrow> Inl Network
      | Reply status body \<Rightarrow>
          let ok = (200 \<le> status \<and> status \<le> 299)
          in case body of
               EmptyBody \<Rightarrow> Inl (EmptyResponse status)
             | NotJson \<Rightarrow> if ok then Inl (DecodeFailed None) else Inl (HttpStatus status)
             | JsonBody v \<Rightarrow>
                 if ok then
                   (case schema v of
                      Inl e \<Rightarrow> Inl (DecodeFailed (Some e))
                    | Inr parsed \<Rightarrow>
                        rbind (check_request_id_echo v expected) (\<lambda>_. Inr parsed))
                 else
                   (case decode_error_envelope cal v of
                      Inr envelope \<Rightarrow>
                        rbind (check_request_id_echo v expected)
                          (\<lambda>_. Inl (ServerError status envelope))
                    | Inl _ \<Rightarrow>
                        (case decode_pairing_error_envelope v of
                           Inr code \<Rightarrow> Inl (PairingServer status code)
                         | Inl _ \<Rightarrow> Inl (HttpStatus status))))"

text \<open>\<open>execute\<close>: the requests that leave (at most one) and the result.\<close>

definition execute ::
  "calendar \<Rightarrow> url_crate \<Rightarrow> url \<Rightarrow> execute_options \<Rightarrow> (json \<Rightarrow> decode_error + 'a) \<Rightarrow> reply \<Rightarrow>
   http_request list \<times> (transport_error + 'a)" where
  "execute cal uc base o1 schema r =
     (case build_request uc base o1 of
        Inl e \<Rightarrow> ([], Inl e)
      | Inr request \<Rightarrow> ([request], handle_reply cal (eo_expected_request_id o1) schema r))"

section \<open>Lemmas\<close>

lemma handle_reply_Inr:
  "handle_reply cal expected schema r = Inr x \<Longrightarrow>
   \<exists>status v. r = Reply status (JsonBody v) \<and> 200 \<le> status \<and> status \<le> 299 \<and> schema v = Inr x \<and>
     check_request_id_echo v expected = Inr ()"
  by (auto simp: handle_reply_def Let_def split: reply.splits reply_body.splits if_splits sum.splits)

lemma handle_reply_server:
  "handle_reply cal expected schema r = Inl (ServerError status e) \<Longrightarrow>
   \<exists>v. r = Reply status (JsonBody v) \<and> \<not> (200 \<le> status \<and> status \<le> 299) \<and>
     decode_error_envelope cal v = Inr e \<and> check_request_id_echo v expected = Inr ()"
  by (auto simp: handle_reply_def check_request_id_echo_def Let_def
      split: reply.splits reply_body.splits if_splits sum.splits option.splits)

text \<open>
  The replies whose failure is safe to retry at once: no reply; an empty body, of any status; a 2xx body
  that is no JSON, does not decode or does not echo the request; an error envelope that does not echo the
  request, of any other status; and, of a 5xx only, an envelope marked retryable or a body that is no
  envelope at all.
\<close>

definition retry_worthy ::
  "calendar \<Rightarrow> rstr option \<Rightarrow> (json \<Rightarrow> decode_error + 'a) \<Rightarrow> reply \<Rightarrow> bool" where
  "retry_worthy cal expected schema r \<longleftrightarrow>
     r = NetworkFailure \<or>
     (\<exists>status body. r = Reply status body \<and>
        (let accepted = (200 \<le> status \<and> status \<le> 299); server = (500 \<le> status \<and> status \<le> 599);
             echoed = (\<lambda>v. check_request_id_echo v expected = Inr ())
         in body = EmptyBody \<or> body = NotJson \<and> (accepted \<or> server) \<or>
            (\<exists>v. body = JsonBody v \<and>
               (if accepted then \<not> is_ok (schema v) \<or> \<not> echoed v
                else case decode_error_envelope cal v of
                       Inr e \<Rightarrow> \<not> echoed v \<or> server \<and> ed_retryable (ee_error e)
                     | Inl _ \<Rightarrow> server \<and> \<not> is_ok (decode_pairing_error_envelope v)))))"

lemma check_request_id_echo_cases:
  "check_request_id_echo v expected = Inr () \<or> check_request_id_echo v expected = Inl RequestIdMismatch"
  by (simp add: check_request_id_echo_def Let_def split: option.split)

lemma retry_worthy_iff:
  "retry_worthy cal expected schema r \<longleftrightarrow>
     (\<exists>e. handle_reply cal expected schema r = Inl e \<and> is_safe_for_immediate_idempotent_retry e)"
proof (cases r)
  case (Reply status body)
  then show ?thesis
  proof (cases body)
    case (JsonBody v)
    then show ?thesis using Reply check_request_id_echo_cases [of v expected]
      by (cases "200 \<le> status \<and> status \<le> 299"; cases "schema v"; cases "decode_error_envelope cal v";
          cases "decode_pairing_error_envelope v")
        (auto simp: retry_worthy_def handle_reply_def is_ok_iff)
  qed (auto simp: retry_worthy_def handle_reply_def)
qed (simp add: retry_worthy_def handle_reply_def)

lemma execute_requests: "length (fst (execute cal uc base o1 schema r)) \<le> 1"
  by (simp add: execute_def split: sum.splits)

lemma accepted_sequence_bounded:
  "snd (execute cal uc base o1 schema r) = Inl e \<Longrightarrow> accepted_sequence_of e = Some n \<Longrightarrow>
   n \<le> MAXIMUM_SAFE_WIRE_INTEGER"
  by (cases e)
    (auto simp: execute_def build_request_def Let_def dest!: handle_reply_server decode_error_envelope_accepted
      split: sum.splits option.splits if_splits)

section \<open>Properties\<close>

text \<open>
  C40: plain HTTP only to the local machine. An accepted server configuration uses HTTPS, or
  HTTP with a host that is \<open>localhost\<close>, the IPv6 loopback address, or four decimal octets of
  which the first is 127; it carries no credentials, no query and no fragment.
\<close>

theorem configuration_is_safe:
  assumes "server_configuration u uc base = Inr url"
  shows "(u_scheme url = lit ''https'' \<or>
      u_scheme url = lit ''http'' \<and>
      (\<exists>host. (u_host url = Some host \<or> u_host url = None \<and> host = []) \<and>
        (lowercase u host \<in> {lit ''localhost'', lit ''::1'', lit ''[::1]''} \<or>
         (\<exists>b c d. lowercase u host = str_join 46 [lit ''127'', b, c, d] \<and> list_all octet_ok [b, c, d])))) \<and>
    u_username url = [] \<and> \<not> non_empty (u_password url) \<and> \<not> non_empty (u_query url) \<and>
    \<not> non_empty (u_fragment url) \<and> url_parse uc base = Some url"
proof -
  have loop: "lowercase u host \<in> {lit ''localhost'', lit ''::1'', lit ''[::1]''} \<or>
      (\<exists>b c d. lowercase u host = str_join 46 [lit ''127'', b, c, d] \<and> list_all octet_ok [b, c, d])"
    if "is_loopback_host u host" for host
  proof (cases "lowercase u host \<in> {lit ''localhost'', lit ''::1'', lit ''[::1]''}")
    case False
    let ?p = "str_split 46 (lowercase u host)"
    have p: "length ?p = 4" "?p ! 0 = lit ''127''" "list_all octet_ok ?p"
      using that False by (auto simp: is_loopback_host_def Let_def split: if_splits)
    then obtain a b c d where abcd: "?p = [a, b, c, d]"
      by (auto simp: numeral_eq_Suc length_Suc_conv)
    then have "lowercase u host = str_join 46 [a, b, c, d]" by (metis str_join_split)
    with p abcd show ?thesis by auto
  qed simp
  have "url_parse uc base = Some url" "u_username url = []" "\<not> non_empty (u_password url)"
    "\<not> non_empty (u_query url)" "\<not> non_empty (u_fragment url)"
    and s: "u_scheme url = lit ''https'' \<or> u_scheme url = lit ''http'' \<and>
      is_loopback_host u (case u_host url of None \<Rightarrow> [] | Some h \<Rightarrow> h)"
    using assms by (auto simp: server_configuration_def Let_def split: option.splits if_splits)
  moreover have "\<exists>host. (u_host url = Some host \<or> u_host url = None \<and> host = []) \<and>
        (lowercase u host \<in> {lit ''localhost'', lit ''::1'', lit ''[::1]''} \<or>
         (\<exists>b c d. lowercase u host = str_join 46 [lit ''127'', b, c, d] \<and> list_all octet_ok [b, c, d]))"
    if "is_loopback_host u (case u_host url of None \<Rightarrow> [] | Some h \<Rightarrow> h)"
    using loop [OF that] by (intro exI [of _ "case u_host url of None \<Rightarrow> [] | Some h \<Rightarrow> h"])
      (auto split: option.splits)
  ultimately show ?thesis by blast
qed

definition sample_url :: "string \<Rightarrow> string \<Rightarrow> url" where
  "sample_url scheme host =
     \<lparr>u_scheme = lit scheme, u_host = Some (lit host), u_username = [], u_password = None,
      u_path = lit ''/'', u_query = None, u_fragment = None, u_rest = []\<rparr>"

definition sample_crate :: url_crate where
  "sample_crate =
     \<lparr>url_parse = (\<lambda>s. if s = lit ''http://127.0.0.1/'' then Some (sample_url ''http'' ''127.0.0.1'')
                      else if s = lit ''http://example.org/'' then Some (sample_url ''http'' ''example.org'')
                      else None),
      url_to_string = (\<lambda>u. u_scheme u @ lit ''://'' @ (case u_host u of None \<Rightarrow> [] | Some h \<Rightarrow> h) @ u_path u),
      url_set_path = (\<lambda>u p. u\<lparr>u_path := p\<rparr>)\<rparr>"

lemma sample_server: "server_configuration ascii_unicode sample_crate (lit ''http://127.0.0.1/'') =
    Inr (sample_url ''http'' ''127.0.0.1'')"
  by (simp add: server_configuration_def sample_crate_def sample_url_def is_loopback_host_def
      ascii_unicode_def ascii_lower_char_def lit_def octet_ok_def utf8_def ascii_digit_def non_empty_def
      del: lit_eq_iff)

lemma configuration_is_safe_witness:
  "server_configuration ascii_unicode sample_crate (lit ''http://127.0.0.1/'') =
     Inr (sample_url ''http'' ''127.0.0.1'') \<and>
   \<not> is_ok (server_configuration ascii_unicode sample_crate (lit ''http://example.org/'')) \<and>
   u_username (sample_url ''http'' ''127.0.0.1'') = []"
proof -
  have ok: "server_configuration ascii_unicode sample_crate (lit ''http://127.0.0.1/'') =
      Inr (sample_url ''http'' ''127.0.0.1'')"
    and bad: "\<not> is_ok (server_configuration ascii_unicode sample_crate (lit ''http://example.org/''))"
    by (simp_all add: server_configuration_def sample_crate_def sample_url_def is_loopback_host_def
        ascii_unicode_def ascii_lower_char_def lit_def octet_ok_def utf8_def ascii_digit_def non_empty_def
        del: lit_eq_iff)
  from configuration_is_safe [OF ok] ok bad show ?thesis by blast
qed

text \<open>
  What leaves the process. An attempt sends at most one request, none at all when the body
  exceeds the cap, and the bytes given; the token and the version header go out exactly with a
  credential, so the capabilities request is unauthenticated. A result is accepted only from a
  2xx JSON reply that satisfies the schema and echoes the expected request id, and a server
  error envelope only with that echo.
\<close>

theorem execute_spec:
  assumes "execute cal uc base o1 schema r = (sent, result)"
  shows "length sent \<le> 1 \<and>
    (\<forall>q \<in> set sent. rq_body q = eo_encoded_body o1 \<and>
       (\<forall>bytes. eo_encoded_body o1 = Some bytes \<longrightarrow> length bytes \<le> payload_limit o1) \<and>
       (rq_authorization q = None \<longleftrightarrow> eo_credential o1 = None) \<and>
       (rq_version q = None \<longleftrightarrow> eo_credential o1 = None)) \<and>
    (sent = [] \<longrightarrow> (\<exists>a. result = Inl (PayloadTooLarge a (payload_limit o1)) \<and> payload_limit o1 < a)) \<and>
    (\<forall>x. result = Inr x \<longrightarrow>
       (\<exists>status v. r = Reply status (JsonBody v) \<and> 200 \<le> status \<and> status \<le> 299 \<and> schema v = Inr x \<and>
          check_request_id_echo v (eo_expected_request_id o1) = Inr ())) \<and>
    (\<forall>status e. result = Inl (ServerError status e) \<longrightarrow>
       (\<exists>v. r = Reply status (JsonBody v) \<and> check_request_id_echo v (eo_expected_request_id o1) = Inr ()))"
proof (cases "build_request uc base o1")
  case (Inl e)
  then show ?thesis using assms
    by (auto simp: execute_def build_request_def Let_def split: option.splits if_splits)
next
  case (Inr q)
  then have sr: "sent = [q]" "result = handle_reply cal (eo_expected_request_id o1) schema r"
    using assms by (simp_all add: execute_def)
  have q: "rq_body q = eo_encoded_body o1 \<and>
       (\<forall>bytes. eo_encoded_body o1 = Some bytes \<longrightarrow> length bytes \<le> payload_limit o1) \<and>
       (rq_authorization q = None \<longleftrightarrow> eo_credential o1 = None) \<and>
       (rq_version q = None \<longleftrightarrow> eo_credential o1 = None)"
    using Inr by (auto simp: build_request_def Let_def split: option.splits if_splits)
  show ?thesis
    using q handle_reply_Inr handle_reply_server unfolding sr by fastforce
qed

definition capabilities_options :: execute_options where
  "capabilities_options =
     \<lparr>eo_method = Get, eo_path = lit ''/companion/capabilities'', eo_credential = None,
      eo_expected_request_id = None, eo_maximum_payload_bytes = None, eo_encoded_body = None\<rparr>"

lemma execute_spec_witness:
  "\<exists>q. execute epoch_calendar sample_crate (sample_url ''http'' ''127.0.0.1'') capabilities_options de_bool
      (Reply 200 (JsonBody (JBool True))) = ([q], Inr True) \<and>
     rq_authorization q = None \<and> u_path (rq_url q) = lit ''/companion/capabilities''"
proof -
  let ?e = "execute epoch_calendar sample_crate (sample_url ''http'' ''127.0.0.1'') capabilities_options de_bool
      (Reply 200 (JsonBody (JBool True)))"
  obtain q where q: "?e = ([q], Inr True)" and u: "u_path (rq_url q) = lit ''/companion/capabilities''"
    by (simp add: execute_def build_request_def capabilities_options_def handle_reply_def
        check_request_id_echo_def endpoint_def sample_crate_def sample_url_def strip_slash_def lit_def)
  from execute_spec [OF q] have "rq_authorization q = None"
    by (simp add: capabilities_options_def)
  with q u show ?thesis by blast
qed

end
