(* ===== verification/Presence_Client.thy ===== *)
theory Presence_Client
  imports Sequence_Store Transport Dto_Mapper
begin

text \<open>
  The ordered presence writer (\<open>core/src/companion/presence_client.rs\<close>). The FIFO send slot
  makes a whole mutation (reserve, map, guard, send with at most one retry, reconcile) one
  critical section, so a mutation is one step over the durable sequence state and a history of
  a client is a list of mutations. What the outside decides is one record per mutation: the
  storage faults, the fresh request id, and the network's answer to each of the two attempts.
\<close>

datatype client_error =
    CWire wire_error | CSequencer sequencer_error | CTransport transport_error

fun client_retry_safe :: "client_error \<Rightarrow> bool" where
  "client_retry_safe (CTransport e) = is_safe_for_immediate_idempotent_retry e"
| "client_retry_safe _ = False"

fun client_needs_renegotiation :: "client_error \<Rightarrow> bool" where
  "client_needs_renegotiation (CTransport e) = needs_renegotiation e"
| "client_needs_renegotiation _ = False"

fun client_accepted_sequence :: "client_error \<Rightarrow> nat option" where
  "client_accepted_sequence (CTransport e) = accepted_sequence_of e"
| "client_accepted_sequence _ = None"

record presence_client =
  pcl_base :: url
  pcl_credential :: companion_credential
  pcl_sequencer :: sequencer
  pcl_configuration :: negotiated_configuration

record outside =
  out_uuid :: rstr
  out_reserve_fault :: seq_fault
  out_reply1 :: reply
  out_fault1 :: seq_fault
  out_reply2 :: reply
  out_fault2 :: seq_fault

text \<open>No load of the sequence file fails during the mutation.\<close>

definition loads_read :: "outside \<Rightarrow> bool" where
  "loads_read out \<longleftrightarrow> sf_loads (out_reserve_fault out) \<and> sf_loads (out_fault1 out) \<and> sf_loads (out_fault2 out)"

record surroundings =
  env_calendar :: calendar
  env_url :: url_crate
  env_to_vec :: "json \<Rightarrow> u8 list"

definition client_options :: "presence_client \<Rightarrow> make_request_options" where
  "client_options c =
     \<lparr>mo_device_id = cred_device_id (pcl_credential c),
      mo_lease_min_seconds = lease_min_seconds (pcl_configuration c),
      mo_lease_max_seconds = lease_max_seconds (pcl_configuration c)\<rparr>"

definition assert_device_matches :: "presence_client \<Rightarrow> rstr \<Rightarrow> client_error + unit" where
  "assert_device_matches c device =
     (if device \<noteq> cred_device_id (pcl_credential c) then Inl (CTransport CredentialDeviceMismatch)
      else Inr ())"

definition attempt_options ::
  "presence_client \<Rightarrow> http_method \<Rightarrow> string \<Rightarrow> rstr \<Rightarrow> u8 list \<Rightarrow> execute_options" where
  "attempt_options c meth path request_id bytes =
     \<lparr>eo_method = meth, eo_path = lit path, eo_credential = Some (pcl_credential c),
      eo_expected_request_id = Some request_id,
      eo_maximum_payload_bytes = Some (maximum_payload_bytes (pcl_configuration c)),
      eo_encoded_body = Some bytes\<rparr>"

section \<open>The mutation over an arbitrary sequence store\<close>

definition reconcile_from_error ::
  "'s load_fn \<Rightarrow> 's store_fn \<Rightarrow> sequencer \<Rightarrow> seq_fault \<Rightarrow> transport_error \<Rightarrow> 's \<Rightarrow> (sequencer_error + unit) \<times> 's"
where
  "reconcile_from_error load store q flt e s =
     (case accepted_sequence_of e of
        Some accepted \<Rightarrow> reconcile load store q flt accepted s
      | None \<Rightarrow> (Inr (), s))"

text \<open>Reconcile after a success; the response is returned only if that is durable.\<close>

definition settle ::
  "'s load_fn \<Rightarrow> 's store_fn \<Rightarrow> sequencer \<Rightarrow> seq_fault \<Rightarrow> mutation_response \<Rightarrow> 's \<Rightarrow>
   (client_error + mutation_response) \<times> 's" where
  "settle load store q flt response s =
     (case reconcile load store q flt (md_accepted_sequence (mr_data response)) s of
        (Inl e, s') \<Rightarrow> (Inl (CSequencer e), s')
      | (Inr _, s') \<Rightarrow> (Inr response, s'))"

definition perform_with_single_retry ::
  "'s load_fn \<Rightarrow> 's store_fn \<Rightarrow> surroundings \<Rightarrow> presence_client \<Rightarrow> outside \<Rightarrow> http_method \<Rightarrow> string \<Rightarrow>
   rstr \<Rightarrow> u8 list \<Rightarrow> 's \<Rightarrow> http_request list \<times> (client_error + mutation_response) \<times> 's" where
  "perform_with_single_retry load store env c out meth path request_id bytes s =
     (let q = pcl_sequencer c;
          attempt = (\<lambda>r. execute (env_calendar env) (env_url env) (pcl_base c)
                           (attempt_options c meth path request_id bytes)
                           (decode_mutation_response (env_calendar env)) r)
      in case attempt (out_reply1 out) of
           (sent1, Inr response) \<Rightarrow> (sent1, settle load store q (out_fault1 out) response s)
         | (sent1, Inl error) \<Rightarrow>
             (case reconcile_from_error load store q (out_fault1 out) error s of
                (Inl e, s1) \<Rightarrow> (sent1, Inl (CSequencer e), s1)
              | (Inr _, s1) \<Rightarrow>
                  if \<not> is_safe_for_immediate_idempotent_retry error
                  then (sent1, Inl (CTransport error), s1)
                  else
                    (case attempt (out_reply2 out) of
                       (sent2, Inr response) \<Rightarrow>
                         (sent1 @ sent2, settle load store q (out_fault2 out) response s1)
                     | (sent2, Inl retry_error) \<Rightarrow>
                         (case reconcile_from_error load store q (out_fault2 out) retry_error s1 of
                            (Inl e, s2) \<Rightarrow> (sent1 @ sent2, Inl (CSequencer e), s2)
                          | (Inr _, s2) \<Rightarrow> (sent1 @ sent2, Inl (CTransport retry_error), s2)))))"

definition replace_presence ::
  "'s load_fn \<Rightarrow> 's store_fn \<Rightarrow> surroundings \<Rightarrow> presence_client \<Rightarrow> outside \<Rightarrow> sanitized_snapshot \<Rightarrow>
   f64 \<Rightarrow> 's \<Rightarrow> http_request list \<times> (client_error + mutation_response) \<times> 's" where
  "replace_presence load store env c out snapshot requested s =
     (case reserve load store (pcl_sequencer c) (out_reserve_fault out) s of
        (Inl e, s1) \<Rightarrow> ([], Inl (CSequencer e), s1)
      | (Inr sequence, s1) \<Rightarrow>
          (case make_presence_request (env_calendar env) (out_uuid out) snapshot sequence requested
                  (client_options c) of
             Inl e \<Rightarrow> ([], Inl (CWire e), s1)
           | Inr mapped \<Rightarrow>
               (case assert_device_matches c (rm_device_id (pr_meta (mapped_body mapped))) of
                  Inl e \<Rightarrow> ([], Inl e, s1)
                | Inr _ \<Rightarrow>
                    perform_with_single_retry load store env c out Put ''/companion/presence''
                      (mapped_request_id mapped)
                      (env_to_vec env (en_presence_request (mapped_body mapped))) s1)))"

definition clear_presence ::
  "'s load_fn \<Rightarrow> 's store_fn \<Rightarrow> surroundings \<Rightarrow> presence_client \<Rightarrow> outside \<Rightarrow> clear_reason \<Rightarrow> epoch_ms \<Rightarrow>
   's \<Rightarrow> http_request list \<times> (client_error + mutation_response) \<times> 's" where
  "clear_presence load store env c out reason observed_at_ms s =
     (case reserve load store (pcl_sequencer c) (out_reserve_fault out) s of
        (Inl e, s1) \<Rightarrow> ([], Inl (CSequencer e), s1)
      | (Inr sequence, s1) \<Rightarrow>
          (case make_clear_request (env_calendar env) (out_uuid out) reason sequence observed_at_ms
                  (client_options c) of
             Inl e \<Rightarrow> ([], Inl (CWire e), s1)
           | Inr mapped \<Rightarrow>
               (case assert_device_matches c (rm_device_id (cr_meta (mapped_body mapped))) of
                  Inl e \<Rightarrow> ([], Inl e, s1)
                | Inr _ \<Rightarrow>
                    perform_with_single_retry load store env c out Post ''/companion/presence/clear''
                      (mapped_request_id mapped)
                      (env_to_vec env (en_clear_request (mapped_body mapped))) s1)))"

section \<open>Histories of one client\<close>

datatype mutation = Replace sanitized_snapshot f64 | ClearM clear_reason epoch_ms

fun run_mutation ::
  "'s load_fn \<Rightarrow> 's store_fn \<Rightarrow> surroundings \<Rightarrow> presence_client \<Rightarrow> mutation \<times> outside \<Rightarrow> 's \<Rightarrow>
   http_request list \<times> (client_error + mutation_response) \<times> 's" where
  "run_mutation load store env c (Replace snap lease, out) s =
     replace_presence load store env c out snap lease s"
| "run_mutation load store env c (ClearM reason t, out) s =
     clear_presence load store env c out reason t s"

text \<open>The meta and the JSON body of the request a mutation maps, for a given sequence.\<close>

fun mutation_request ::
  "surroundings \<Rightarrow> presence_client \<Rightarrow> mutation \<times> outside \<Rightarrow> nat \<Rightarrow>
   wire_error + presence_request_meta \<times> json" where
  "mutation_request env c (Replace snap lease, out) n =
     rbind (make_presence_request (env_calendar env) (out_uuid out) snap n lease (client_options c))
       (\<lambda>m. Inr (pr_meta (mapped_body m), en_presence_request (mapped_body m)))"
| "mutation_request env c (ClearM reason t, out) n =
     rbind (make_clear_request (env_calendar env) (out_uuid out) reason n t (client_options c))
       (\<lambda>m. Inr (cr_meta (mapped_body m), en_clear_request (mapped_body m)))"

fun client_run ::
  "'s load_fn \<Rightarrow> 's store_fn \<Rightarrow> surroundings \<Rightarrow> presence_client \<Rightarrow> (mutation \<times> outside) list \<Rightarrow> 's \<Rightarrow>
   http_request list list \<times> 's" where
  "client_run load store env c [] s = ([], s)"
| "client_run load store env c (m # ms) s =
     (case run_mutation load store env c m s of
        (sent, _, s1) \<Rightarrow>
          case client_run load store env c ms s1 of (logs, t) \<Rightarrow> (sent # logs, t))"

section \<open>What is sent\<close>

lemma execute_sent: "fst (execute cal uc base o1 schema r) = fst (execute cal uc base o1 schema r')"
  by (simp add: execute_def split: sum.splits)

lemma execute_sent_cases:
  assumes "execute cal uc base (attempt_options c meth path rid bytes) schema r = (sent, res)"
  shows "sent = [] \<and> (\<exists>a b. res = Inl (PayloadTooLarge a b)) \<or>
    (\<exists>q. sent = [q] \<and> rq_body q = Some bytes \<and> rq_method q = meth \<and>
       rq_authorization q = Some (lit ''Bearer '' @ cred_device_token (pcl_credential c)))"
  using assms
  by (auto simp: execute_def build_request_def attempt_options_def Let_def split: if_splits)

text \<open>
  The same request at most twice: twice only after a reply that is worth it, and then always, unless the
  reconciliation after the first attempt fails.
\<close>

definition sent_with_one_retry ::
  "surroundings \<Rightarrow> outside \<Rightarrow> rstr \<Rightarrow> u8 list \<Rightarrow> http_request list \<Rightarrow> client_error + mutation_response \<Rightarrow> bool" where
  "sent_with_one_retry env out rid bytes sent r \<longleftrightarrow>
     (let worthy = retry_worthy (env_calendar env) (Some rid) (decode_mutation_response (env_calendar env)) (out_reply1 out)
      in \<exists>q. rq_body q = Some bytes \<and>
           (sent = [q] \<and> (\<not> worthy \<or> (\<exists>e. r = Inl (CSequencer e))) \<or> sent = [q, q] \<and> worthy))"

lemma sent_with_one_retry_bytes:
  "sent_with_one_retry env out rid bytes sent r \<Longrightarrow> length sent \<le> 2 \<and> (\<forall>q \<in> set sent. rq_body q = Some bytes)"
  by (auto simp: sent_with_one_retry_def Let_def)

lemma perform_sent:
  assumes "perform_with_single_retry load store env c out meth path rid bytes s = (sent, r, s')"
  shows "sent = [] \<or> sent_with_one_retry env out rid bytes sent r"
proof -
  let ?attempt = "execute (env_calendar env) (env_url env) (pcl_base c)
      (attempt_options c meth path rid bytes) (decode_mutation_response (env_calendar env))"
  obtain sent1 res1 where t1: "?attempt (out_reply1 out) = (sent1, res1)" by force
  obtain sent2 res2 where t2: "?attempt (out_reply2 out) = (sent2, res2)" by force
  have same: "sent2 = sent1" using t1 t2 execute_sent by (metis fst_conv)
  have sent: "sent = sent1 \<and> (\<not> (\<exists>e. res1 = Inl e \<and> is_safe_for_immediate_idempotent_retry e) \<or> (\<exists>e. r = Inl (CSequencer e))) \<or>
      sent = sent1 @ sent1 \<and> (\<exists>e. res1 = Inl e \<and> is_safe_for_immediate_idempotent_retry e)"
    using assms t1 t2 same
    by (auto simp: perform_with_single_retry_def Let_def split: sum.splits prod.splits if_splits)
  from execute_sent_cases [OF t1] show ?thesis
  proof (elim disjE exE conjE)
    assume "sent1 = []"
    then show ?thesis using sent by auto
  next
    fix q
    assume q: "sent1 = [q]" "rq_body q = Some bytes" "rq_method q = meth"
      "rq_authorization q = Some (lit ''Bearer '' @ cred_device_token (pcl_credential c))"
    have "res1 = handle_reply (env_calendar env) (Some rid)
        (decode_mutation_response (env_calendar env)) (out_reply1 out)"
      using t1 q(1) by (auto simp: execute_def attempt_options_def split: sum.splits)
    with sent q show ?thesis by (auto simp: sent_with_one_retry_def retry_worthy_iff Let_def)
  qed
qed

text \<open>A response comes from a 2xx reply to one of the attempts.\<close>

lemma execute_accepted:
  assumes "execute cal uc base o1 schema r = (sent, Inr x)"
  shows "sent \<noteq> []" and "\<exists>status v. r = Reply status (JsonBody v) \<and> 200 \<le> status \<and> status \<le> 299 \<and> schema v = Inr x"
  using assms handle_reply_Inr by (fastforce simp: execute_def split: sum.splits)+

lemma settle_Inr: "settle load store q flt m s = (Inr r, s') \<Longrightarrow> m = r"
  by (auto simp: settle_def split: prod.splits sum.splits)

lemma perform_accepted_reply:
  assumes "perform_with_single_retry load store env c out meth path rid bytes s = (sent, Inr resp, s')"
  shows "sent \<noteq> [] \<and> (\<exists>status v. Reply status (JsonBody v) \<in> {out_reply1 out, out_reply2 out} \<and>
       200 \<le> status \<and> status \<le> 299 \<and> decode_mutation_response (env_calendar env) v = Inr resp)"
proof -
  let ?attempt = "execute (env_calendar env) (env_url env) (pcl_base c)
      (attempt_options c meth path rid bytes) (decode_mutation_response (env_calendar env))"
  obtain sent1 res1 where t1: "?attempt (out_reply1 out) = (sent1, res1)" by force
  obtain sent2 res2 where t2: "?attempt (out_reply2 out) = (sent2, res2)" by force
  have "res1 = Inr resp \<and> sent = sent1 \<or> res2 = Inr resp \<and> sent = sent1 @ sent2"
    using assms t1 t2
    by (auto simp: perform_with_single_retry_def Let_def split: sum.splits prod.splits if_splits
        dest: settle_Inr)
  then show ?thesis
    using execute_accepted [of "env_calendar env" "env_url env" "pcl_base c"] t1 t2 by fastforce
qed

lemma run_mutation_performs:
  assumes "run_mutation load store env c (mu, out) s = (sent, Inr resp, s')"
  obtains meth path rid bytes s1 where
    "perform_with_single_retry load store env c out meth path rid bytes s1 = (sent, Inr resp, s')"
  using assms
  by (cases mu) (auto simp: replace_presence_def clear_presence_def split: sum.splits prod.splits)

section \<open>Lemmas over the sequence store contract\<close>

context sequence_backing
begin

lemma reconcile_from_error_mono:
  assumes "reconcile_from_error load store q flt e s = (r, s')" and "sf_loads flt"
  shows "current_next load True q s \<le> current_next load True q s'"
proof (cases "accepted_sequence_of e")
  case None
  then show ?thesis using assms by (simp add: reconcile_from_error_def)
next
  case (Some n)
  then have "s' = snd (reconcile load store q flt n s)" using assms by (simp add: reconcile_from_error_def)
  then show ?thesis using assms(2) by (simp add: reconcile_mono)
qed

lemma settle_cases:
  assumes "settle load store q flt m s = (r, s')"
  obtains r' where "reconcile load store q flt (md_accepted_sequence (mr_data m)) s = (r', s')"
    and "is_ok r' \<longleftrightarrow> r = Inr m"
  using assms by (cases "fst (reconcile load store q flt (md_accepted_sequence (mr_data m)) s)")
    (auto simp: settle_def split: prod.splits sum.splits)

lemma settle_mono:
  assumes "settle load store q flt m s = (r, s')" and "sf_loads flt"
  shows "current_next load True q s \<le> current_next load True q s'"
proof -
  obtain r' where "reconcile load store q flt (md_accepted_sequence (mr_data m)) s = (r', s')"
    using settle_cases [OF assms(1)] .
  with reconcile_mono [OF assms(2), of q s "md_accepted_sequence (mr_data m)"] show ?thesis by simp
qed

lemma perform_mono:
  assumes "perform_with_single_retry load store env c out meth path rid bytes s = (sent, r, s')"
    and reads: "loads_read out"
  shows "current_next load True (pcl_sequencer c) s \<le> current_next load True (pcl_sequencer c) s'"
proof -
  let ?q = "pcl_sequencer c"
  have l: "sf_loads (out_fault1 out)" "sf_loads (out_fault2 out)" using reads by (simp_all add: loads_read_def)
  let ?attempt = "execute (env_calendar env) (env_url env) (pcl_base c)
      (attempt_options c meth path rid bytes) (decode_mutation_response (env_calendar env))"
  obtain sent1 res1 where t1: "?attempt (out_reply1 out) = (sent1, res1)" by force
  obtain sent2 res2 where t2: "?attempt (out_reply2 out) = (sent2, res2)" by force
  show ?thesis
  proof (cases res1)
    case (Inr m)
    then have "settle load store ?q (out_fault1 out) m s = (r, s')"
      using assms t1 by (simp add: perform_with_single_retry_def Let_def)
    then show ?thesis using l(1) by (rule settle_mono)
  next
    case (Inl e)
    obtain r1 s1 where r1: "reconcile_from_error load store ?q (out_fault1 out) e s = (r1, s1)" by force
    note m1 = reconcile_from_error_mono [OF r1 l(1)]
    show ?thesis
    proof (cases "s' = s1")
      case False
      have t: "sent1 = sent2" using t1 t2 execute_sent by (metis fst_conv)
      obtain x where x: "r1 = Inr x"
        using assms t1 r1 Inl False by (cases r1) (auto simp: perform_with_single_retry_def Let_def)
      show ?thesis
      proof (cases res2)
        case (Inr m)
        then have "settle load store ?q (out_fault2 out) m s1 = (r, s')"
          using assms t1 t2 r1 x Inl False
          by (simp add: perform_with_single_retry_def Let_def split: if_splits)
        from settle_mono [OF this l(2)] m1 show ?thesis by simp
      next
        case (Inl e2)
        obtain r2 s2 where r2: "reconcile_from_error load store ?q (out_fault2 out) e2 s1 = (r2, s2)" by force
        have "s2 = s'"
          using assms t1 t2 r1 x \<open>res1 = Inl e\<close> Inl r2 False
          by (cases r2) (auto simp: perform_with_single_retry_def Let_def split: if_splits)
        with reconcile_from_error_mono [OF r2 l(2)] m1 show ?thesis by simp
      qed
    qed (simp add: m1)
  qed
qed

text \<open>The part both mutations share: reserve, map, guard, perform.\<close>

lemma perform_accepted:
  assumes "perform_with_single_retry load store env c out meth path rid bytes s = (sent, Inr m, s')"
    and "md_accepted_sequence (mr_data m) < MAXIMUM_SAFE_WIRE_INTEGER"
  shows "md_accepted_sequence (mr_data m) < current_next load True (pcl_sequencer c) s'"
proof -
  have "\<exists>flt s1. reconcile load store (pcl_sequencer c) flt (md_accepted_sequence (mr_data m)) s1 = (Inr (), s')"
    using assms(1)
    by (auto simp: perform_with_single_retry_def settle_def Let_def
        split: sum.splits prod.splits if_splits)
  then obtain flt s1 where
    "reconcile load store (pcl_sequencer c) flt (md_accepted_sequence (mr_data m)) s1 = (Inr (), s')"
    by blast
  from reconcile_past [OF this assms(2)] show ?thesis .
qed

text \<open>
  A mutation consumes at most one sequence, the one its reservation gave; that has persisted its successor
  before anything is sent, and what is sent is the bytes of the request mapped for it. When the loads
  read, that sequence was the stored next one, and the stored next one ends up past it.
\<close>

definition mutation_spec ::
  "surroundings \<Rightarrow> presence_client \<Rightarrow> mutation \<times> outside \<Rightarrow> 's \<Rightarrow> http_request list \<Rightarrow>
   client_error + mutation_response \<Rightarrow> 's \<Rightarrow> bool" where
  "mutation_spec env c m s sent r s' \<longleftrightarrow>
     (loads_read (snd m) \<longrightarrow> current_next load True (pcl_sequencer c) s \<le> current_next load True (pcl_sequencer c) s') \<and>
     (sent = [] \<or>
       (\<exists>n s1 meta body. reserve load store (pcl_sequencer c) (out_reserve_fault (snd m)) s = (Inr n, s1) \<and>
          current_next load True (pcl_sequencer c) s1 = n + 1 \<and>
          mutation_request env c m n = Inr (meta, body) \<and> rm_sequence meta = n \<and>
          rm_device_id meta = cred_device_id (pcl_credential c) \<and>
          (loads_read (snd m) \<longrightarrow> n = current_next load True (pcl_sequencer c) s \<and>
             n < current_next load True (pcl_sequencer c) s') \<and>
          sent_with_one_retry env (snd m) (rm_request_id meta) (env_to_vec env body) sent r))"

lemma mutation_spec_perform:
  assumes "reserve load store (pcl_sequencer c) (out_reserve_fault (snd m)) s = (Inr n, s1)"
    and "mutation_request env c m n = Inr (meta, body)"
    and "rm_sequence meta = n" and "rm_device_id meta = cred_device_id (pcl_credential c)"
    and "perform_with_single_retry load store env c (snd m) meth path (rm_request_id meta)
      (env_to_vec env body) s1 = (sent, r, s')"
  shows "mutation_spec env c m s sent r s'"
proof -
  note res = reserve_Inr [OF assms(1)]
  have order: "n = current_next load True (pcl_sequencer c) s \<and> n < current_next load True (pcl_sequencer c) s'"
    if "loads_read (snd m)"
    using that res perform_mono [OF assms(5)] by (auto simp: loads_read_def)
  then show ?thesis using perform_sent [OF assms(5)] assms(1-4) res(2) unfolding mutation_spec_def by auto
qed

lemma run_mutation_spec:
  assumes "run_mutation load store env c m s = (sent, r, s')"
  shows "mutation_spec env c m s sent r s'"
proof -
  obtain mu out where m: "m = (mu, out)" by (cases m)
  obtain r1 s1 where r1: "reserve load store (pcl_sequencer c) (out_reserve_fault out) s = (r1, s1)" by force
  have mono: "current_next load True (pcl_sequencer c) s \<le> current_next load True (pcl_sequencer c) s1" if "loads_read out"
    using reserve_mono [OF r1] that by (simp add: loads_read_def)
  show ?thesis
  proof (cases r1)
    case (Inl e)
    then show ?thesis using assms r1 mono
      by (cases mu) (auto simp: m replace_presence_def clear_presence_def mutation_spec_def)
  next
    case n: (Inr n)
    show ?thesis
    proof (cases "mutation_request env c m n")
      case (Inl e)
      then show ?thesis using assms r1 n mono
        by (cases mu) (auto simp: m replace_presence_def clear_presence_def mutation_spec_def)
    next
      case (Inr mb)
      obtain meta body where mb: "mb = (meta, body)" by force
      have ids: "rm_sequence meta = n" "rm_device_id meta = cred_device_id (pcl_credential c)"
        using Inr by (cases mu; auto simp: m mb client_options_def dest: presence_request_ids clear_request_ids)+
      have "\<exists>meth path. perform_with_single_retry load store env c out meth path (rm_request_id meta)
          (env_to_vec env body) s1 = (sent, r, s')"
      proof (cases mu)
        case (Replace snap lease)
        obtain mapped where mapped: "make_presence_request (env_calendar env) (out_uuid out) snap n lease
            (client_options c) = Inr mapped" "meta = pr_meta (mapped_body mapped)"
            "body = en_presence_request (mapped_body mapped)"
          using Inr Replace by (auto simp: m mb)
        note ids = presence_request_ids [OF mapped(1)]
        show ?thesis
          using assms r1 n mapped ids
          by (auto simp: m Replace replace_presence_def assert_device_matches_def client_options_def)
      next
        case (ClearM reason t)
        obtain mapped where mapped: "make_clear_request (env_calendar env) (out_uuid out) reason n t
            (client_options c) = Inr mapped" "meta = cr_meta (mapped_body mapped)"
            "body = en_clear_request (mapped_body mapped)"
          using Inr ClearM by (auto simp: m mb)
        note ids = clear_request_ids [OF mapped(1)]
        show ?thesis
          using assms r1 n mapped ids
          by (auto simp: m ClearM clear_presence_def assert_device_matches_def client_options_def)
      qed
      then obtain meth path where "perform_with_single_retry load store env c (snd m) meth path
          (rm_request_id meta) (env_to_vec env body) s1 = (sent, r, s')"
        by (auto simp: m)
      then show ?thesis by (rule mutation_spec_perform [OF _ Inr [unfolded mb] ids, rotated]) (simp add: m r1 n)
    qed
  qed
qed

lemma client_run_spec:
  assumes "client_run load store env c ms s = (logs, t)" and "\<forall>m \<in> set ms. loads_read (snd m)"
  shows "length logs = length ms \<and>
    current_next load True (pcl_sequencer c) s \<le> current_next load True (pcl_sequencer c) t \<and>
    (\<exists>seqs. length seqs = length ms \<and> sorted seqs \<and>
      (\<forall>i < length ms. current_next load True (pcl_sequencer c) s \<le> seqs ! i \<and>
        (logs ! i \<noteq> [] \<longrightarrow>
          (\<forall>j < length ms. i < j \<longrightarrow> seqs ! i < seqs ! j) \<and>
          (\<exists>meta body. mutation_request env c (ms ! i) (seqs ! i) = Inr (meta, body) \<and>
            rm_sequence meta = seqs ! i \<and> length (logs ! i) \<le> 2 \<and>
            (\<forall>q \<in> set (logs ! i). rq_body q = Some (env_to_vec env body))))))"
  using assms
proof (induction ms arbitrary: s logs)
  case (Cons m ms)
  let ?n = "\<lambda>s. current_next load True (pcl_sequencer c) s"
  have reads: "loads_read (snd m)" "\<forall>m \<in> set ms. loads_read (snd m)" using Cons.prems(2) by simp_all
  obtain sent r s1 where r: "run_mutation load store env c m s = (sent, r, s1)" by (metis prod_cases3)
  obtain logs1 where l: "client_run load store env c ms s1 = (logs1, t)" and logs: "logs = sent # logs1"
    using Cons.prems r by (auto split: prod.splits)
  have spec: "?n s \<le> ?n s1 \<and> (sent = [] \<or> ?n s < ?n s1 \<and>
      (\<exists>meta body. mutation_request env c m (?n s) = Inr (meta, body) \<and> rm_sequence meta = ?n s \<and> length sent \<le> 2 \<and>
        (\<forall>q \<in> set sent. rq_body q = Some (env_to_vec env body))))"
    using run_mutation_spec [OF r] reads(1) unfolding mutation_spec_def
    by (cases "sent = []") (auto dest!: sent_with_one_retry_bytes)
  from Cons.IH [OF l reads(2)] obtain seqs where seqs: "length seqs = length ms" "sorted seqs"
    and ih: "\<forall>i < length ms. ?n s1 \<le> seqs ! i \<and>
        (logs1 ! i \<noteq> [] \<longrightarrow>
          (\<forall>j < length ms. i < j \<longrightarrow> seqs ! i < seqs ! j) \<and>
          (\<exists>meta body. mutation_request env c (ms ! i) (seqs ! i) = Inr (meta, body) \<and>
            rm_sequence meta = seqs ! i \<and> length (logs1 ! i) \<le> 2 \<and>
            (\<forall>q \<in> set (logs1 ! i). rq_body q = Some (env_to_vec env body))))"
    and len: "length logs1 = length ms" and t: "?n s1 \<le> ?n t"
    by blast
  have le: "?n s \<le> ?n s1" using spec by simp
  have lower: "\<forall>i < length ms. ?n s1 \<le> seqs ! i" using ih by blast
  have "sorted (?n s # seqs)"
    using seqs lower le by (fastforce simp: in_set_conv_nth)
  moreover have "\<forall>i < length (m # ms). ?n s \<le> (?n s # seqs) ! i \<and>
        (logs ! i \<noteq> [] \<longrightarrow>
          (\<forall>j < length (m # ms). i < j \<longrightarrow> (?n s # seqs) ! i < (?n s # seqs) ! j) \<and>
          (\<exists>meta body. mutation_request env c ((m # ms) ! i) ((?n s # seqs) ! i) = Inr (meta, body) \<and>
            rm_sequence meta = (?n s # seqs) ! i \<and> length (logs ! i) \<le> 2 \<and>
            (\<forall>q \<in> set (logs ! i). rq_body q = Some (env_to_vec env body))))"
  proof (intro allI impI)
    fix i assume i: "i < length (m # ms)"
    show "?n s \<le> (?n s # seqs) ! i \<and>
        (logs ! i \<noteq> [] \<longrightarrow>
          (\<forall>j < length (m # ms). i < j \<longrightarrow> (?n s # seqs) ! i < (?n s # seqs) ! j) \<and>
          (\<exists>meta body. mutation_request env c ((m # ms) ! i) ((?n s # seqs) ! i) = Inr (meta, body) \<and>
            rm_sequence meta = (?n s # seqs) ! i \<and> length (logs ! i) \<le> 2 \<and>
            (\<forall>q \<in> set (logs ! i). rq_body q = Some (env_to_vec env body))))"
    proof (cases i)
      case 0
      have "?n s < (?n s # seqs) ! j" if nz: "sent \<noteq> []" and jl: "j < length (m # ms)" and j0: "0 < j" for j
      proof -
        obtain k where "j = Suc k" using j0 by (cases j) auto
        moreover have "?n s < ?n s1" using spec nz by blast
        ultimately show ?thesis using jl lower by (auto intro: less_le_trans)
      qed
      then show ?thesis using spec unfolding 0 logs by fastforce
    next
      case (Suc k)
      then show ?thesis using ih i le unfolding logs by (auto simp: less_Suc_eq_0_disj intro: order_trans)
    qed
  qed
  ultimately show ?case
    using seqs len t le unfolding logs by (intro conjI exI [of _ "?n s # seqs"]) auto
qed simp

end

section \<open>Properties\<close>

text \<open>
  C9: the wire sees strictly increasing sequences. In every history of replace and clear mutations of a
  client over \<open>sequence.json\<close>, with arbitrary network answers and any step of any write failing, provided
  that the loads can read the file, each mutation sends at most two requests, all of them the bytes of the
  one request mapped for its sequence, and a mutation that sent anything used a sequence smaller than that
  of every later mutation.
\<close>

theorem mutation_sequences_increase:
  assumes "client_run (fss_load p) (fss_store p) env c ms d = (logs, d')"
    and "\<forall>m \<in> set ms. loads_read (snd m)"
  shows "\<exists>seqs. length logs = length ms \<and> length seqs = length ms \<and> sorted seqs \<and>
    (\<forall>i < length ms. logs ! i \<noteq> [] \<longrightarrow>
       (\<forall>j < length ms. i < j \<longrightarrow> seqs ! i < seqs ! j) \<and>
       (\<exists>meta body. mutation_request env c (ms ! i) (seqs ! i) = Inr (meta, body) \<and>
          rm_sequence meta = seqs ! i \<and> length (logs ! i) \<le> 2 \<and>
          (\<forall>q \<in> set (logs ! i). rq_body q = Some (env_to_vec env body))))"
  using file_seq.client_run_spec [OF assms] by blast

definition sample_env :: surroundings where
  "sample_env = \<lparr>env_calendar = epoch_calendar, env_url = sample_crate, env_to_vec = (\<lambda>_. [123, 125])\<rparr>"

definition sample_client :: presence_client where
  "sample_client =
     \<lparr>pcl_base = sample_url ''http'' ''127.0.0.1'',
      pcl_credential = \<lparr>cred_device_id = sample_uuid, cred_device_token = lit ''t''\<rparr>,
      pcl_sequencer = \<lparr>seq_device = sample_uuid, seq_floor = 7\<rparr>,
      pcl_configuration = \<lparr>supports_media_timeline = True, maximum_payload_bytes = 4096,
        requests_per_minute = 60, lease_min_seconds = 30, lease_max_seconds = 300,
        recommended_heartbeat_seconds = 60, maximum_clock_skew_seconds = 60\<rparr>\<rparr>"

text \<open>The first attempt meets an empty 503, the retry is accepted with sequence 41.\<close>

definition sample_outside :: outside where
  "sample_outside =
     \<lparr>out_uuid = sample_uuid, out_reserve_fault = no_seq_fault, out_reply1 = Reply 503 EmptyBody,
      out_fault1 = no_seq_fault, out_reply2 = Reply 200 (JsonBody (en_mutation_response sample_response)),
      out_fault2 = no_seq_fault\<rparr>"

lemma sample_loads_read: "loads_read sample_outside"
  by (simp add: loads_read_def sample_outside_def)

lemma sample_response_decodes:
  "decode_mutation_response epoch_calendar (en_mutation_response sample_response) = Inr sample_response"
  using de_mutation_response_en [OF sample_response_ok] sample_response_ok
  by (simp add: decode_mutation_response_def refine_response_meta_def mutation_ok_def meta_ok_def)

lemma sample_response_echo:
  "check_request_id_echo (en_mutation_response sample_response) (Some sample_uuid) = Inr ()"
  by (simp add: check_request_id_echo_def en_mutation_response_def en_response_meta_def json_get_def
      sample_response_def)

lemma sample_accepted: "md_accepted_sequence (mr_data sample_response) = 41"
  by (simp add: sample_response_def)

lemma sample_clear_run:
  "\<exists>q d'. run_mutation (fss_load (lit ''s'')) (fss_store (lit ''s'')) sample_env sample_client
     (ClearM CSleep 0, sample_outside) (\<lambda>_. None) = ([q, q], Inr sample_response, d')"
  using sample_response_decodes sample_response_echo
  by (simp add: clear_presence_def sample_env_def sample_client_def sample_outside_def
      reserve_def current_next_def fss_load_def fss_store_def read_json_object_def obj_of_members_def
      atomic_write_json_def sibling_with_suffix_def MAXIMUM_SAFE_WIRE_INTEGER_def
      make_clear_request_def make_meta_def client_options_def encode_epoch
      assert_device_matches_def perform_with_single_retry_def attempt_options_def
      execute_def build_request_def payload_limit_def handle_reply_def
      reconcile_from_error_def settle_def reconcile_def Let_def sample_uuid_valid sample_accepted)

lemma mutation_sequences_increase_witness:
  "\<exists>sent d'. client_run (fss_load (lit ''s'')) (fss_store (lit ''s'')) sample_env sample_client
      [(ClearM CSleep 0, sample_outside)] (\<lambda>_. None) = ([sent], d') \<and> length sent = 2 \<and>
    (\<exists>seqs meta body. length seqs = 1 \<and>
       mutation_request sample_env sample_client (ClearM CSleep 0, sample_outside) (hd seqs) = Inr (meta, body))"
proof -
  obtain q d' where r: "run_mutation (fss_load (lit ''s'')) (fss_store (lit ''s'')) sample_env sample_client
     (ClearM CSleep 0, sample_outside) (\<lambda>_. None) = ([q, q], Inr sample_response, d')"
    using sample_clear_run by blast
  then have c: "client_run (fss_load (lit ''s'')) (fss_store (lit ''s'')) sample_env sample_client
      [(ClearM CSleep 0, sample_outside)] (\<lambda>_. None) = ([[q, q]], d')"
    by simp
  from mutation_sequences_increase [OF c] sample_loads_read obtain seqs meta body where "length seqs = 1"
    "mutation_request sample_env sample_client (ClearM CSleep 0, sample_outside) (seqs ! 0) = Inr (meta, body)"
    by auto
  then show ?thesis using c by (metis One_nat_def hd_conv_nth length_Cons list.size(3) nat.simps(3) numeral_2_eq_2)
qed

text \<open>
  C24: reserve before send, one immediate retry at most. A mutation that sent anything carries the
  sequence its reservation gave, whose successor had been persisted by then, and sent one request, or the
  same request twice; twice exactly when the first reply was worth it, unless the reconciliation after it
  failed. A reply is worth a retry when it is missing or its body is empty, when a 2xx does not decode or
  does not echo the request, when any other status carries an error envelope that does not echo the
  request, and for a 5xx with a retryable envelope or none: of the 4xx only the empty ones and the
  envelopes that answer another request. Any other mutation sent nothing; and when the loads can read the
  file, the sequence is the stored next one, which ends up past it and never moves back.
\<close>

theorem mutation_retry_discipline:
  assumes "run_mutation (fss_load p) (fss_store p) env c (mu, out) d = (sent, r, d')"
  shows "(loads_read out \<longrightarrow>
       current_next (fss_load p) True (pcl_sequencer c) d \<le> current_next (fss_load p) True (pcl_sequencer c) d') \<and>
     (sent = [] \<or>
       (\<exists>n d1 meta body. reserve (fss_load p) (fss_store p) (pcl_sequencer c) (out_reserve_fault out) d = (Inr n, d1) \<and>
          current_next (fss_load p) True (pcl_sequencer c) d1 = n + 1 \<and>
          mutation_request env c (mu, out) n = Inr (meta, body) \<and> rm_sequence meta = n \<and>
          rm_device_id meta = cred_device_id (pcl_credential c) \<and>
          (loads_read out \<longrightarrow> n = current_next (fss_load p) True (pcl_sequencer c) d \<and>
             n < current_next (fss_load p) True (pcl_sequencer c) d') \<and>
          sent_with_one_retry env out (rm_request_id meta) (env_to_vec env body) sent r))"
  using file_seq.run_mutation_spec [OF assms] unfolding file_seq.mutation_spec_def snd_conv .

lemma mutation_retry_discipline_witness:
  "\<exists>q d'. run_mutation (fss_load (lit ''s'')) (fss_store (lit ''s'')) sample_env sample_client
     (ClearM CSleep 0, sample_outside) (\<lambda>_. None) = ([q, q], Inr sample_response, d') \<and>
     current_next (fss_load (lit ''s'')) True (pcl_sequencer sample_client) (\<lambda>_. None)
       < current_next (fss_load (lit ''s'')) True (pcl_sequencer sample_client) d'"
proof -
  obtain q d' where r: "run_mutation (fss_load (lit ''s'')) (fss_store (lit ''s'')) sample_env sample_client
     (ClearM CSleep 0, sample_outside) (\<lambda>_. None) = ([q, q], Inr sample_response, d')"
    using sample_clear_run by blast
  from mutation_retry_discipline [OF r] sample_loads_read
  have "current_next (fss_load (lit ''s'')) True (pcl_sequencer sample_client) (\<lambda>_. None)
       < current_next (fss_load (lit ''s'')) True (pcl_sequencer sample_client) d'"
    by auto
  with r show ?thesis by blast
qed

text \<open>
  The comment of the classification says that a 4xx is never retried; an empty 404 is, at once and with
  the same bytes.
\<close>

theorem empty_rejection_is_retried:
  "\<exists>q d'. run_mutation (fss_load (lit ''s'')) (fss_store (lit ''s'')) sample_env sample_client
     (ClearM CSleep 0, sample_outside\<lparr>out_reply1 := Reply 404 EmptyBody, out_reply2 := Reply 404 EmptyBody\<rparr>) (\<lambda>_. None) =
       ([q, q], Inl (CTransport (EmptyResponse 404)), d')"
  by (simp add: clear_presence_def sample_env_def sample_client_def sample_outside_def
      reserve_def current_next_def fss_load_def fss_store_def read_json_object_def obj_of_members_def
      atomic_write_json_def sibling_with_suffix_def MAXIMUM_SAFE_WIRE_INTEGER_def
      make_clear_request_def make_meta_def client_options_def encode_epoch
      assert_device_matches_def perform_with_single_retry_def attempt_options_def
      execute_def build_request_def payload_limit_def handle_reply_def
      reconcile_from_error_def Let_def sample_uuid_valid)

text \<open>
  C25: an accepted response is a real, durable acceptance. A mutation returns a response only
  from a 2xx reply to one of its two attempts that decodes to it with all refinements; and then
  the stored next sequence is already past the sequence the server accepted, whatever the reads and
  writes of the sequence file met, provided that sequence is below 2^53 - 1. For 2^53 - 1 itself, which
  decodes, there is no next one in the wire range, and the reconciliation leaves the file as it is.
\<close>

theorem accepted_mutation_reconciled:
  assumes "run_mutation (fss_load p) (fss_store p) env c (mu, out) d = (sent, Inr resp, d')"
  shows "sent \<noteq> [] \<and> mutation_ok (env_calendar env) resp \<and>
    (\<exists>status v. Reply status (JsonBody v) \<in> {out_reply1 out, out_reply2 out} \<and>
       200 \<le> status \<and> status \<le> 299 \<and> decode_mutation_response (env_calendar env) v = Inr resp) \<and>
    (md_accepted_sequence (mr_data resp) < MAXIMUM_SAFE_WIRE_INTEGER \<longrightarrow>
       md_accepted_sequence (mr_data resp) < current_next (fss_load p) True (pcl_sequencer c) d')"
proof -
  obtain meth path rid bytes s1 where p: "perform_with_single_retry (fss_load p) (fss_store p) env c out
      meth path rid bytes s1 = (sent, Inr resp, d')"
    by (rule run_mutation_performs [OF assms])
  from perform_accepted_reply [OF p] have "sent \<noteq> []"
    and reply: "\<exists>status v. Reply status (JsonBody v) \<in> {out_reply1 out, out_reply2 out} \<and>
       200 \<le> status \<and> status \<le> 299 \<and> decode_mutation_response (env_calendar env) v = Inr resp"
    by auto
  moreover have "mutation_ok (env_calendar env) resp" using reply decode_mutation_sound by blast
  ultimately show ?thesis using file_seq.perform_accepted [OF p] by simp
qed

lemma accepted_mutation_reconciled_witness:
  "\<exists>sent d'. run_mutation (fss_load (lit ''s'')) (fss_store (lit ''s'')) sample_env sample_client
     (ClearM CSleep 0, sample_outside) (\<lambda>_. None) = (sent, Inr sample_response, d') \<and>
     41 < current_next (fss_load (lit ''s'')) True (pcl_sequencer sample_client) d'"
proof -
  obtain q d' where r: "run_mutation (fss_load (lit ''s'')) (fss_store (lit ''s'')) sample_env sample_client
     (ClearM CSleep 0, sample_outside) (\<lambda>_. None) = ([q, q], Inr sample_response, d')"
    using sample_clear_run by blast
  from accepted_mutation_reconciled [OF r] r show ?thesis
    by (auto simp: sample_accepted MAXIMUM_SAFE_WIRE_INTEGER_def)
qed

end
