(* ===== verification/Coordinator.thy ===== *)
theory Coordinator
  imports Authority Capabilities Presence_Client
begin

text \<open>
  The Live Desk coordinator (\<open>core/src/companion/coordinator.rs\<close>). The mutex-guarded \<open>Inner\<close>
  is a record, and every locked segment between two awaits is one function on a world of that
  record and the spawned tasks. A task is its function with a program counter and carries the
  abort flag of its handle: an aborted task takes no further step at an await, but a locked
  segment already entered runs to its end. A \<open>JoinHandle\<close> is an index into the list of tasks.
  What the outside decides (the stored connection, the token, the capabilities, the captured
  snapshot, the result of a publish, the clock) is an argument of the segment that observes it.
  Deferred notifications and the calls that leave the coordinator are appended to a log.
\<close>

section \<open>State\<close>

record timings =
  network_retry_ms :: nat
  feature_retry_ms :: nat
  sleep_clear_timeout_ms :: nat
  shutdown_clear_timeout_ms :: nat

definition default_timings :: timings where
  "default_timings =
     \<lparr>network_retry_ms = 30000, feature_retry_ms = 300000, sleep_clear_timeout_ms = 500,
      shutdown_clear_timeout_ms = 800\<rparr>"

text \<open>\<open>Arc<PresenceClient>\<close>: the client, with the allocation of the sequencer it shares.\<close>

type_synonym client_arc = "nat \<times> presence_client"

type_synonym task_id = nat

record inner =
  generation :: nat
  coord_state :: runtime_state
  stopping :: bool
  refresh_requested :: bool
  refresh_loop_running :: bool
  heartbeat_task :: "task_id option"
  reconnect_task :: "task_id option"
  cleanup_task :: "task_id option"
  last_send_started_at :: int
  coord_client :: "client_arc option"
  include_media :: bool
  requested_lease_seconds :: f64
  min_send_interval_ms :: nat
  coord_registry :: "client_arc registry"

definition inner_new :: inner where
  "inner_new =
     \<lparr>generation = 0, coord_state = Disabled, stopping = False, refresh_requested = False,
      refresh_loop_running = False, heartbeat_task = None, reconnect_task = None,
      cleanup_task = None, last_send_started_at = 0, coord_client = None, include_media = False,
      requested_lease_seconds = Fin 90, min_send_interval_ms = 2000, coord_registry = None\<rparr>"

datatype configure_pc =
    CfgEntry
  | CfgGate
  | CfgToken stored_connection
  | CfgCapabilities stored_connection rstr url

text \<open>\<open>RThrottle until\<close>: sleeping until the wall clock shows \<open>until\<close>.\<close>

datatype refresh_pc =
    RHead
  | RThrottle int
  | RStamp
  | RCapture client_arc bool
  | RSend client_arc sanitized_snapshot f64
  | RWait client_arc sanitized_snapshot f64

datatype task =
    Configure nat configure_pc
  | RetryTimer nat nat
  | RetryFired nat
  | HeartbeatTimer nat f64
  | HeartbeatFired nat f64
  | Refresh nat refresh_pc
  | ClearRequest client_arc clear_reason
  | ClearWait client_arc clear_reason
  | ClearRace task_id nat
  | WakeJoin "task_id option"
  | ShutdownJoin clear_reason "client_arc option" bool "task_id option"
  | ShutdownRace "task_id option"
  | Finished

datatype event =
    StateChanged runtime_state
  | MediaReset
  | CaptureStarted nat int
  | PublishSent client_arc sanitized_snapshot f64
  | Published
  | ClearSent client_arc clear_reason

record world =
  w_inner :: inner
  w_tasks :: "(task \<times> bool) list"
  w_clock :: int
  w_arcs :: nat
  w_log :: "event list"

definition world_new :: world where
  "world_new = \<lparr>w_inner = inner_new, w_tasks = [], w_clock = 0, w_arcs = 0, w_log = []\<rparr>"

section \<open>Primitives\<close>

definition tasks :: "world \<Rightarrow> task list" where
  "tasks w = map fst (w_tasks w)"

definition on_inner :: "(inner \<Rightarrow> inner) \<Rightarrow> world \<Rightarrow> world" where
  "on_inner f w = w\<lparr>w_inner := f (w_inner w)\<rparr>"

definition log_event :: "event \<Rightarrow> world \<Rightarrow> world" where
  "log_event e w = w\<lparr>w_log := w_log w @ [e]\<rparr>"

definition spawn :: "task \<Rightarrow> world \<Rightarrow> task_id \<times> world" where
  "spawn t w = (length (w_tasks w), w\<lparr>w_tasks := w_tasks w @ [(t, False)]\<rparr>)"

definition abort :: "task_id option \<Rightarrow> world \<Rightarrow> world" where
  "abort h w =
     (case h of
        None \<Rightarrow> w
      | Some i \<Rightarrow> w\<lparr>w_tasks := (w_tasks w)[i := (fst (w_tasks w ! i), True)]\<rparr>)"

text \<open>The running task moves to its next program point; its abort flag stays.\<close>

definition goto :: "task_id \<Rightarrow> task \<Rightarrow> world \<Rightarrow> world" where
  "goto i t w = w\<lparr>w_tasks := (w_tasks w)[i := (t, snd (w_tasks w ! i))]\<rparr>"

definition joined :: "world \<Rightarrow> task_id option \<Rightarrow> bool" where
  "joined w h \<longleftrightarrow> (case h of None \<Rightarrow> True | Some i \<Rightarrow> fst (w_tasks w ! i) = Finished)"

definition aborted :: "world \<Rightarrow> task_id \<Rightarrow> bool" where
  "aborted w i = snd (w_tasks w ! i)"

section \<open>Locked helpers\<close>

definition set_state_locked :: "runtime_state \<Rightarrow> world \<Rightarrow> world" where
  "set_state_locked st w =
     (if coord_state (w_inner w) = st then w
      else log_event (StateChanged st) (on_inner (\<lambda>s. s\<lparr>coord_state := st\<rparr>) w))"

definition begin_new_generation_locked :: "runtime_state \<Rightarrow> world \<Rightarrow> world" where
  "begin_new_generation_locked st w =
     (let w1 = on_inner (\<lambda>s. s\<lparr>generation := generation s + 1\<rparr>) w;
          w2 = on_inner (\<lambda>s. s\<lparr>heartbeat_task := None\<rparr>) (abort (heartbeat_task (w_inner w1)) w1);
          w3 = on_inner (\<lambda>s. s\<lparr>reconnect_task := None\<rparr>) (abort (reconnect_task (w_inner w2)) w2);
          w4 = on_inner (\<lambda>s. s\<lparr>refresh_requested := False\<rparr>) w3
      in set_state_locked st (log_event MediaReset w4))"

definition start_locked :: "world \<Rightarrow> world" where
  "start_locked w =
     (if stopping (w_inner w) then w
      else let w1 = begin_new_generation_locked Connecting w
           in snd (spawn (Configure (generation (w_inner w1)) CfgEntry) w1))"

definition schedule_retry_locked :: "nat \<Rightarrow> nat \<Rightarrow> world \<Rightarrow> world" where
  "schedule_retry_locked gen delay_ms w =
     (case spawn (RetryTimer gen delay_ms) (abort (reconnect_task (w_inner w)) w) of
        (h, w1) \<Rightarrow> on_inner (\<lambda>s. s\<lparr>reconnect_task := Some h\<rparr>) w1)"

definition trigger_refresh_locked :: "nat \<Rightarrow> world \<Rightarrow> world" where
  "trigger_refresh_locked gen w =
     (let w1 = on_inner (\<lambda>s. s\<lparr>refresh_requested := True\<rparr>) w
      in if refresh_loop_running (w_inner w1) then w1
         else snd (spawn (Refresh gen RHead) (on_inner (\<lambda>s. s\<lparr>refresh_loop_running := True\<rparr>) w1)))"

definition spawn_heartbeat_locked :: "nat \<Rightarrow> f64 \<Rightarrow> world \<Rightarrow> world" where
  "spawn_heartbeat_locked gen period w =
     (case spawn (HeartbeatTimer gen period) (abort (heartbeat_task (w_inner w)) w) of
        (h, w1) \<Rightarrow> on_inner (\<lambda>s. s\<lparr>heartbeat_task := Some h\<rparr>) w1)"

text \<open>The clear runs on its own task; the handle returned is the bounded join.\<close>

definition spawn_clear_best_effort :: "client_arc \<Rightarrow> clear_reason \<Rightarrow> nat \<Rightarrow> world \<Rightarrow> task_id \<times> world" where
  "spawn_clear_best_effort c reason timeout w =
     (case spawn (ClearRequest c reason) w of
        (h, w1) \<Rightarrow> spawn (ClearRace h timeout) w1)"

section \<open>Public operations\<close>

definition coord_start :: "world \<Rightarrow> world" where
  "coord_start w = start_locked w"

definition current_state :: "world \<Rightarrow> runtime_state" where
  "current_state w = coord_state (w_inner w)"

definition request_fresh_snapshot :: "world \<Rightarrow> world" where
  "request_fresh_snapshot w =
     (if coord_state (w_inner w) \<noteq> Active \<and> coord_state (w_inner w) \<noteq> Degraded then w
      else trigger_refresh_locked (generation (w_inner w)) w)"

definition handle_sleep_or_lock :: "timings \<Rightarrow> world \<Rightarrow> world" where
  "handle_sleep_or_lock tm w =
     (if coord_state (w_inner w) = Suspended \<or> stopping (w_inner w) then w
      else let w1 = begin_new_generation_locked Suspended w
           in case coord_client (w_inner w) of
                None \<Rightarrow> w1
              | Some c \<Rightarrow>
                  (case spawn_clear_best_effort c CSleep (sleep_clear_timeout_ms tm) w1 of
                     (h, w2) \<Rightarrow> on_inner (\<lambda>s. s\<lparr>cleanup_task := Some h\<rparr>) w2))"

definition handle_wake_or_unlock :: "world \<Rightarrow> world" where
  "handle_wake_or_unlock w =
     (if coord_state (w_inner w) \<noteq> Suspended then w
      else snd (spawn (WakeJoin (cleanup_task (w_inner w)))
                  (on_inner (\<lambda>s. s\<lparr>cleanup_task := None\<rparr>) w)))"

definition wake_joined :: "task_id \<Rightarrow> world \<Rightarrow> world" where
  "wake_joined i w =
     (let w1 = goto i Finished w
      in if coord_state (w_inner w) \<noteq> Suspended \<or> stopping (w_inner w) then w1
         else start_locked w1)"

text \<open>\<open>shutdown\<close>: the first segment, the segment after the join of a sleep clear, the last one.\<close>

definition shutdown :: "clear_reason \<Rightarrow> world \<Rightarrow> world" where
  "shutdown reason w =
     (if stopping (w_inner w) then w
      else let s = w_inner w;
               w1 = begin_new_generation_locked Disabled (on_inner (\<lambda>s. s\<lparr>stopping := True\<rparr>) w)
           in snd (spawn (ShutdownJoin reason (coord_client s) (coord_state s = Suspended)
                            (cleanup_task (w_inner w1)))
                     (on_inner (\<lambda>s. s\<lparr>cleanup_task := None\<rparr>) w1)))"

definition shutdown_joined ::
  "timings \<Rightarrow> task_id \<Rightarrow> clear_reason \<Rightarrow> client_arc option \<Rightarrow> bool \<Rightarrow> world \<Rightarrow> world" where
  "shutdown_joined tm i reason client was_suspended w =
     (case client of
        Some c \<Rightarrow>
          if was_suspended then goto i (ShutdownRace None) w
          else (case spawn_clear_best_effort c reason (shutdown_clear_timeout_ms tm) w of
                  (h, w1) \<Rightarrow> goto i (ShutdownRace (Some h)) w1)
      | None \<Rightarrow> goto i (ShutdownRace None) w)"

definition shutdown_end :: "task_id \<Rightarrow> world \<Rightarrow> world" where
  "shutdown_end i w = goto i Finished (on_inner (\<lambda>s. s\<lparr>coord_client := None, stopping := False\<rparr>) w)"

definition discard_authority :: "world \<Rightarrow> world" where
  "discard_authority w =
     on_inner (\<lambda>s. s\<lparr>coord_registry := registry_discard (coord_registry s), coord_client := None\<rparr>) w"

section \<open>Timers and clears\<close>

definition retry_fired :: "task_id \<Rightarrow> nat \<Rightarrow> world \<Rightarrow> world" where
  "retry_fired i gen w =
     (let w1 = goto i Finished w
      in if gen \<noteq> generation (w_inner w) \<or> stopping (w_inner w) then w1 else start_locked w1)"

definition heartbeat_fired :: "task_id \<Rightarrow> nat \<Rightarrow> f64 \<Rightarrow> world \<Rightarrow> world" where
  "heartbeat_fired i gen period w =
     (if gen \<noteq> generation (w_inner w) then goto i Finished w
      else trigger_refresh_locked gen (goto i (HeartbeatTimer gen period) w))"

text \<open>The detached clear takes the send slot and sends; it ends when the client answers.\<close>

definition clear_sent :: "task_id \<Rightarrow> client_arc \<Rightarrow> clear_reason \<Rightarrow> world \<Rightarrow> world" where
  "clear_sent i c reason w = goto i (ClearWait c reason) (log_event (ClearSent c reason) w)"

section \<open>Negotiation\<close>

definition configure_entry :: "task_id \<Rightarrow> nat \<Rightarrow> world \<Rightarrow> world" where
  "configure_entry i gen w =
     (if gen \<noteq> generation (w_inner w) then goto i Finished w
      else goto i (Configure gen CfgGate) w)"

definition configure_gate :: "task_id \<Rightarrow> nat \<Rightarrow> stored_connection option \<Rightarrow> world \<Rightarrow> world" where
  "configure_gate i gen conn w =
     (case conn of
        Some c \<Rightarrow>
          if live_desk_enabled c then goto i (Configure gen (CfgToken c)) w
          else if gen \<noteq> generation (w_inner w) then goto i Finished w
          else set_state_locked Disabled (goto i Finished w)
      | None \<Rightarrow>
          if gen \<noteq> generation (w_inner w) then goto i Finished w
          else set_state_locked Disabled (goto i Finished w))"

definition degrade_and_retry :: "task_id \<Rightarrow> nat \<Rightarrow> nat \<Rightarrow> world \<Rightarrow> world" where
  "degrade_and_retry i gen delay_ms w =
     schedule_retry_locked gen delay_ms (set_state_locked Degraded (goto i Finished w))"

definition configure_token ::
  "unicode \<Rightarrow> surroundings \<Rightarrow> timings \<Rightarrow> task_id \<Rightarrow> nat \<Rightarrow> stored_connection \<Rightarrow> rstr option \<Rightarrow> world \<Rightarrow> world"
where
  "configure_token u env tm i gen c token w =
     (if gen \<noteq> generation (w_inner w) then goto i Finished w
      else case token of
             None \<Rightarrow> degrade_and_retry i gen (network_retry_ms tm) w
           | Some t \<Rightarrow>
               (case server_configuration u (env_url env) (base_url c) of
                  Inr url \<Rightarrow> goto i (Configure gen (CfgCapabilities c t url)) w
                | Inl _ \<Rightarrow> set_state_locked Degraded (goto i Finished w)))"

definition lease_of :: "negotiated_configuration \<Rightarrow> f64" where
  "lease_of conf =
     f_min (f_max (Fin 90) (f_of_int (lease_min_seconds conf))) (f_of_int (lease_max_seconds conf))"

definition heartbeat_of :: "negotiated_configuration \<Rightarrow> f64" where
  "heartbeat_of conf =
     f_min (f_of_int (recommended_heartbeat_seconds conf)) (f_max (f_div_by (lease_of conf) 3) (Fin 1))"

text \<open>\<open>60_000u64.div_ceil(requests_per_minute)\<close>\<close>

definition min_send_of :: "negotiated_configuration \<Rightarrow> nat" where
  "min_send_of conf =
     60000 div requests_per_minute conf + (if 60000 mod requests_per_minute conf > 0 then 1 else 0)"

definition build_client :: "stored_connection \<Rightarrow> rstr \<Rightarrow> url \<Rightarrow> negotiated_configuration \<Rightarrow> world \<Rightarrow> world" where
  "build_client c token url conf w =
     (let s = w_inner w;
          factory = \<lparr>auth_sequencer = (w_arcs w, \<lparr>seq_device = device_id c, seq_floor = pairing_next_sequence c\<rparr>),
                     auth_client = None\<rparr>
      in case registry_resolve (base_url c) (device_id c) factory (coord_registry s) of
           (authority, registry) \<Rightarrow>
             let client = (fst (auth_sequencer authority),
                   \<lparr>pcl_base = url,
                    pcl_credential = \<lparr>cred_device_id = device_id c, cred_device_token = token\<rparr>,
                    pcl_sequencer = snd (auth_sequencer authority), pcl_configuration = conf\<rparr>)
             in (on_inner (\<lambda>s. s\<lparr>coord_registry := registry_set_client client registry,
                                 coord_client := Some client\<rparr>) w)\<lparr>w_arcs := w_arcs w + 1\<rparr>)"

definition go_active ::
  "task_id \<Rightarrow> nat \<Rightarrow> stored_connection \<Rightarrow> rstr \<Rightarrow> url \<Rightarrow> negotiated_configuration \<Rightarrow> world \<Rightarrow> world" where
  "go_active i gen c token url conf w =
     (let w1 = on_inner (\<lambda>s. s\<lparr>include_media := supports_media_timeline conf,
                               requested_lease_seconds := lease_of conf,
                               min_send_interval_ms := min_send_of conf\<rparr>) w;
          w2 = set_state_locked Active (build_client c token url conf w1)
      in trigger_refresh_locked gen (spawn_heartbeat_locked gen (heartbeat_of conf) (goto i Finished w2)))"

definition configure_capabilities ::
  "surroundings \<Rightarrow> timings \<Rightarrow> task_id \<Rightarrow> nat \<Rightarrow> stored_connection \<Rightarrow> rstr \<Rightarrow> url \<Rightarrow> reply \<Rightarrow> world \<Rightarrow> world" where
  "configure_capabilities env tm i gen c token url r w =
     (if gen \<noteq> generation (w_inner w) then goto i Finished w
      else case snd (execute (env_calendar env) (env_url env) url capabilities_options
                       (decode_capabilities_response (env_calendar env)) r) of
             Inl _ \<Rightarrow> degrade_and_retry i gen (network_retry_ms tm) w
           | Inr capabilities \<Rightarrow>
               (case negotiate_presence (cap_data capabilities) PROTOCOL_CLIENT_VERSION of
                  NegClientUpdateRequired \<Rightarrow> set_state_locked UpdateRequired (goto i Finished w)
                | SchemaUnsupported \<Rightarrow>
                    schedule_retry_locked gen (feature_retry_ms tm)
                      (set_state_locked ServerFeatureUnavailable (goto i Finished w))
                | FeatureUnavailable \<Rightarrow>
                    schedule_retry_locked gen (feature_retry_ms tm)
                      (set_state_locked ServerFeatureUnavailable (goto i Finished w))
                | InvalidCapabilities \<Rightarrow> degrade_and_retry i gen (feature_retry_ms tm) w
                | Available conf \<Rightarrow> go_active i gen c token url conf w))"

section \<open>The refresh loop\<close>

definition refresh_exit :: "task_id \<Rightarrow> world \<Rightarrow> world" where
  "refresh_exit i w = goto i Finished (on_inner (\<lambda>s. s\<lparr>refresh_loop_running := False\<rparr>) w)"

definition refresh_head :: "task_id \<Rightarrow> nat \<Rightarrow> world \<Rightarrow> world" where
  "refresh_head i gen w =
     (let s = w_inner w
      in if gen \<noteq> generation s \<or> \<not> refresh_requested s then refresh_exit i w
         else let until = last_send_started_at s + int (min_send_interval_ms s)
              in goto i (Refresh gen (if until - w_clock w > 0 then RThrottle until else RStamp))
                   (on_inner (\<lambda>s. s\<lparr>refresh_requested := False\<rparr>) w))"

definition refresh_stamp :: "task_id \<Rightarrow> nat \<Rightarrow> world \<Rightarrow> world" where
  "refresh_stamp i gen w =
     (if gen \<noteq> generation (w_inner w) then refresh_exit i w
      else case coord_client (w_inner w) of
             None \<Rightarrow> refresh_exit i w
           | Some c \<Rightarrow>
               goto i (Refresh gen (RCapture c (include_media (w_inner w))))
                 (log_event (CaptureStarted gen (w_clock w))
                   (on_inner (\<lambda>s. s\<lparr>last_send_started_at := w_clock w\<rparr>) w)))"

definition refresh_captured :: "task_id \<Rightarrow> nat \<Rightarrow> client_arc \<Rightarrow> sanitized_snapshot \<Rightarrow> world \<Rightarrow> world" where
  "refresh_captured i gen c snapshot w =
     (if gen \<noteq> generation (w_inner w) then refresh_exit i w
      else goto i (Refresh gen (RSend c snapshot (requested_lease_seconds (w_inner w)))) w)"

text \<open>\<open>replace_presence\<close> takes the send slot of its client and sends.\<close>

definition refresh_send :: "task_id \<Rightarrow> nat \<Rightarrow> client_arc \<Rightarrow> sanitized_snapshot \<Rightarrow> f64 \<Rightarrow> world \<Rightarrow> world" where
  "refresh_send i gen c snapshot lease w =
     goto i (Refresh gen (RWait c snapshot lease)) (log_event (PublishSent c snapshot lease) w)"

definition refresh_published ::
  "timings \<Rightarrow> task_id \<Rightarrow> nat \<Rightarrow> client_error + mutation_response \<Rightarrow> world \<Rightarrow> world" where
  "refresh_published tm i gen result w =
     (if gen \<noteq> generation (w_inner w) then refresh_exit i w
      else case result of
             Inr _ \<Rightarrow> log_event Published (set_state_locked Active (goto i (Refresh gen RHead) w))
           | Inl error \<Rightarrow>
               if client_needs_renegotiation error
               then start_locked (refresh_exit i (discard_authority w))
               else schedule_retry_locked gen (network_retry_ms tm)
                      (set_state_locked Degraded (refresh_exit i w)))"

section \<open>Steps\<close>

text \<open>
  The public operations, and what the rest of the program answers the tasks: the connection that a
  negotiation reads and the snapshot that a capture with or without media gives. The steps of a world
  in which only the operations in \<open>calls\<close> are called and only the answers in it are given: with none of
  the operations, the steps of the clock and of the tasks themselves.
\<close>

datatype coord_call =
    StartCall
  | FreshCall
  | SleepCall
  | WakeCall
  | ShutdownCall
  | DiscardCall
  | GateRead "stored_connection option"
  | CaptureResult bool sanitized_snapshot

inductive coord_step_in ::
  "coord_call set \<Rightarrow> unicode \<Rightarrow> surroundings \<Rightarrow> timings \<Rightarrow> world \<Rightarrow> world \<Rightarrow> bool"
  for calls u env tm
where
  CallStart: "StartCall \<in> calls \<Longrightarrow> coord_step_in calls u env tm w (coord_start w)"
| CallFresh: "FreshCall \<in> calls \<Longrightarrow> coord_step_in calls u env tm w (request_fresh_snapshot w)"
| CallSleep: "SleepCall \<in> calls \<Longrightarrow> coord_step_in calls u env tm w (handle_sleep_or_lock tm w)"
| CallWake: "WakeCall \<in> calls \<Longrightarrow> coord_step_in calls u env tm w (handle_wake_or_unlock w)"
| CallShutdown: "ShutdownCall \<in> calls \<Longrightarrow> coord_step_in calls u env tm w (shutdown reason w)"
| CallDiscard: "DiscardCall \<in> calls \<Longrightarrow> coord_step_in calls u env tm w (discard_authority w)"
| Clock: "0 \<le> d \<Longrightarrow> coord_step_in calls u env tm w (w\<lparr>w_clock := w_clock w + d\<rparr>)"
| StepConfigureEntry: "i < length (tasks w) \<Longrightarrow> tasks w ! i = Configure gen CfgEntry \<Longrightarrow>
    coord_step_in calls u env tm w (configure_entry i gen w)"
| StepConfigureGate: "i < length (tasks w) \<Longrightarrow> tasks w ! i = Configure gen CfgGate \<Longrightarrow>
    GateRead conn \<in> calls \<Longrightarrow> coord_step_in calls u env tm w (configure_gate i gen conn w)"
| StepConfigureToken: "i < length (tasks w) \<Longrightarrow> tasks w ! i = Configure gen (CfgToken c) \<Longrightarrow>
    coord_step_in calls u env tm w (configure_token u env tm i gen c token w)"
| StepConfigureCapabilities: "i < length (tasks w) \<Longrightarrow>
    tasks w ! i = Configure gen (CfgCapabilities c t url) \<Longrightarrow>
    coord_step_in calls u env tm w (configure_capabilities env tm i gen c t url r w)"
| StepRetryElapsed: "i < length (tasks w) \<Longrightarrow> tasks w ! i = RetryTimer gen d \<Longrightarrow> \<not> aborted w i \<Longrightarrow>
    coord_step_in calls u env tm w (goto i (RetryFired gen) w)"
| StepRetry: "i < length (tasks w) \<Longrightarrow> tasks w ! i = RetryFired gen \<Longrightarrow>
    coord_step_in calls u env tm w (retry_fired i gen w)"
| StepTick: "i < length (tasks w) \<Longrightarrow> tasks w ! i = HeartbeatTimer gen p \<Longrightarrow> \<not> aborted w i \<Longrightarrow>
    coord_step_in calls u env tm w (goto i (HeartbeatFired gen p) w)"
| StepHeartbeat: "i < length (tasks w) \<Longrightarrow> tasks w ! i = HeartbeatFired gen p \<Longrightarrow>
    coord_step_in calls u env tm w (heartbeat_fired i gen p w)"
| StepRefreshHead: "i < length (tasks w) \<Longrightarrow> tasks w ! i = Refresh gen RHead \<Longrightarrow>
    coord_step_in calls u env tm w (refresh_head i gen w)"
| StepThrottle: "i < length (tasks w) \<Longrightarrow> tasks w ! i = Refresh gen (RThrottle until) \<Longrightarrow>
    until \<le> w_clock w \<Longrightarrow> coord_step_in calls u env tm w (goto i (Refresh gen RStamp) w)"
| StepStamp: "i < length (tasks w) \<Longrightarrow> tasks w ! i = Refresh gen RStamp \<Longrightarrow>
    coord_step_in calls u env tm w (refresh_stamp i gen w)"
| StepCaptured: "i < length (tasks w) \<Longrightarrow> tasks w ! i = Refresh gen (RCapture c media) \<Longrightarrow>
    CaptureResult media snapshot \<in> calls \<Longrightarrow> coord_step_in calls u env tm w (refresh_captured i gen c snapshot w)"
| StepSend: "i < length (tasks w) \<Longrightarrow> tasks w ! i = Refresh gen (RSend c snapshot lease) \<Longrightarrow>
    coord_step_in calls u env tm w (refresh_send i gen c snapshot lease w)"
| StepPublished: "i < length (tasks w) \<Longrightarrow> tasks w ! i = Refresh gen (RWait c snapshot lease) \<Longrightarrow>
    coord_step_in calls u env tm w (refresh_published tm i gen result w)"
| StepClearSend: "i < length (tasks w) \<Longrightarrow> tasks w ! i = ClearRequest c reason \<Longrightarrow>
    coord_step_in calls u env tm w (clear_sent i c reason w)"
| StepClearEnd: "i < length (tasks w) \<Longrightarrow> tasks w ! i = ClearWait c reason \<Longrightarrow>
    coord_step_in calls u env tm w (goto i Finished w)"
| StepRace: "i < length (tasks w) \<Longrightarrow> tasks w ! i = ClearRace h timeout \<Longrightarrow>
    coord_step_in calls u env tm w (goto i Finished w)"
| StepWake: "i < length (tasks w) \<Longrightarrow> tasks w ! i = WakeJoin h \<Longrightarrow> joined w h \<Longrightarrow>
    coord_step_in calls u env tm w (wake_joined i w)"
| StepShutdownJoined: "i < length (tasks w) \<Longrightarrow>
    tasks w ! i = ShutdownJoin reason client was_suspended h \<Longrightarrow> joined w h \<Longrightarrow>
    coord_step_in calls u env tm w (shutdown_joined tm i reason client was_suspended w)"
| StepShutdownEnd: "i < length (tasks w) \<Longrightarrow> tasks w ! i = ShutdownRace h \<Longrightarrow> joined w h \<Longrightarrow>
    coord_step_in calls u env tm w (shutdown_end i w)"

abbreviation coord_step :: "unicode \<Rightarrow> surroundings \<Rightarrow> timings \<Rightarrow> world \<Rightarrow> world \<Rightarrow> bool" where
  "coord_step \<equiv> coord_step_in UNIV"

text \<open>The worlds a coordinator can reach.\<close>

inductive coord_reachable :: "unicode \<Rightarrow> surroundings \<Rightarrow> timings \<Rightarrow> world \<Rightarrow> bool" for u env tm where
  Initial: "coord_reachable u env tm world_new"
| Step: "coord_reachable u env tm w \<Longrightarrow> coord_step u env tm w w' \<Longrightarrow> coord_reachable u env tm w'"

section \<open>What the segments do to the state and the tasks\<close>

lemma map_fst_update: "map fst (xs[i := (t, ab)]) = (map fst xs)[i := t]"
  by (simp add: map_update)

lemma tasks_goto [simp]: "tasks (goto i t w) = (tasks w)[i := t]"
  by (simp add: tasks_def goto_def map_fst_update)

lemma map_fst_mark: "map fst (xs[i := (fst (xs ! i), ab)]) = map fst xs"
  by (cases "i < length xs") (auto intro: nth_equalityI simp: nth_list_update list_update_beyond)

lemma tasks_abort [simp]: "tasks (abort h w) = tasks w"
  by (simp add: tasks_def abort_def map_fst_mark split: option.split)

lemma tasks_primitives [simp]:
  "tasks (on_inner f w) = tasks w" "tasks (log_event e w) = tasks w"
  "tasks (snd (spawn t w)) = tasks w @ [t]" "tasks (w\<lparr>w_clock := x\<rparr>) = tasks w"
  "tasks (w\<lparr>w_arcs := n\<rparr>) = tasks w" "fst (spawn t w) = length (tasks w)"
  by (simp_all add: tasks_def on_inner_def log_event_def spawn_def)

lemma tasks_length [simp]: "length (w_tasks w) = length (tasks w)"
  by (simp add: tasks_def)

lemma inner_primitives [simp]:
  "w_inner (on_inner f w) = f (w_inner w)" "w_inner (log_event e w) = w_inner w"
  "w_inner (snd (spawn t w)) = w_inner w" "w_inner (abort h w) = w_inner w"
  "w_inner (goto i t w) = w_inner w"
  by (simp_all add: on_inner_def log_event_def spawn_def abort_def goto_def split: option.split)

lemma clock_primitives [simp]:
  "w_clock (on_inner f w) = w_clock w" "w_clock (log_event e w) = w_clock w"
  "w_clock (snd (spawn t w)) = w_clock w" "w_clock (abort h w) = w_clock w"
  "w_clock (goto i t w) = w_clock w"
  by (simp_all add: on_inner_def log_event_def spawn_def abort_def goto_def split: option.split)

lemma set_state_locked_simps [simp]:
  "w_inner (set_state_locked st w) = (w_inner w)\<lparr>coord_state := st\<rparr>"
  "tasks (set_state_locked st w) = tasks w" "w_clock (set_state_locked st w) = w_clock w"
  by (simp_all add: set_state_locked_def)

lemma begin_new_generation_simps [simp]:
  "w_inner (begin_new_generation_locked st w) =
     (w_inner w)\<lparr>generation := generation (w_inner w) + 1, coord_state := st, refresh_requested := False,
       heartbeat_task := None, reconnect_task := None\<rparr>"
  "tasks (begin_new_generation_locked st w) = tasks w"
  "w_clock (begin_new_generation_locked st w) = w_clock w"
  by (simp_all add: begin_new_generation_locked_def Let_def)

lemma start_locked_simps:
  "w_inner (start_locked w) =
     (if stopping (w_inner w) then w_inner w
      else (w_inner w)\<lparr>generation := generation (w_inner w) + 1, coord_state := Connecting,
        refresh_requested := False, heartbeat_task := None, reconnect_task := None\<rparr>)"
  "tasks (start_locked w) =
     (if stopping (w_inner w) then tasks w
      else tasks w @ [Configure (generation (w_inner w) + 1) CfgEntry])"
  "w_clock (start_locked w) = w_clock w"
  by (simp_all add: start_locked_def Let_def)

lemma schedule_retry_simps [simp]:
  "w_inner (schedule_retry_locked gen d w) = (w_inner w)\<lparr>reconnect_task := Some (length (tasks w))\<rparr>"
  "tasks (schedule_retry_locked gen d w) = tasks w @ [RetryTimer gen d]"
  "w_clock (schedule_retry_locked gen d w) = w_clock w"
  by (simp_all add: schedule_retry_locked_def case_prod_beta)

lemma refresh_flag_same: "refresh_loop_running s \<Longrightarrow> s\<lparr>refresh_loop_running := True\<rparr> = s"
  by (cases s) simp

lemma trigger_refresh_simps:
  "w_inner (trigger_refresh_locked gen w) =
     (w_inner w)\<lparr>refresh_requested := True, refresh_loop_running := True\<rparr>"
  "tasks (trigger_refresh_locked gen w) =
     (if refresh_loop_running (w_inner w) then tasks w else tasks w @ [Refresh gen RHead])"
  "w_clock (trigger_refresh_locked gen w) = w_clock w"
  by (simp_all add: trigger_refresh_locked_def Let_def refresh_flag_same)

lemma spawn_heartbeat_simps [simp]:
  "w_inner (spawn_heartbeat_locked gen p w) = (w_inner w)\<lparr>heartbeat_task := Some (length (tasks w))\<rparr>"
  "tasks (spawn_heartbeat_locked gen p w) = tasks w @ [HeartbeatTimer gen p]"
  "w_clock (spawn_heartbeat_locked gen p w) = w_clock w"
  by (simp_all add: spawn_heartbeat_locked_def case_prod_beta)

lemma spawn_clear_simps [simp]:
  "w_inner (snd (spawn_clear_best_effort c reason d w)) = w_inner w"
  "tasks (snd (spawn_clear_best_effort c reason d w)) =
     tasks w @ [ClearRequest c reason, ClearRace (length (tasks w)) d]"
  "w_clock (snd (spawn_clear_best_effort c reason d w)) = w_clock w"
  by (simp_all add: spawn_clear_best_effort_def case_prod_beta)

lemma build_client_simps [simp]:
  "tasks (build_client c token url conf w) = tasks w"
  "w_clock (build_client c token url conf w) = w_clock w"
  by (simp_all add: build_client_def Let_def case_prod_beta)

lemma build_client_fields [simp]:
  "generation (w_inner (build_client c token url conf w)) = generation (w_inner w)"
  "coord_state (w_inner (build_client c token url conf w)) = coord_state (w_inner w)"
  "stopping (w_inner (build_client c token url conf w)) = stopping (w_inner w)"
  "refresh_loop_running (w_inner (build_client c token url conf w)) = refresh_loop_running (w_inner w)"
  "last_send_started_at (w_inner (build_client c token url conf w)) = last_send_started_at (w_inner w)"
  "min_send_interval_ms (w_inner (build_client c token url conf w)) = min_send_interval_ms (w_inner w)"
  by (simp_all add: build_client_def Let_def case_prod_beta)

lemmas coord_segment_defs =
  coord_start_def request_fresh_snapshot_def handle_sleep_or_lock_def handle_wake_or_unlock_def
  wake_joined_def shutdown_def shutdown_joined_def shutdown_end_def discard_authority_def
  retry_fired_def heartbeat_fired_def clear_sent_def configure_entry_def configure_gate_def
  degrade_and_retry_def configure_token_def refresh_exit_def
  refresh_head_def refresh_stamp_def refresh_captured_def refresh_send_def refresh_published_def
  go_active_def

lemmas coord_helper_simps = start_locked_simps trigger_refresh_simps

lemma configure_capabilities_cases:
  obtains "configure_capabilities env tm i gen c token url r w = goto i Finished w"
      and "gen \<noteq> generation (w_inner w)"
  | d where "configure_capabilities env tm i gen c token url r w = degrade_and_retry i gen d w"
      and "gen = generation (w_inner w)"
  | "configure_capabilities env tm i gen c token url r w = set_state_locked UpdateRequired (goto i Finished w)"
      and "gen = generation (w_inner w)"
  | d where "configure_capabilities env tm i gen c token url r w =
        schedule_retry_locked gen d (set_state_locked ServerFeatureUnavailable (goto i Finished w))"
      and "gen = generation (w_inner w)"
  | conf where "configure_capabilities env tm i gen c token url r w = go_active i gen c token url conf w"
      and "gen = generation (w_inner w)"
proof (cases "gen = generation (w_inner w)")
  case gen: True
  show ?thesis
  proof (cases "snd (execute (env_calendar env) (env_url env) url capabilities_options
      (decode_capabilities_response (env_calendar env)) r)")
    case (Inl e)
    then show ?thesis using that(2) gen by (simp add: configure_capabilities_def)
  next
    case (Inr capabilities)
    then show ?thesis
      using that(2-5) gen
      by (cases "negotiate_presence (cap_data capabilities) PROTOCOL_CLIENT_VERSION")
        (simp_all add: configure_capabilities_def)
  qed
qed (use that(1) in \<open>simp add: configure_capabilities_def\<close>)

end
