(* ===== verification/Coordinator_Safety.thy ===== *)
theory Coordinator_Safety
  imports Coordinator
begin

text \<open>
  Invariants of the reachable worlds of the coordinator and the properties that rest on them:
  one refresh loop at a time, the tasks each runtime state allows, the client and its
  authority, and the spacing of send starts.
\<close>

section \<open>One refresh loop\<close>

fun is_refresh :: "task \<Rightarrow> bool" where
  "is_refresh (Refresh _ _) = True"
| "is_refresh _ = False"

definition count_tasks :: "(task \<Rightarrow> bool) \<Rightarrow> task list \<Rightarrow> nat" where
  "count_tasks P ts = length (filter P ts)"

lemma count_tasks_simps [simp]:
  "count_tasks P [] = 0" "count_tasks P (t # ts) = (if P t then 1 else 0) + count_tasks P ts"
  "count_tasks P (ts @ us) = count_tasks P ts + count_tasks P us"
  by (simp_all add: count_tasks_def)

lemma count_tasks_update:
  assumes "i < length ts"
  shows "count_tasks P (ts[i := t]) + (if P (ts ! i) then 1 else 0) = count_tasks P ts + (if P t then 1 else 0)"
  using assms
proof (induction ts arbitrary: i)
  case (Cons x xs)
  then show ?case by (cases i) auto
qed simp

lemma count_tasks_same [simp]:
  "i < length ts \<Longrightarrow> P (ts ! i) = P t \<Longrightarrow> count_tasks P (ts[i := t]) = count_tasks P ts"
  using count_tasks_update [of i ts P t] by (cases "P t") simp_all

lemma count_tasks_drop [simp]:
  "i < length ts \<Longrightarrow> P (ts ! i) \<Longrightarrow> \<not> P t \<Longrightarrow> count_tasks P (ts[i := t]) = count_tasks P ts - 1"
  using count_tasks_update [of i ts P t] by simp

lemma count_tasks_pos: "i < length ts \<Longrightarrow> P (ts ! i) \<Longrightarrow> 0 < count_tasks P ts"
  using count_tasks_update [of i ts P Finished] by (cases "P Finished") (auto simp: count_tasks_def filter_empty_conv)

definition single_flight :: "world \<Rightarrow> bool" where
  "single_flight w \<longleftrightarrow>
     count_tasks is_refresh (tasks w) = (if refresh_loop_running (w_inner w) then 1 else 0)"

lemma single_flight_step:
  assumes "coord_step u env tm w w'" and "single_flight w"
  shows "single_flight w'"
  using assms(1)
proof cases
  case (StepConfigureCapabilities i gen c t url r)
  show ?thesis
    unfolding StepConfigureCapabilities(1)
    by (rule configure_capabilities_cases [of env tm i gen c t url r w])
      (use assms(2) StepConfigureCapabilities in \<open>simp_all add: coord_segment_defs coord_helper_simps single_flight_def\<close>)
next
  case (StepRetry i gen)
  then show ?thesis using assms(2) by (simp add: coord_segment_defs coord_helper_simps single_flight_def Let_def)
next
  case (StepHeartbeat i gen)
  then show ?thesis using assms(2) by (simp add: coord_segment_defs coord_helper_simps single_flight_def Let_def)
next
  case (StepPublished i gen c s l r)
  then show ?thesis using assms(2) by (simp add: coord_segment_defs coord_helper_simps single_flight_def Let_def split: sum.split)
next
  case (StepConfigureToken i gen c t)
  then show ?thesis using assms(2) by (simp add: coord_segment_defs coord_helper_simps single_flight_def Let_def split: option.split sum.split)
next
  case (StepRefreshHead i gen)
  then show ?thesis using assms(2) by (simp add: coord_segment_defs coord_helper_simps single_flight_def Let_def)
next
  case (StepStamp i gen)
  then show ?thesis using assms(2) by (simp add: coord_segment_defs coord_helper_simps single_flight_def Let_def split: option.split)
next
  case (StepShutdownJoined i gen)
  then show ?thesis using assms(2) by (simp add: coord_segment_defs coord_helper_simps single_flight_def Let_def nth_append
      case_prod_beta split: option.split)
qed (use assms(2) in \<open>simp_all add: coord_segment_defs coord_helper_simps single_flight_def Let_def
      case_prod_beta split: option.split\<close>)

lemma single_flight_reachable: "coord_reachable u env tm w \<Longrightarrow> single_flight w"
proof (induction rule: coord_reachable.induct)
  case Initial
  then show ?case by (simp add: single_flight_def world_new_def inner_new_def tasks_def)
qed (rule single_flight_step)

section \<open>States and tasks\<close>

text \<open>
  What a task of the current generation says about the state: only a configure task lives in
  \<open>Connecting\<close>, refresh loops and heartbeats live in \<open>Active\<close> and \<open>Degraded\<close>, a retry timer
  also in \<open>ServerFeatureUnavailable\<close>. In every other state the current generation has no task.
\<close>

fun task_ok :: "nat \<Rightarrow> runtime_state \<Rightarrow> task \<Rightarrow> bool" where
  "task_ok g st (Configure h _) \<longleftrightarrow> h \<le> g \<and> (h = g \<longrightarrow> st = Connecting)"
| "task_ok g st (RetryTimer h _) \<longleftrightarrow> h \<le> g \<and> (h = g \<longrightarrow> st \<in> {Active, Degraded, ServerFeatureUnavailable})"
| "task_ok g st (RetryFired h) \<longleftrightarrow> h \<le> g \<and> (h = g \<longrightarrow> st \<in> {Active, Degraded, ServerFeatureUnavailable})"
| "task_ok g st (HeartbeatTimer h _) \<longleftrightarrow> h \<le> g \<and> (h = g \<longrightarrow> st \<in> {Active, Degraded})"
| "task_ok g st (HeartbeatFired h _) \<longleftrightarrow> h \<le> g \<and> (h = g \<longrightarrow> st \<in> {Active, Degraded})"
| "task_ok g st (Refresh h _) \<longleftrightarrow> h \<le> g \<and> (h = g \<longrightarrow> st \<in> {Active, Degraded})"
| "task_ok g st _ \<longleftrightarrow> True"

fun is_configure :: "nat \<Rightarrow> task \<Rightarrow> bool" where
  "is_configure g (Configure h _) \<longleftrightarrow> g = h"
| "is_configure g _ \<longleftrightarrow> False"

definition lifecycle_ok :: "world \<Rightarrow> bool" where
  "lifecycle_ok w \<longleftrightarrow>
     list_all (task_ok (generation (w_inner w)) (coord_state (w_inner w))) (tasks w) \<and>
     count_tasks (is_configure (generation (w_inner w))) (tasks w) \<le> 1 \<and>
     (stopping (w_inner w) \<longrightarrow> coord_state (w_inner w) = Disabled)"

text \<open>A new generation makes every task stale, whatever the state.\<close>

lemma task_ok_stale: "task_ok g st t \<Longrightarrow> task_ok (Suc g) st' t"
  by (cases t) auto

lemma tasks_ok_stale: "list_all (task_ok g st) ts \<Longrightarrow> list_all (task_ok (Suc g) st') ts"
  using task_ok_stale by (auto simp: list_all_iff)

lemma no_future_configure: "list_all (task_ok g st) ts \<Longrightarrow> count_tasks (is_configure (Suc g)) ts = 0"
proof -
  have "\<not> is_configure (Suc g) t" if "task_ok g st t" for t
    using that by (cases t) auto
  then show "list_all (task_ok g st) ts \<Longrightarrow> count_tasks (is_configure (Suc g)) ts = 0"
    by (auto simp: list_all_iff count_tasks_def filter_empty_conv)
qed

text \<open>A state change within a generation keeps the tasks that allow the new state.\<close>

lemma list_all_update: "list_all P ts \<Longrightarrow> P t \<Longrightarrow> list_all P (ts[i := t])"
  by (metis (no_types, lifting) list_all_iff insert_iff set_update_subset_insert subsetD)

text \<open>Leaving \<open>Connecting\<close>: the one configure task of the generation is done.\<close>

lemma task_ok_not_configure:
  "task_ok g Connecting t \<Longrightarrow> \<not> is_configure g t \<Longrightarrow> task_ok g st t"
  by (cases t) auto

lemma leave_connecting:
  assumes "list_all (task_ok g st) ts" and "count_tasks (is_configure g) ts \<le> 1"
    and "i < length ts" and "ts ! i = Configure g pc"
  shows "st = Connecting" and "list_all (task_ok g st') (ts[i := Finished])"
    and "count_tasks (is_configure g) (ts[i := Finished]) = 0"
proof -
  have "task_ok g st (Configure g pc)" using assms(1,3,4) by (metis list_all_length)
  then show st: "st = Connecting" by simp
  show zero: "count_tasks (is_configure g) (ts[i := Finished]) = 0"
    using assms(2-4) count_tasks_update [of i ts "is_configure g" Finished] by simp
  then have "\<not> is_configure g t" if "t \<in> set (ts[i := Finished])" for t
    using that by (auto simp: count_tasks_def filter_empty_conv)
  moreover have "list_all (task_ok g Connecting) (ts[i := Finished])"
    using assms(1) st by (intro list_all_update) auto
  ultimately show "list_all (task_ok g st') (ts[i := Finished])"
    using task_ok_not_configure by (simp add: list_all_iff)
qed

text \<open>\<open>Active\<close> and \<open>Degraded\<close> allow the same tasks.\<close>

lemma task_ok_publishing:
  "st \<in> {Active, Degraded} \<Longrightarrow> st' \<in> {Active, Degraded} \<Longrightarrow> task_ok g st t = task_ok g st' t"
  by (cases t) auto

lemma lifecycle_start:
  assumes "lifecycle_ok w"
  shows "lifecycle_ok (start_locked w)"
  using assms no_future_configure
  by (auto simp: lifecycle_ok_def start_locked_simps elim: tasks_ok_stale)

lemma lifecycle_new_generation:
  assumes "lifecycle_ok w" and "stopping (w_inner w) \<longrightarrow> st = Disabled"
  shows "lifecycle_ok (begin_new_generation_locked st w)"
  using assms no_future_configure
  by (auto simp: lifecycle_ok_def elim: tasks_ok_stale)

lemma lifecycle_trigger:
  assumes "lifecycle_ok w" and "gen \<le> generation (w_inner w)"
    and "gen = generation (w_inner w) \<longrightarrow> coord_state (w_inner w) \<in> {Active, Degraded}"
  shows "lifecycle_ok (trigger_refresh_locked gen w)"
  using assms by (simp add: lifecycle_ok_def trigger_refresh_simps)

text \<open>A task that moves on without taking up a new generation.\<close>

lemma lifecycle_goto:
  assumes "lifecycle_ok w" and "i < length (tasks w)"
    and "task_ok (generation (w_inner w)) (coord_state (w_inner w)) t"
    and "\<And>g. is_configure g t \<Longrightarrow> is_configure g (tasks w ! i)"
  shows "lifecycle_ok (goto i t w)"
proof -
  have "count_tasks (is_configure g) ((tasks w)[i := t]) \<le> count_tasks (is_configure g) (tasks w)" for g
    using count_tasks_update [OF assms(2), of "is_configure g" t] assms(4) [of g] by (simp split: if_splits)
  then show ?thesis
    using assms(1,3) by (auto simp: lifecycle_ok_def intro: list_all_update le_trans)
qed

lemma lifecycle_cong:
  assumes "lifecycle_ok w" and "generation (w_inner w') = generation (w_inner w)"
    and "coord_state (w_inner w') = coord_state (w_inner w)"
    and "stopping (w_inner w') \<longrightarrow> stopping (w_inner w)" and "tasks w' = tasks w"
  shows "lifecycle_ok w'"
  using assms by (simp add: lifecycle_ok_def)

text \<open>New tasks that belong to no generation.\<close>

lemma lifecycle_spawn:
  assumes "lifecycle_ok w" and "generation (w_inner w') = generation (w_inner w)"
    and "coord_state (w_inner w') = coord_state (w_inner w)"
    and "stopping (w_inner w') \<longrightarrow> stopping (w_inner w)" and "tasks w' = tasks w @ ts"
    and "list_all (task_ok (generation (w_inner w)) (coord_state (w_inner w))) ts"
    and "\<And>g. count_tasks (is_configure g) ts = 0"
  shows "lifecycle_ok w'"
  using assms by (simp add: lifecycle_ok_def)

text \<open>The state changes within a generation.\<close>

lemma lifecycle_state:
  assumes "lifecycle_ok w" and "coord_state (w_inner w) \<in> {Active, Degraded}"
    and "st \<in> {Active, Degraded}"
  shows "lifecycle_ok (set_state_locked st w)"
proof -
  have "task_ok g (coord_state (w_inner w)) = task_ok g st" for g
    using task_ok_publishing [OF assms(2,3)] by blast
  then show ?thesis using assms by (auto simp: lifecycle_ok_def)
qed

lemma lifecycle_leave:
  assumes "lifecycle_ok w" and "i < length (tasks w)" and "tasks w ! i = Configure gen pc"
    and "gen = generation (w_inner w)"
  shows "lifecycle_ok (set_state_locked st (goto i Finished w)) \<and>
    (lifecycle_ok (schedule_retry_locked gen d (set_state_locked st (goto i Finished w))) \<or>
     st \<notin> {Active, Degraded, ServerFeatureUnavailable})"
proof -
  note l = leave_connecting [of "generation (w_inner w)" "coord_state (w_inner w)" "tasks w" i pc]
  have "coord_state (w_inner w) = Connecting"
    and ok: "list_all (task_ok (generation (w_inner w)) st) ((tasks w)[i := Finished])"
    and z: "count_tasks (is_configure (generation (w_inner w))) ((tasks w)[i := Finished]) = 0"
    using l assms by (simp_all add: lifecycle_ok_def)
  moreover have "\<not> stopping (w_inner w)"
    using assms(1) \<open>coord_state (w_inner w) = Connecting\<close> by (auto simp: lifecycle_ok_def)
  ultimately show ?thesis using assms(4) by (auto simp: lifecycle_ok_def)
qed

lemma lifecycle_go_active:
  assumes "lifecycle_ok w" and "i < length (tasks w)" and "tasks w ! i = Configure gen pc"
    and "gen = generation (w_inner w)"
  shows "lifecycle_ok (go_active i gen c t url conf w)"
proof -
  note l = leave_connecting [of "generation (w_inner w)" "coord_state (w_inner w)" "tasks w" i pc]
  have "coord_state (w_inner w) = Connecting"
    and ok: "list_all (task_ok (generation (w_inner w)) Active) ((tasks w)[i := Finished])"
    and z: "count_tasks (is_configure (generation (w_inner w))) ((tasks w)[i := Finished]) = 0"
    using l assms by (simp_all add: lifecycle_ok_def)
  moreover have "\<not> stopping (w_inner w)"
    using assms(1) \<open>coord_state (w_inner w) = Connecting\<close> by (auto simp: lifecycle_ok_def)
  ultimately show ?thesis
    using assms(4) by (simp add: lifecycle_ok_def go_active_def trigger_refresh_simps Let_def)
qed

lemma lifecycle_task:
  assumes "lifecycle_ok w" and "i < length (tasks w)" and "tasks w ! i = t"
  shows "task_ok (generation (w_inner w)) (coord_state (w_inner w)) t"
  using assms by (metis lifecycle_ok_def list_all_length)

lemma lifecycle_exit:
  assumes "lifecycle_ok w" and "i < length (tasks w)"
  shows "lifecycle_ok (refresh_exit i w)" and "lifecycle_ok (goto i Finished w)"
  using assms by (auto simp: refresh_exit_def intro!: lifecycle_goto elim: lifecycle_cong)

text \<open>The segments of the refresh loop that only move its program counter.\<close>

lemma lifecycle_move:
  assumes "lifecycle_ok w" and "i < length (tasks w)" and "tasks w ! i = Refresh gen pc"
    and "generation (w_inner w') = generation (w_inner w)"
    and "coord_state (w_inner w') = coord_state (w_inner w)"
    and "stopping (w_inner w') \<longrightarrow> stopping (w_inner w)"
    and "tasks w' = (tasks w)[i := Refresh gen pc']"
  shows "lifecycle_ok w'"
proof -
  have "lifecycle_ok (goto i (Refresh gen pc') w)"
    using assms(1,2) lifecycle_task [OF assms(1,2,3)] by (auto intro!: lifecycle_goto)
  then show ?thesis by (rule lifecycle_cong) (simp_all add: assms)
qed

lemma lifecycle_step:
  assumes "coord_step u env tm w w'" and ok: "lifecycle_ok w"
  shows "lifecycle_ok w'"
  using assms(1)
proof cases
  case CallStart
  then show ?thesis using lifecycle_start [OF ok] by (simp add: coord_start_def)
next
  case CallFresh
  then show ?thesis using ok by (auto simp: request_fresh_snapshot_def intro: lifecycle_trigger)
next
  case CallSleep
  have "lifecycle_ok (begin_new_generation_locked Suspended w)" if "\<not> stopping (w_inner w)"
    using lifecycle_new_generation [OF ok] that by simp
  then show ?thesis
    unfolding CallSleep(1) handle_sleep_or_lock_def
    using ok by (auto simp: lifecycle_ok_def Let_def case_prod_beta split: option.split)
next
  case CallWake
  then show ?thesis using ok
    by (auto simp: handle_wake_or_unlock_def elim!: lifecycle_spawn)
next
  case (CallShutdown reason)
  show ?thesis
  proof (cases "stopping (w_inner w)")
    case False
    have "lifecycle_ok (begin_new_generation_locked Disabled w)"
      using lifecycle_new_generation [OF ok] by simp
    then show ?thesis
      using False no_future_configure
      by (simp add: CallShutdown shutdown_def Let_def lifecycle_ok_def)
  qed (use ok in \<open>simp add: CallShutdown shutdown_def\<close>)
next
  case CallDiscard
  then show ?thesis using ok by (auto simp: discard_authority_def elim: lifecycle_cong)
next
  case (Clock d)
  then show ?thesis using ok by (auto elim: lifecycle_cong)
next
  case (StepConfigureEntry i gen)
  note at = lifecycle_task [OF ok StepConfigureEntry(2,3)]
  show ?thesis
    unfolding StepConfigureEntry(1) configure_entry_def
    using at StepConfigureEntry(2,3) by (auto intro!: lifecycle_goto ok)
next
  case (StepConfigureGate i gen conn)
  note at = lifecycle_task [OF ok StepConfigureGate(2,3)]
  show ?thesis
    unfolding StepConfigureGate(1) configure_gate_def
    using at StepConfigureGate(2,3) lifecycle_leave [OF ok StepConfigureGate(2,3)]
    by (auto intro!: lifecycle_goto ok split: option.split)
next
  case (StepConfigureToken i gen c t)
  note at = lifecycle_task [OF ok StepConfigureToken(2,3)]
  show ?thesis
    unfolding StepConfigureToken(1) configure_token_def degrade_and_retry_def
    using at StepConfigureToken(2,3) lifecycle_leave [OF ok StepConfigureToken(2,3), of Degraded]
    by (auto intro!: lifecycle_goto ok split: option.split sum.split)
next
  case (StepConfigureCapabilities i gen c t url r)
  note leave = lifecycle_leave [OF ok StepConfigureCapabilities(2,3)]
  note act = lifecycle_go_active [OF ok StepConfigureCapabilities(2,3)]
  show ?thesis
    unfolding StepConfigureCapabilities(1)
    by (rule configure_capabilities_cases [of env tm i gen c t url r w])
      (use leave [of Degraded] leave [of UpdateRequired] leave [of ServerFeatureUnavailable] act
        lifecycle_exit(2) [OF ok StepConfigureCapabilities(2)] in \<open>auto simp: degrade_and_retry_def\<close>)
next
  case (StepRetryElapsed i gen d)
  then show ?thesis using ok lifecycle_task [OF ok StepRetryElapsed(2,3)] by (auto intro!: lifecycle_goto)
next
  case (StepRetry i gen)
  then show ?thesis using ok by (auto simp: retry_fired_def Let_def intro!: lifecycle_start lifecycle_exit)
next
  case (StepTick i gen d)
  then show ?thesis using ok lifecycle_task [OF ok StepTick(2,3)] by (auto intro!: lifecycle_goto)
next
  case (StepHeartbeat i gen p)
  then show ?thesis using ok lifecycle_task [OF ok StepHeartbeat(2,3)]
    by (auto simp: heartbeat_fired_def intro!: lifecycle_trigger lifecycle_exit lifecycle_goto)
next
  case (StepRefreshHead i gen)
  show ?thesis
    unfolding StepRefreshHead(1) refresh_head_def Let_def
    using lifecycle_exit(1) [OF ok StepRefreshHead(2)]
    by (auto intro!: lifecycle_move [OF ok StepRefreshHead(2,3)])
next
  case (StepThrottle i gen until)
  show ?thesis
    unfolding StepThrottle(1) by (rule lifecycle_move [OF ok StepThrottle(2,3)]) simp_all
next
  case (StepStamp i gen)
  show ?thesis
    unfolding StepStamp(1) refresh_stamp_def
    using lifecycle_exit(1) [OF ok StepStamp(2)]
    by (auto intro!: lifecycle_move [OF ok StepStamp(2,3)] split: option.split)
next
  case (StepCaptured i gen c m s)
  show ?thesis
    unfolding StepCaptured(1) refresh_captured_def
    using lifecycle_exit(1) [OF ok StepCaptured(2)]
    by (auto intro!: lifecycle_move [OF ok StepCaptured(2,3)])
next
  case (StepSend i gen c s l)
  show ?thesis
    unfolding StepSend(1) refresh_send_def by (rule lifecycle_move [OF ok StepSend(2,3)]) simp_all
next
  case (StepPublished i gen c s l r)
  note at = lifecycle_task [OF ok StepPublished(2,3)]
  have move: "lifecycle_ok (goto i (Refresh gen RHead) w)"
    by (rule lifecycle_move [OF ok StepPublished(2,3)]) simp_all
  have "lifecycle_ok (refresh_exit i (discard_authority w))"
    using lifecycle_exit(1) [OF ok StepPublished(2)]
    by (rule lifecycle_cong) (simp_all add: refresh_exit_def discard_authority_def)
  then have renegotiate: "lifecycle_ok (start_locked (refresh_exit i (discard_authority w)))"
    by (rule lifecycle_start)
  have exit: "lifecycle_ok (refresh_exit i w)" by (rule lifecycle_exit(1) [OF ok StepPublished(2)])
  show ?thesis
  proof (cases "gen = generation (w_inner w)")
    case gen: True
    then have st: "coord_state (w_inner w) \<in> {Active, Degraded}" using at by simp
    have ok1: "lifecycle_ok (log_event Published (set_state_locked Active (goto i (Refresh gen RHead) w)))"
      using lifecycle_state [OF move, of Active] st by (auto elim: lifecycle_cong)
    have "lifecycle_ok (set_state_locked Degraded (refresh_exit i w))"
      using lifecycle_state [OF exit, of Degraded] st by (simp add: refresh_exit_def)
    then have "lifecycle_ok (schedule_retry_locked gen (network_retry_ms tm)
        (set_state_locked Degraded (refresh_exit i w)))"
      by (rule lifecycle_spawn [where ts = "[RetryTimer gen (network_retry_ms tm)]"])
        (simp_all add: gen refresh_exit_def)
    then show ?thesis
      unfolding StepPublished(1) refresh_published_def
      using ok1 renegotiate gen by (auto split: sum.split)
  qed (use exit in \<open>simp add: StepPublished(1) refresh_published_def\<close>)
next
  case (StepClearSend i c r)
  have "lifecycle_ok (goto i (ClearWait c r) w)" using ok StepClearSend by (auto intro!: lifecycle_goto)
  then show ?thesis
    unfolding StepClearSend(1) by (rule lifecycle_cong) (simp_all add: clear_sent_def)
next
  case (StepClearEnd i c r)
  then show ?thesis using ok lifecycle_exit by auto
next
  case (StepRace i c r)
  then show ?thesis using ok lifecycle_exit by auto
next
  case (StepWake i h)
  then show ?thesis using ok by (auto simp: wake_joined_def Let_def intro!: lifecycle_start lifecycle_exit)
next
  case (StepShutdownJoined i r cl ws h)
  have race: "lifecycle_ok (goto i (ShutdownRace x) w)" for x
    using ok StepShutdownJoined(2) by (auto intro!: lifecycle_goto)
  have "lifecycle_ok (goto i (ShutdownRace x) (snd (spawn_clear_best_effort c r d w)))" for x c d
    using race [of x] StepShutdownJoined(2)
    by (simp add: lifecycle_ok_def list_update_append)
  then show ?thesis
    unfolding StepShutdownJoined(1) shutdown_joined_def
    using race by (auto simp: case_prod_beta split: option.split)
next
  case (StepShutdownEnd i h)
  have "lifecycle_ok (goto i Finished w)" using lifecycle_exit [OF ok StepShutdownEnd(2)] by simp
  then show ?thesis
    unfolding StepShutdownEnd(1) by (rule lifecycle_cong) (simp_all add: shutdown_end_def)
qed

lemma lifecycle_reachable: "coord_reachable u env tm w \<Longrightarrow> lifecycle_ok w"
proof (induction rule: coord_reachable.induct)
  case Initial
  then show ?case by (simp add: lifecycle_ok_def world_new_def inner_new_def tasks_def)
qed (rule lifecycle_step)

section \<open>The client and its authority\<close>

definition authority_ok :: "world \<Rightarrow> bool" where
  "authority_ok w \<longleftrightarrow>
     (case coord_client (w_inner w) of
        None \<Rightarrow> True
      | Some c \<Rightarrow> (\<exists>k a. coord_registry (w_inner w) = Some (k, a) \<and> auth_client a = Some c \<and>
                    auth_sequencer a = (fst c, pcl_sequencer (snd c))))"

lemma registry_resolve_result:
  "registry_resolve b d f r = (a, r') \<Longrightarrow> \<exists>k. r' = Some (k, a)"
  by (auto simp: registry_resolve_def Let_def split: option.splits prod.splits if_splits)

lemma authority_ok_build: "authority_ok (build_client c token url conf w)"
proof -
  obtain a r where r: "registry_resolve (base_url c) (device_id c)
      \<lparr>auth_sequencer = (w_arcs w, \<lparr>seq_device = device_id c, seq_floor = pairing_next_sequence c\<rparr>),
       auth_client = None\<rparr> (coord_registry (w_inner w)) = (a, r)" by force
  with registry_resolve_result [OF r] show ?thesis
    by (auto simp: authority_ok_def build_client_def Let_def registry_set_client_def)
qed

lemma authority_ok_cong:
  "coord_client (w_inner w') = coord_client (w_inner w) \<Longrightarrow>
   coord_registry (w_inner w') = coord_registry (w_inner w) \<Longrightarrow> authority_ok w \<Longrightarrow> authority_ok w'"
  by (auto simp: authority_ok_def split: option.splits)

lemma authority_ok_none: "coord_client (w_inner w') = None \<Longrightarrow> authority_ok w'"
  by (simp add: authority_ok_def)

lemma authority_ok_step:
  assumes "coord_step u env tm w w'" and ok: "authority_ok w"
  shows "authority_ok w'"
  using assms(1)
proof cases
  case (StepConfigureCapabilities i gen c t url r)
  have act: "authority_ok (go_active i gen c t url conf w)" for conf
    unfolding go_active_def Let_def
    by (rule authority_ok_cong [OF _ _ authority_ok_build]) (simp_all add: trigger_refresh_simps)
  show ?thesis
    unfolding StepConfigureCapabilities(1)
    by (rule configure_capabilities_cases [of env tm i gen c t url r w])
      (use act ok in \<open>auto simp: degrade_and_retry_def elim: authority_ok_cong [rotated 2]\<close>)
next
  case (StepShutdownEnd i h)
  then show ?thesis by (simp add: shutdown_end_def authority_ok_none)
next
  case CallDiscard
  then show ?thesis by (simp add: discard_authority_def authority_ok_none)
next
  case (StepPublished i gen c s l r)
  then show ?thesis
    using ok by (auto simp: refresh_published_def refresh_exit_def discard_authority_def start_locked_simps
      intro: authority_ok_none elim: authority_ok_cong [rotated 2] split: sum.split)
next
  case (StepShutdownJoined i r cl ws h)
  then show ?thesis using ok
    by (auto simp: shutdown_joined_def case_prod_beta split: option.split elim: authority_ok_cong [rotated 2])
next
  case (StepConfigureToken i gen c t)
  then show ?thesis using ok
    by (auto simp: configure_token_def degrade_and_retry_def split: option.split sum.split
      elim: authority_ok_cong [rotated 2])
next
  case (StepConfigureGate i gen c)
  then show ?thesis using ok
    by (auto simp: configure_gate_def split: option.split elim: authority_ok_cong [rotated 2])
qed (use ok in \<open>auto simp: coord_segment_defs coord_helper_simps Let_def case_prod_beta
      split: option.split elim!: authority_ok_cong [rotated 2]\<close>)

lemma authority_ok_reachable: "coord_reachable u env tm w \<Longrightarrow> authority_ok w"
proof (induction rule: coord_reachable.induct)
  case Initial
  then show ?case by (simp add: authority_ok_def world_new_def inner_new_def)
qed (rule authority_ok_step)

section \<open>The spacing of send starts\<close>

text \<open>\<open>due\<close>: the earliest time of the next send start.\<close>

definition due :: "world \<Rightarrow> int" where
  "due w = last_send_started_at (w_inner w) + int (min_send_interval_ms (w_inner w))"

fun throttled :: "nat \<Rightarrow> int \<Rightarrow> int \<Rightarrow> task \<Rightarrow> bool" where
  "throttled g d now (Refresh h (RThrottle until)) \<longleftrightarrow> (h = g \<longrightarrow> until = d)"
| "throttled g d now (Refresh h RStamp) \<longleftrightarrow> (h = g \<longrightarrow> d \<le> now)"
| "throttled g d now _ \<longleftrightarrow> True"

definition throttle_ok :: "world \<Rightarrow> bool" where
  "throttle_ok w \<longleftrightarrow> list_all (throttled (generation (w_inner w)) (due w) (w_clock w)) (tasks w)"

lemma throttled_later: "throttled g d now t \<Longrightarrow> now \<le> now' \<Longrightarrow> throttled g d now' t"
  by (cases "(g, d, now, t)" rule: throttled.cases) auto

lemma throttled_stale: "task_ok g st t \<Longrightarrow> throttled (Suc g) d now t"
  by (cases "(g, d, now :: int, t)" rule: throttled.cases) auto

lemma throttled_not_refresh: "\<not> is_refresh t \<Longrightarrow> throttled g d now t"
  by (cases t) auto

text \<open>Outside \<open>Active\<close> and \<open>Degraded\<close> no refresh loop belongs to the generation.\<close>

lemma throttled_quiet:
  "task_ok g st t \<Longrightarrow> st \<notin> {Active, Degraded} \<Longrightarrow> throttled g d now t"
  by (cases "(g, d, now :: int, t)" rule: throttled.cases) auto

lemma list_all_mono: "list_all P xs \<Longrightarrow> (\<And>x. P x \<Longrightarrow> Q x) \<Longrightarrow> list_all Q xs"
  by (simp add: list_all_iff)

lemma lifecycle_tasks: "lifecycle_ok w \<Longrightarrow> list_all (task_ok (generation (w_inner w)) (coord_state (w_inner w))) (tasks w)"
  by (simp add: lifecycle_ok_def)

text \<open>A step that keeps generation, due time and clock and adds no waiting loop.\<close>

lemma throttle_cong:
  assumes "throttle_ok w" and "generation (w_inner w') = generation (w_inner w)" and "due w' = due w"
    and "w_clock w' = w_clock w" and "tasks w' = tasks w @ ts" and "list_all (throttled (generation (w_inner w)) (due w) (w_clock w)) ts"
  shows "throttle_ok w'"
  using assms by (simp add: throttle_ok_def)

lemma throttle_goto:
  assumes "throttle_ok w" and "throttled (generation (w_inner w)) (due w) (w_clock w) t"
    and "generation (w_inner w') = generation (w_inner w)" and "due w' = due w"
    and "w_clock w' = w_clock w" and "tasks w' = (tasks w)[i := t] @ ts"
    and "list_all (throttled (generation (w_inner w)) (due w) (w_clock w)) ts"
  shows "throttle_ok w'"
  using assms by (simp add: throttle_ok_def list_all_update)

lemma throttle_new_generation:
  assumes "lifecycle_ok w" and "generation (w_inner w') = Suc (generation (w_inner w))"
    and "tasks w' = ts @ us" and "list_all (task_ok (generation (w_inner w)) st) ts"
    and "list_all (\<lambda>t. \<not> is_refresh t) us"
  shows "throttle_ok w'"
  using assms by (auto simp: throttle_ok_def list_all_iff intro: throttled_stale throttled_not_refresh)

lemma throttle_start:
  assumes "lifecycle_ok w" and "throttle_ok w"
  shows "throttle_ok (start_locked w)"
proof (cases "stopping (w_inner w)")
  case False
  then show ?thesis
    by (intro throttle_new_generation [OF assms(1) _ _ lifecycle_tasks [OF assms(1)],
          where us = "[Configure (Suc (generation (w_inner w))) CfgEntry]"])
      (simp_all add: start_locked_simps)
qed (use assms(2) in \<open>simp add: start_locked_def\<close>)

lemma due_simps [simp]:
  "due (goto i t w) = due w" "due (log_event e w) = due w" "due (set_state_locked st w) = due w"
  "due (schedule_retry_locked gen d w) = due w" "due (trigger_refresh_locked gen w) = due w"
  "due (snd (spawn t w)) = due w" "due (abort h w) = due w"
  "due (snd (spawn_clear_best_effort c r d w)) = due w" "due (w\<lparr>w_clock := x\<rparr>) = due w"
  "due (discard_authority w) = due w" "due (refresh_exit i w) = due w" "due (shutdown_end i w) = due w"
  by (simp_all add: due_def trigger_refresh_simps discard_authority_def refresh_exit_def shutdown_end_def)

lemma only_refresh:
  assumes "count_tasks is_refresh ts \<le> 1" and "i < length ts" and "is_refresh (ts ! i)"
    and "t \<in> set (ts[i := t'])" and "t \<noteq> t'"
  shows "\<not> is_refresh t"
proof -
  have "count_tasks is_refresh (ts[i := Finished]) = 0"
    using assms(1-3) count_tasks_update [of i ts is_refresh Finished] by simp
  then have none: "\<not> is_refresh x" if "x \<in> set (ts[i := Finished])" for x
    using that by (auto simp: count_tasks_def filter_empty_conv)
  obtain j where j: "j < length ts" "t = ts[i := t'] ! j" using assms(4) by (auto simp: in_set_conv_nth)
  then have "j \<noteq> i" using assms(2,5) by auto
  then have "t = ts[i := Finished] ! j" using j by simp
  then show ?thesis using none j(1) by simp
qed

lemma throttle_step:
  assumes "coord_step u env tm w w'" and life: "lifecycle_ok w" and one: "single_flight w" and ok: "throttle_ok w"
  shows "throttle_ok w'"
  using assms(1)
proof cases
  case CallStart
  then show ?thesis using throttle_start [OF life ok] by (simp add: coord_start_def)
next
  case CallFresh
  then show ?thesis using ok
    by (auto simp: request_fresh_snapshot_def throttle_ok_def trigger_refresh_simps)
next
  case CallSleep
  have "throttle_ok w'" if "w' \<noteq> w"
    by (rule throttle_new_generation [OF life, where ts = "tasks w" and us = "drop (length (tasks w)) (tasks w')"])
      (use that lifecycle_tasks [OF life] in \<open>auto simp: CallSleep handle_sleep_or_lock_def Let_def case_prod_beta
        split: option.splits if_splits\<close>)
  then show ?thesis using ok by blast
next
  case CallWake
  then show ?thesis using ok by (auto simp: handle_wake_or_unlock_def throttle_ok_def due_def)
next
  case (CallShutdown reason)
  have "throttle_ok w'" if "w' \<noteq> w"
    by (rule throttle_new_generation [OF life, where ts = "tasks w" and us = "drop (length (tasks w)) (tasks w')"])
      (use that lifecycle_tasks [OF life] in \<open>auto simp: CallShutdown shutdown_def Let_def split: if_splits\<close>)
  then show ?thesis using ok by blast
next
  case CallDiscard
  then show ?thesis using ok by (simp add: throttle_ok_def discard_authority_def due_def)
next
  case (Clock d)
  then show ?thesis using ok
    by (auto simp: throttle_ok_def elim!: list_all_mono throttled_later)
next
  case (StepConfigureCapabilities i gen c t url r)
  have quiet: "coord_state (w_inner w) = Connecting" if "gen = generation (w_inner w)"
    using lifecycle_task [OF life StepConfigureCapabilities(2,3)] that by simp
  have act: "throttle_ok (go_active i gen c t url conf w)" if "gen = generation (w_inner w)" for conf
  proof -
    have "list_all (throttled gen d now) ((tasks w)[i := Finished])" for d now
      using lifecycle_tasks [OF life] quiet [OF that] that
      by (intro list_all_update) (auto simp: list_all_iff intro: throttled_quiet)
    then show ?thesis
      using that by (simp add: throttle_ok_def go_active_def Let_def trigger_refresh_simps)
  qed
  show ?thesis
    unfolding StepConfigureCapabilities(1)
    by (rule configure_capabilities_cases [of env tm i gen c t url r w])
      (use act ok in \<open>auto simp: degrade_and_retry_def throttle_ok_def list_all_update\<close>)
next
  case (StepRetry i gen)
  have "throttle_ok (goto i Finished w)" using ok by (simp add: throttle_ok_def list_all_update)
  then show ?thesis using lifecycle_exit(2) [OF life StepRetry(2)]
    by (auto simp: StepRetry(1) retry_fired_def Let_def intro: throttle_start)
next
  case (StepWake i h)
  have "throttle_ok (goto i Finished w)" using ok by (simp add: throttle_ok_def list_all_update)
  then show ?thesis using lifecycle_exit(2) [OF life StepWake(2)]
    by (auto simp: StepWake(1) wake_joined_def Let_def intro: throttle_start)
next
  case (StepRefreshHead i gen)
  then show ?thesis using ok
    by (auto simp: refresh_head_def Let_def refresh_exit_def throttle_ok_def due_def intro!: list_all_update)
next
  case (StepThrottle i gen until)
  have "throttled (generation (w_inner w)) (due w) (w_clock w) (Refresh gen (RThrottle until))"
    using ok StepThrottle(2,3) by (metis throttle_ok_def list_all_length)
  then show ?thesis using ok StepThrottle(1,4)
    by (auto simp: throttle_ok_def intro!: list_all_update)
next
  case (StepStamp i gen)
  have alone: "\<not> is_refresh t" if "t \<in> set ((tasks w)[i := t'])" "t \<noteq> t'" for t t'
    by (rule only_refresh [OF _ _ _ that]) (use one StepStamp(2,3) in \<open>auto simp: single_flight_def\<close>)
  have "list_all (throttled g d now) ((tasks w)[i := Refresh gen (RCapture c m)])" for g d now c m
    unfolding list_all_iff
  proof
    fix t assume "t \<in> set ((tasks w)[i := Refresh gen (RCapture c m)])"
    then show "throttled g d now t"
      using alone [of t] throttled_not_refresh by (cases "t = Refresh gen (RCapture c m)") auto
  qed
  moreover have "throttle_ok (refresh_exit i w)"
    using ok by (simp add: throttle_ok_def refresh_exit_def due_def list_all_update)
  ultimately show ?thesis
    by (auto simp: StepStamp(1) refresh_stamp_def throttle_ok_def split: option.split)
next
  case (StepPublished i gen c s l r)
  have "throttle_ok (refresh_exit i (discard_authority w))"
    using ok by (simp add: throttle_ok_def refresh_exit_def discard_authority_def due_def list_all_update)
  moreover have "lifecycle_ok (refresh_exit i (discard_authority w))"
    using lifecycle_exit(1) [OF life StepPublished(2)]
    by (rule lifecycle_cong) (simp_all add: refresh_exit_def discard_authority_def)
  ultimately have "throttle_ok (start_locked (refresh_exit i (discard_authority w)))"
    by (intro throttle_start)
  moreover have "throttle_ok (refresh_exit i w)"
    using ok by (simp add: throttle_ok_def refresh_exit_def due_def list_all_update)
  ultimately show ?thesis using ok
    by (auto simp: StepPublished(1) refresh_published_def throttle_ok_def list_all_update split: sum.split)
next
  case (StepShutdownJoined i r cl ws h)
  then show ?thesis using ok
    by (auto simp: shutdown_joined_def case_prod_beta throttle_ok_def list_all_update split: option.split)
next
  case (StepShutdownEnd i h)
  then show ?thesis using ok by (simp add: throttle_ok_def shutdown_end_def due_def list_all_update)
qed (use ok in \<open>auto simp: configure_entry_def configure_gate_def configure_token_def degrade_and_retry_def
    heartbeat_fired_def clear_sent_def refresh_captured_def refresh_send_def refresh_exit_def throttle_ok_def
    trigger_refresh_simps list_all_update due_def
    split: option.splits sum.splits if_splits\<close>)

lemma throttle_reachable: "coord_reachable u env tm w \<Longrightarrow> throttle_ok w"
proof (induction rule: coord_reachable.induct)
  case Initial
  then show ?case by (simp add: throttle_ok_def world_new_def tasks_def)
next
  case (Step w w')
  then show ?case
    using throttle_step lifecycle_reachable single_flight_reachable by blast
qed

end
