(* ===== verification/Coordinator_Runs.thy ===== *)
theory Coordinator_Runs
  imports Coordinator_Safety
begin

text \<open>
  Which steps of the coordinator log a capture, and a concrete run up to \<open>Active\<close>, from which
  the witnesses and the two counter-schedules of \<open>Coordinator_Properties\<close> continue.
\<close>

section \<open>Which step logs what\<close>

fun is_capture :: "event \<Rightarrow> bool" where
  "is_capture (CaptureStarted _ _) = True"
| "is_capture _ = False"

definition captures :: "world \<Rightarrow> event list" where
  "captures w = filter is_capture (w_log w)"

lemma log_primitives [simp]:
  "w_log (on_inner f w) = w_log w" "w_log (log_event e w) = w_log w @ [e]"
  "w_log (snd (spawn t w)) = w_log w" "w_log (abort h w) = w_log w" "w_log (goto i t w) = w_log w"
  "w_log (schedule_retry_locked gen d w) = w_log w" "w_log (trigger_refresh_locked gen w) = w_log w"
  "w_log (spawn_heartbeat_locked gen p w) = w_log w" "w_log (build_client c token url conf w) = w_log w"
  "w_log (snd (spawn_clear_best_effort cl r d w)) = w_log w"
  by (simp_all add: on_inner_def log_event_def spawn_def abort_def goto_def schedule_retry_locked_def
      trigger_refresh_locked_def spawn_heartbeat_locked_def build_client_def spawn_clear_best_effort_def
      Let_def case_prod_beta split: option.split)

lemma captures_simps [simp]:
  "captures (on_inner f w) = captures w" "captures (goto i t w) = captures w"
  "captures (snd (spawn t w)) = captures w" "captures (abort h w) = captures w"
  "captures (schedule_retry_locked gen d w) = captures w" "captures (trigger_refresh_locked gen w) = captures w"
  "captures (spawn_heartbeat_locked gen p w) = captures w" "captures (build_client c token url conf w) = captures w"
  "captures (snd (spawn_clear_best_effort cl r d w)) = captures w"
  "captures (log_event e w) = (if is_capture e then captures w @ [e] else captures w)"
  "captures (w\<lparr>w_clock := x\<rparr>) = captures w"
  by (simp_all add: captures_def)

lemma captures_state [simp]:
  "captures (set_state_locked st w) = captures w" "captures (begin_new_generation_locked st w) = captures w"
  "captures (start_locked w) = captures w"
  by (simp_all add: set_state_locked_def begin_new_generation_locked_def start_locked_def Let_def)

lemma captures_step:
  assumes "coord_step u env tm w w'" and "captures w' \<noteq> captures w"
  obtains i gen c where "i < length (tasks w)" and "tasks w ! i = Refresh gen RStamp"
    and "gen = generation (w_inner w)" and "coord_client (w_inner w) = Some c"
    and "captures w' = captures w @ [CaptureStarted gen (w_clock w)]"
    and "last_send_started_at (w_inner w') = w_clock w"
  using assms(1)
proof cases
  case (StepStamp i gen)
  then show ?thesis using assms(2)
    by (intro that [of i gen "the (coord_client (w_inner w))"])
      (auto simp: refresh_stamp_def refresh_exit_def split: option.splits if_splits)
next
  case (StepConfigureCapabilities i gen c t url r)
  have "captures w' = captures w"
    unfolding StepConfigureCapabilities(1)
    by (rule configure_capabilities_cases [of env tm i gen c t url r w])
      (simp_all add: degrade_and_retry_def go_active_def Let_def)
  then show ?thesis using assms(2) by simp
qed (use assms(2) in \<open>simp_all add: coord_segment_defs Let_def case_prod_beta
    split: if_splits option.splits sum.splits\<close>)

section \<open>The run\<close>

definition sample_connection :: stored_connection where
  "sample_connection =
     \<lparr>base_url = lit ''http://127.0.0.1/'', device_id = sample_uuid, device_name = lit ''pc'', scopes = [],
      pairing_next_sequence = 7, live_desk_enabled = True\<rparr>"

definition sample_reply :: reply where
  "sample_reply = Reply 200 (JsonBody sample_capabilities_json)"

abbreviation reach :: "world \<Rightarrow> bool" where
  "reach \<equiv> coord_reachable ascii_unicode sample_env default_timings"

abbreviation step :: "world \<Rightarrow> world \<Rightarrow> bool" where
  "step \<equiv> coord_step ascii_unicode sample_env default_timings"

text \<open>A run of the tasks and the clock alone, with the stored connection.\<close>

abbreviation task_step :: "world \<Rightarrow> world \<Rightarrow> bool" where
  "task_step \<equiv> coord_step_in {GateRead (Some sample_connection)} ascii_unicode sample_env default_timings"

lemma tasks_at: "i < length (tasks w) \<Longrightarrow> fst (w_tasks w ! i) = tasks w ! i"
  by (simp add: tasks_def del: tasks_length)

lemma world_new_simps:
  "tasks world_new = []" "w_inner world_new = inner_new" "w_clock world_new = 0" "w_log world_new = []"
  by (simp_all add: world_new_def tasks_def)

lemma sample_configure_capabilities:
  "gen = generation (w_inner w) \<Longrightarrow>
   configure_capabilities sample_env default_timings i gen c t url sample_reply w =
   go_active i gen c t url sample_configuration w"
proof -
  assume gen: "gen = generation (w_inner w)"
  obtain m where "decode_capabilities_response epoch_calendar sample_capabilities_json =
     Inr \<lparr>cap_meta = m, cap_data = sample_capabilities\<rparr>"
    using sample_capabilities_decode by blast
  then have "snd (execute epoch_calendar sample_crate url capabilities_options
      (decode_capabilities_response epoch_calendar) sample_reply) = Inr \<lparr>cap_meta = m, cap_data = sample_capabilities\<rparr>"
    by (simp add: execute_def build_request_def capabilities_options_def handle_reply_def sample_reply_def
        check_request_id_echo_def)
  with gen show ?thesis
    by (simp add: configure_capabilities_def sample_env_def sample_negotiates)
qed

lemma go_active_facts:
  assumes "coord_state (w_inner w) = Connecting"
  shows "tasks (go_active i gen c t url conf w) =
      (tasks w)[i := Finished] @ HeartbeatTimer gen (heartbeat_of conf) #
      (if refresh_loop_running (w_inner w) then [] else [Refresh gen RHead])"
    and "w_log (go_active i gen c t url conf w) = w_log w @ [StateChanged Active]"
    and "w_clock (go_active i gen c t url conf w) = w_clock w"
    and "generation (w_inner (go_active i gen c t url conf w)) = generation (w_inner w)"
    and "coord_state (w_inner (go_active i gen c t url conf w)) = Active"
    and "stopping (w_inner (go_active i gen c t url conf w)) = stopping (w_inner w)"
    and "refresh_requested (w_inner (go_active i gen c t url conf w))"
    and "refresh_loop_running (w_inner (go_active i gen c t url conf w))"
    and "coord_client (w_inner (go_active i gen c t url conf w)) \<noteq> None"
    and "cleanup_task (w_inner (go_active i gen c t url conf w)) = cleanup_task (w_inner w)"
    and "last_send_started_at (w_inner (go_active i gen c t url conf w)) = last_send_started_at (w_inner w)"
    and "min_send_interval_ms (w_inner (go_active i gen c t url conf w)) = min_send_of conf"
  using assms
  by (simp_all add: go_active_def Let_def trigger_refresh_simps set_state_locked_def build_client_def case_prod_beta)

lemma coord_step_mono: "coord_step_in A u env tm w w' \<Longrightarrow> A \<subseteq> B \<Longrightarrow> coord_step_in B u env tm w w'"
  by (induction rule: coord_step_in.induct) (auto intro: coord_step_in.intros)

lemma run_reachable:
  assumes "coord_reachable u env tm w" and "(coord_step_in A u env tm)\<^sup>*\<^sup>* w w'"
  shows "coord_reachable u env tm w'"
  using assms(2,1) by induction (auto intro: coord_reachable.Step coord_step_mono)

text \<open>A configure attempt of the current generation that finds everything in order.\<close>

lemma negotiation_run:
  assumes "reach w" and "i < length (tasks w)" and "tasks w ! i = Configure gen CfgEntry"
    and "gen = generation (w_inner w)" and "coord_state (w_inner w) = Connecting"
  obtains w' where "task_step\<^sup>*\<^sup>* w w'" and "reach w'" and "tasks w' = (tasks w)[i := Finished] @
      HeartbeatTimer gen (heartbeat_of sample_configuration) #
      (if refresh_loop_running (w_inner w) then [] else [Refresh gen RHead])"
    and "w_log w' = w_log w @ [StateChanged Active]" and "w_clock w' = w_clock w"
    and "generation (w_inner w') = gen" and "coord_state (w_inner w') = Active"
    and "stopping (w_inner w') = stopping (w_inner w)" and "refresh_requested (w_inner w')"
    and "refresh_loop_running (w_inner w')" and "coord_client (w_inner w') \<noteq> None"
    and "cleanup_task (w_inner w') = cleanup_task (w_inner w)"
    and "last_send_started_at (w_inner w') = last_send_started_at (w_inner w)"
    and "min_send_interval_ms (w_inner w') = 2000"
proof -
  let ?url = "sample_url ''http'' ''127.0.0.1''"
  define w1 where "w1 = goto i (Configure gen CfgGate) w"
  define w2 where "w2 = goto i (Configure gen (CfgToken sample_connection)) w1"
  define w3 where "w3 = goto i (Configure gen (CfgCapabilities sample_connection (lit ''t'') ?url)) w2"
  note defs = w1_def w2_def w3_def
  have s1: "task_step w w1"
    using StepConfigureEntry [OF assms(2,3)] by (simp add: configure_entry_def w1_def assms(4))
  have "task_step w1 (configure_gate i gen (Some sample_connection) w1)"
    by (rule StepConfigureGate) (use assms(2) in \<open>simp_all add: w1_def\<close>)
  then have s2: "task_step w1 w2" by (simp add: configure_gate_def sample_connection_def w2_def)
  have "task_step w2 (configure_token ascii_unicode sample_env default_timings i gen sample_connection (Some (lit ''t'')) w2)"
    by (rule StepConfigureToken) (use assms(2) in \<open>simp_all add: w1_def w2_def\<close>)
  then have s3: "task_step w2 w3"
    using sample_server
    by (simp add: configure_token_def sample_connection_def sample_env_def w1_def w2_def w3_def assms(4))
  have "task_step w3 (configure_capabilities sample_env default_timings i gen sample_connection (lit ''t'') ?url sample_reply w3)"
    by (rule StepConfigureCapabilities) (use assms(2) in \<open>simp_all add: defs\<close>)
  moreover have g3: "gen = generation (w_inner w3)" using assms(4) by (simp add: defs)
  ultimately have s4: "task_step w3 (go_active i gen sample_connection (lit ''t'') ?url sample_configuration w3)"
    using sample_configure_capabilities by metis
  have c3: "coord_state (w_inner w3) = Connecting" using assms(5) by (simp add: defs)
  have min: "min_send_of sample_configuration = 2000"
    by (simp add: min_send_of_def sample_configuration_def)
  have t3: "(tasks w3)[i := Finished] = (tasks w)[i := Finished]" and l3: "w_log w3 = w_log w"
    and k3: "w_clock w3 = w_clock w" and i3: "w_inner w3 = w_inner w"
    by (simp_all add: defs)
  define w4 where "w4 = go_active i gen sample_connection (lit ''t'') ?url sample_configuration w3"
  note facts = go_active_facts [OF c3, of i gen sample_connection "lit ''t''" ?url sample_configuration,
      folded w4_def, unfolded t3 l3 k3 i3 min]
  have run: "task_step\<^sup>*\<^sup>* w w4"
    using s1 s2 s3 s4 unfolding w4_def by (meson rtranclp.rtrancl_into_rtrancl rtranclp.rtrancl_refl)
  show ?thesis
    by (rule that [OF run run_reachable [OF assms(1) run]]) (rule facts | simp only: facts assms(4))+
qed

text \<open>The coordinator after its first successful negotiation.\<close>

lemma active_run:
  obtains w h where "reach w" and "tasks w = [Finished, HeartbeatTimer 1 h, Refresh 1 RHead]"
    and "generation (w_inner w) = 1" and "coord_state (w_inner w) = Active"
    and "\<not> stopping (w_inner w)" and "refresh_requested (w_inner w)"
    and "refresh_loop_running (w_inner w)" and "coord_client (w_inner w) \<noteq> None"
    and "cleanup_task (w_inner w) = None"
    and "last_send_started_at (w_inner w) = 0" and "min_send_interval_ms (w_inner w) = 2000"
    and "w_clock w = 0" and "captures w = []" and "task_step\<^sup>*\<^sup>* (coord_start world_new) w"
proof -
  let ?w = "coord_start world_new"
  have r: "reach ?w" by (rule coord_reachable.Step [OF coord_reachable.Initial CallStart [OF UNIV_I]])
  have t: "tasks ?w = [Configure 1 CfgEntry]" and i: "w_inner ?w = inner_new\<lparr>generation := 1, coord_state := Connecting\<rparr>"
    and c: "w_clock ?w = 0"
    by (simp_all add: coord_start_def start_locked_simps world_new_simps inner_new_def)
  have l: "filter is_capture (w_log ?w) = []"
    using captures_state(3) [of world_new] by (simp add: coord_start_def captures_def world_new_simps)
  obtain w where "task_step\<^sup>*\<^sup>* ?w w" and "reach w" and "tasks w = (tasks ?w)[0 := Finished] @
      HeartbeatTimer 1 (heartbeat_of sample_configuration) #
      (if refresh_loop_running (w_inner ?w) then [] else [Refresh 1 RHead])"
    and "w_log w = w_log ?w @ [StateChanged Active]" and "w_clock w = w_clock ?w"
    and "generation (w_inner w) = 1" and "coord_state (w_inner w) = Active"
    and "stopping (w_inner w) = stopping (w_inner ?w)" and "refresh_requested (w_inner w)"
    and "refresh_loop_running (w_inner w)" and "coord_client (w_inner w) \<noteq> None"
    and "cleanup_task (w_inner w) = cleanup_task (w_inner ?w)"
    and "last_send_started_at (w_inner w) = last_send_started_at (w_inner ?w)"
    and "min_send_interval_ms (w_inner w) = 2000"
    by (rule negotiation_run [OF r, of 0 1]) (simp_all add: t i)
  then show ?thesis
    by (intro that [of w "heartbeat_of sample_configuration"]) (simp_all add: t i c l inner_new_def captures_def)
qed

end
