(* ===== verification/Coordinator_Properties.thy ===== *)
theory Coordinator_Properties
  imports Coordinator_Runs
begin

text \<open>
  Properties of the coordinator over all reachable worlds, and the two schedules in which it
  does not do what its comments promise.
\<close>

section \<open>Properties\<close>

text \<open>
  Single flight. In every reachable world at most one refresh loop is alive, whatever the
  generation it was spawned for, and the flag \<open>refresh_loop_running\<close> says exactly whether
  there is one.
\<close>

theorem one_refresh_loop:
  assumes "coord_reachable u env tm w"
  shows "count_tasks is_refresh (tasks w) \<le> 1 \<and>
    (refresh_loop_running (w_inner w) \<longleftrightarrow> count_tasks is_refresh (tasks w) = 1)"
  using single_flight_reachable [OF assms] by (simp add: single_flight_def)

text \<open>The generation a task belongs to, and the states in which a task of the current one may live.\<close>

fun task_generation :: "task \<Rightarrow> nat option" where
  "task_generation (Configure g _) = Some g"
| "task_generation (RetryTimer g _) = Some g"
| "task_generation (RetryFired g) = Some g"
| "task_generation (HeartbeatTimer g _) = Some g"
| "task_generation (HeartbeatFired g _) = Some g"
| "task_generation (Refresh g _) = Some g"
| "task_generation _ = None"

lemma task_ok_generation: "task_ok g st t \<Longrightarrow> task_generation t = Some h \<Longrightarrow> h \<le> g"
  by (cases t) auto

lemma task_ok_quiet:
  "task_ok g st t \<Longrightarrow> st \<in> {NotPaired, Disabled, Suspended, UpdateRequired} \<Longrightarrow> task_generation t \<noteq> Some g"
  by (cases t) auto

fun home_states :: "task \<Rightarrow> runtime_state set" where
  "home_states (Configure _ _) = {Connecting}"
| "home_states (RetryTimer _ _) = {Active, Degraded, ServerFeatureUnavailable}"
| "home_states (RetryFired _) = {Active, Degraded, ServerFeatureUnavailable}"
| "home_states (HeartbeatTimer _ _) = {Active, Degraded}"
| "home_states (HeartbeatFired _ _) = {Active, Degraded}"
| "home_states (Refresh _ _) = {Active, Degraded}"
| "home_states _ = UNIV"

lemma task_ok_home:
  "task_ok g st t \<Longrightarrow> task_generation t = Some h \<Longrightarrow> h \<le> g \<and> (h = g \<longrightarrow> st \<in> home_states t)"
  by (cases t) auto

text \<open>
  C3: the runtime state governs the tasks. In every reachable world no task is of a future
  generation; and of the current generation a refresh loop and a heartbeat (waiting or fired) is alive
  only in \<open>Active\<close> and \<open>Degraded\<close>, a configure attempt only in \<open>Connecting\<close> and then only one, a retry
  (waiting or fired) only in \<open>Active\<close>, \<open>Degraded\<close> and \<open>ServerFeatureUnavailable\<close>. So \<open>Disabled\<close>,
  \<open>Suspended\<close> and \<open>UpdateRequired\<close> have no task of the current generation; and while a shutdown is in
  flight the state is \<open>Disabled\<close>.
\<close>

theorem runtime_state_governs_tasks:
  assumes "coord_reachable u env tm w"
  shows "(\<forall>t \<in> set (tasks w). \<forall>g. task_generation t = Some g \<longrightarrow>
       g \<le> generation (w_inner w) \<and>
       (g = generation (w_inner w) \<longrightarrow> coord_state (w_inner w) \<in> home_states t \<and>
          coord_state (w_inner w) \<notin> {NotPaired, Disabled, Suspended, UpdateRequired})) \<and>
    count_tasks (is_configure (generation (w_inner w))) (tasks w) \<le> 1 \<and>
    (stopping (w_inner w) \<longrightarrow> coord_state (w_inner w) = Disabled)"
proof -
  note life = lifecycle_reachable [OF assms(1), unfolded lifecycle_ok_def]
  have ok: "task_ok (generation (w_inner w)) (coord_state (w_inner w)) t" if "t \<in> set (tasks w)" for t
    using life that by (simp add: list_all_iff)
  show ?thesis
    using life task_ok_home [OF ok] task_ok_quiet [OF ok] by blast
qed

text \<open>
  C14: a publish cycle begins only while publishing is on, and never too early. Whenever a step
  of a reachable world starts a capture, the capture is for the current generation, the state
  is \<open>Active\<close> or \<open>Degraded\<close>, no shutdown is in flight, a negotiated client exists, and at least
  \<open>min_send_interval_ms\<close> have passed since the previous send start.
\<close>

theorem capture_starts_are_spaced:
  assumes "coord_reachable u env tm w" and "coord_step u env tm w w'" and "captures w' \<noteq> captures w"
  shows "captures w' = captures w @ [CaptureStarted (generation (w_inner w)) (w_clock w)] \<and>
    coord_state (w_inner w) \<in> {Active, Degraded} \<and> \<not> stopping (w_inner w) \<and>
    coord_client (w_inner w) \<noteq> None \<and> last_send_started_at (w_inner w') = w_clock w \<and>
    last_send_started_at (w_inner w) + int (min_send_interval_ms (w_inner w)) \<le> w_clock w"
proof -
  obtain i gen c where at: "i < length (tasks w)" "tasks w ! i = Refresh gen RStamp"
    and gen: "gen = generation (w_inner w)" and c: "coord_client (w_inner w) = Some c"
    and cap: "captures w' = captures w @ [CaptureStarted gen (w_clock w)]"
    and last: "last_send_started_at (w_inner w') = w_clock w"
    using captures_step [OF assms(2,3)] by blast
  have life: "lifecycle_ok w" by (rule lifecycle_reachable [OF assms(1)])
  have st: "coord_state (w_inner w) \<in> {Active, Degraded}"
    using lifecycle_task [OF life at] gen by simp
  then have "\<not> stopping (w_inner w)" using life by (auto simp: lifecycle_ok_def)
  moreover have "throttled (generation (w_inner w)) (due w) (w_clock w) (Refresh gen RStamp)"
    using throttle_reachable [OF assms(1)] at by (metis throttle_ok_def list_all_length)
  ultimately show ?thesis using st c cap last gen by (simp add: due_def)
qed

text \<open>
  One ordered writer. In every reachable world the current client is the one its authority
  registered, and it writes through the sequencer of that authority.
\<close>

theorem client_is_registered:
  assumes "coord_reachable u env tm w" and "coord_client (w_inner w) = Some c"
  shows "\<exists>k a. coord_registry (w_inner w) = Some (k, a) \<and> auth_client a = Some c \<and>
    auth_sequencer a = (fst c, pcl_sequencer (snd c))"
  using authority_ok_reachable [OF assms(1)] assms(2) by (simp add: authority_ok_def)

section \<open>Witnesses\<close>

lemma one_refresh_loop_witness:
  "\<exists>w. reach w \<and> coord_state (w_inner w) = Active \<and> count_tasks is_refresh (tasks w) = 1"
proof -
  obtain w where w: "reach w" "coord_state (w_inner w) = Active" "refresh_loop_running (w_inner w)"
    by (rule active_run)
  with one_refresh_loop [OF w(1)] show ?thesis by blast
qed

lemma runtime_state_governs_tasks_witness:
  "\<exists>w h. reach w \<and> tasks w = [Finished, HeartbeatTimer 1 h, Refresh 1 RHead] \<and> generation (w_inner w) = 1 \<and>
     coord_state (w_inner w) \<in> home_states (HeartbeatTimer 1 h) \<inter> home_states (Refresh 1 RHead)"
proof -
  obtain w h where w: "reach w" "tasks w = [Finished, HeartbeatTimer 1 h, Refresh 1 RHead]"
    "generation (w_inner w) = 1"
    by (rule active_run)
  have "HeartbeatTimer 1 h \<in> set (tasks w)" "Refresh 1 RHead \<in> set (tasks w)" using w(2) by simp_all
  with runtime_state_governs_tasks [OF w(1)] w show ?thesis by fastforce
qed

text \<open>The refresh loop of the run, up to its first stamp and on to its send.\<close>

lemma stamp_run:
  obtains w h where "reach w" and "tasks w = [Finished, HeartbeatTimer 1 h, Refresh 1 RStamp]"
    and "generation (w_inner w) = 1" and "coord_state (w_inner w) = Active"
    and "\<not> stopping (w_inner w)" and "coord_client (w_inner w) \<noteq> None" and "cleanup_task (w_inner w) = None"
    and "captures w = []" and "task_step\<^sup>*\<^sup>* (coord_start world_new) w"
proof -
  obtain w h where w: "reach w" "tasks w = [Finished, HeartbeatTimer 1 h, Refresh 1 RHead]"
    "generation (w_inner w) = 1" "coord_state (w_inner w) = Active" "\<not> stopping (w_inner w)"
    "refresh_requested (w_inner w)" "coord_client (w_inner w) \<noteq> None" "cleanup_task (w_inner w) = None"
    "last_send_started_at (w_inner w) = 0" "min_send_interval_ms (w_inner w) = 2000"
    "w_clock w = 0" "captures w = []" "task_step\<^sup>*\<^sup>* (coord_start world_new) w"
    by (rule active_run)
  define w1 where "w1 = refresh_head 2 1 w"
  have s1: "task_step w w1" unfolding w1_def by (rule StepRefreshHead) (simp_all add: w numeral_2_eq_2)
  have w1: "w1 = goto 2 (Refresh 1 (RThrottle 2000)) (on_inner (\<lambda>s. s\<lparr>refresh_requested := False\<rparr>) w)"
    by (simp add: w1_def refresh_head_def w Let_def)
  define w2 where "w2 = w1\<lparr>w_clock := w_clock w1 + 2000\<rparr>"
  have s2: "task_step w1 w2" unfolding w2_def by (rule Clock) simp
  have s3: "task_step w2 (goto 2 (Refresh 1 RStamp) w2)"
    by (rule StepThrottle [where until = 2000]) (simp_all add: w2_def w1 w numeral_2_eq_2)
  have run: "task_step\<^sup>*\<^sup>* w (goto 2 (Refresh 1 RStamp) w2)"
    using s1 s2 s3 by (meson rtranclp.rtrancl_into_rtrancl rtranclp.rtrancl_refl)
  show ?thesis
    by (rule that [OF run_reachable [OF w(1) run]]) (use rtranclp_trans [OF w(13) run] in \<open>simp_all add: w2_def w1 w numeral_2_eq_2\<close>)
qed

lemma capture_starts_are_spaced_witness:
  "\<exists>w w'. reach w \<and> step w w' \<and> captures w' = [CaptureStarted 1 (w_clock w)] \<and>
     coord_state (w_inner w) \<in> {Active, Degraded}"
proof -
  obtain w h where w: "reach w" "tasks w = [Finished, HeartbeatTimer 1 h, Refresh 1 RStamp]"
    "generation (w_inner w) = 1" "coord_client (w_inner w) \<noteq> None" "captures w = []"
    by (rule stamp_run)
  have s: "step w (refresh_stamp 2 1 w)"
    by (rule StepStamp) (simp_all add: w numeral_2_eq_2)
  have "captures (refresh_stamp 2 1 w) \<noteq> captures w"
    using w by (auto simp: refresh_stamp_def)
  from capture_starts_are_spaced [OF w(1) s this] w s show ?thesis by auto
qed

lemma client_is_registered_witness:
  "\<exists>w c k a. reach w \<and> coord_client (w_inner w) = Some c \<and> coord_registry (w_inner w) = Some (k, a) \<and>
     auth_client a = Some c"
proof -
  obtain w where w: "reach w" "coord_client (w_inner w) \<noteq> None" by (rule active_run)
  then obtain c where "coord_client (w_inner w) = Some c" by blast
  with client_is_registered [OF w(1) this] w show ?thesis by blast
qed

section \<open>Two schedules\<close>

text \<open>Sleep and wake with the refresh loop of the first generation still at its head.\<close>

lemma sleep_wake_run:
  obtains w0 w2 w c h where "reach w0" and "coord_state (w_inner w0) = Active"
    and "w2 = handle_wake_or_unlock (handle_sleep_or_lock default_timings w0)"
    and "coord_state (w_inner w2) = Suspended" and "task_step\<^sup>*\<^sup>* w2 w"
    and "reach w" and "tasks w = [Finished, HeartbeatTimer 1 h, Refresh 1 RHead, ClearRequest c CSleep,
      Finished, Finished, Configure 3 CfgEntry]"
    and "generation (w_inner w) = 3" and "coord_state (w_inner w) = Connecting"
    and "refresh_loop_running (w_inner w)" and "captures w = []"
proof -
  obtain w h where w: "reach w" "tasks w = [Finished, HeartbeatTimer 1 h, Refresh 1 RHead]"
    "generation (w_inner w) = 1" "coord_state (w_inner w) = Active" "\<not> stopping (w_inner w)"
    "refresh_loop_running (w_inner w)" "coord_client (w_inner w) \<noteq> None" "captures w = []"
    by (rule active_run)
  then obtain c where c: "coord_client (w_inner w) = Some c" by blast
  define w1 where "w1 = handle_sleep_or_lock default_timings w"
  have r1: "reach w1" unfolding w1_def by (rule coord_reachable.Step [OF w(1) CallSleep [OF UNIV_I]])
  have t1: "tasks w1 = [Finished, HeartbeatTimer 1 h, Refresh 1 RHead, ClearRequest c CSleep, ClearRace 3 500]"
    and i1: "generation (w_inner w1) = 2" "coord_state (w_inner w1) = Suspended" "\<not> stopping (w_inner w1)"
      "refresh_loop_running (w_inner w1)" "cleanup_task (w_inner w1) = Some 4"
    and c1: "captures w1 = []"
    using w c by (simp_all add: w1_def handle_sleep_or_lock_def Let_def case_prod_beta default_timings_def
        spawn_clear_best_effort_def)
  define w2 where "w2 = handle_wake_or_unlock w1"
  have r2: "reach w2" unfolding w2_def by (rule coord_reachable.Step [OF r1 CallWake [OF UNIV_I]])
  have t2: "tasks w2 = tasks w1 @ [WakeJoin (Some 4)]"
    and i2: "w_inner w2 = (w_inner w1)\<lparr>cleanup_task := None\<rparr>" and c2: "captures w2 = []"
    using i1 c1 by (simp_all add: w2_def handle_wake_or_unlock_def)
  define w3 where "w3 = goto 4 Finished w2"
  have s3: "task_step w2 w3" unfolding w3_def by (rule StepRace [of 4 _ 3 500]) (simp_all add: t2 t1)
  have t3: "tasks w3 = [Finished, HeartbeatTimer 1 h, Refresh 1 RHead, ClearRequest c CSleep, Finished,
      WakeJoin (Some 4)]" and i3: "w_inner w3 = w_inner w2" and c3: "captures w3 = []"
    using c2 by (simp_all add: w3_def t2 t1)
  define w4 where "w4 = wake_joined 5 w3"
  have "task_step w3 w4" unfolding w4_def
    by (rule StepWake [where h = "Some 4"]) (simp_all add: t3 joined_def tasks_at)
  with s3 have run: "task_step\<^sup>*\<^sup>* w2 w4" by (meson rtranclp.rtrancl_into_rtrancl rtranclp.rtrancl_refl)
  note r4 = run_reachable [OF r2 run]
  have t4: "tasks w4 = [Finished, HeartbeatTimer 1 h, Refresh 1 RHead, ClearRequest c CSleep, Finished,
      Finished, Configure 3 CfgEntry]"
    and i4: "generation (w_inner w4) = 3" "coord_state (w_inner w4) = Connecting" "refresh_loop_running (w_inner w4)"
    and c4: "captures w4 = []"
    using i1 c3 by (simp_all add: w4_def wake_joined_def start_locked_simps t3 i3 i2)
  have "w2 = handle_wake_or_unlock (handle_sleep_or_lock default_timings w)" "coord_state (w_inner w2) = Suspended"
    using i1 i2 by (simp_all add: w2_def w1_def)
  from w(1,4) this run r4 t4 i4 c4 show ?thesis by (rule that)
qed

text \<open>
  A lost wake-up. There is a schedule of sleep, wake and renegotiation after which the
  coordinator is \<open>Active\<close> under a fresh generation with a refresh requested, and no refresh loop
  alive: the trigger of the new generation found the flag of the previous generation's loop,
  which then exits without serving the request. Nothing has been captured, and the first
  publish waits for the next heartbeat or foreground change.
\<close>

theorem refresh_request_lost:
  "\<exists>u env tm w. coord_reachable u env tm w \<and> coord_state (w_inner w) = Active \<and>
     refresh_requested (w_inner w) \<and> \<not> refresh_loop_running (w_inner w) \<and>
     count_tasks is_refresh (tasks w) = 0 \<and> captures w = []"
proof -
  obtain w4 c h where r4: "reach w4" and t4: "tasks w4 = [Finished, HeartbeatTimer 1 h, Refresh 1 RHead,
      ClearRequest c CSleep, Finished, Finished, Configure 3 CfgEntry]"
    and i4: "generation (w_inner w4) = 3" "coord_state (w_inner w4) = Connecting" "refresh_loop_running (w_inner w4)"
    and c4: "captures w4 = []"
    by (rule sleep_wake_run)
  obtain w5 where w5: "reach w5" "tasks w5 = (tasks w4)[6 := Finished] @
      HeartbeatTimer 3 (heartbeat_of sample_configuration) # []"
    "w_log w5 = w_log w4 @ [StateChanged Active]" "generation (w_inner w5) = 3"
    "coord_state (w_inner w5) = Active" "refresh_requested (w_inner w5)"
    by (rule negotiation_run [OF r4, of 6 3]) (simp_all add: t4 i4)
  define w6 where "w6 = refresh_head 2 1 w5"
  have "step w5 w6" unfolding w6_def by (rule StepRefreshHead) (simp_all add: w5 t4)
  then have "reach w6" by (rule coord_reachable.Step [OF w5(1)])
  moreover have "w6 = refresh_exit 2 w5" by (simp add: w6_def refresh_head_def w5 Let_def)
  ultimately show ?thesis
    using w5 c4 by (intro exI [of _ ascii_unicode] exI [of _ sample_env] exI [of _ default_timings] exI [of _ w6])
      (simp add: refresh_exit_def t4 captures_def)
qed

text \<open>The loop up to the point where its publish is checked but not yet sent.\<close>

lemma checked_run:
  obtains w c h lease where "reach w"
    and "tasks w = [Finished, HeartbeatTimer 1 h, Refresh 1 (RSend c sample_snapshot lease)]"
    and "\<not> stopping (w_inner w)" and "coord_state (w_inner w) = Active" and "coord_client (w_inner w) = Some c"
    and "cleanup_task (w_inner w) = None"
proof -
  obtain w h where w: "reach w" "tasks w = [Finished, HeartbeatTimer 1 h, Refresh 1 RStamp]"
    "generation (w_inner w) = 1" "coord_state (w_inner w) = Active" "\<not> stopping (w_inner w)"
    "coord_client (w_inner w) \<noteq> None" "cleanup_task (w_inner w) = None"
    by (rule stamp_run)
  then obtain c where c: "coord_client (w_inner w) = Some c" by blast
  define w1 where "w1 = refresh_stamp 2 1 w"
  have "step w w1" unfolding w1_def by (rule StepStamp) (simp_all add: w)
  then have r1: "reach w1" by (rule coord_reachable.Step [OF w(1)])
  obtain media where t1: "tasks w1 = [Finished, HeartbeatTimer 1 h, Refresh 1 (RCapture c media)]"
    and i1: "w_inner w1 = (w_inner w)\<lparr>last_send_started_at := w_clock w\<rparr>"
    by (simp add: w1_def refresh_stamp_def w c)
  define w2 where "w2 = refresh_captured 2 1 c sample_snapshot w1"
  have "step w1 w2" unfolding w2_def by (rule StepCaptured) (simp_all add: t1)
  then have r2: "reach w2" by (rule coord_reachable.Step [OF r1])
  obtain lease where t2: "tasks w2 = [Finished, HeartbeatTimer 1 h, Refresh 1 (RSend c sample_snapshot lease)]"
    and i2: "w_inner w2 = w_inner w1"
    by (simp add: w2_def refresh_captured_def w t1 i1)
  from r2 t2 show ?thesis by (rule that) (simp_all add: i2 i1 w c)
qed

text \<open>
  A publish after the final clear. The generation is checked before \<open>replace_presence\<close> takes
  the send slot, so there is a schedule in which disabling Live Desk sends its clear and the
  already checked publish follows it, although the coordinator is \<open>Disabled\<close>: the presence stays
  visible until its lease ends.
\<close>

theorem publish_after_clear:
  "\<exists>u env tm w c s lease pre. coord_reachable u env tm w \<and> coord_state (w_inner w) = Disabled \<and>
     w_log w = pre @ [ClearSent c CPaused, PublishSent c s lease]"
proof -
  obtain w2 c h lease where r2: "reach w2"
    and t2: "tasks w2 = [Finished, HeartbeatTimer 1 h, Refresh 1 (RSend c sample_snapshot lease)]"
    and w2: "\<not> stopping (w_inner w2)" "coord_state (w_inner w2) = Active" "coord_client (w_inner w2) = Some c"
      "cleanup_task (w_inner w2) = None"
    by (rule checked_run)
  define w3 where "w3 = shutdown CPaused w2"
  have r3: "reach w3" unfolding w3_def by (rule coord_reachable.Step [OF r2 CallShutdown [OF UNIV_I]])
  have t3: "tasks w3 = tasks w2 @ [ShutdownJoin CPaused (Some c) False None]"
    and s3: "coord_state (w_inner w3) = Disabled"
    by (simp_all add: w3_def shutdown_def w2 Let_def)
  define w4 where "w4 = shutdown_joined default_timings 3 CPaused (Some c) False w3"
  have "step w3 w4" unfolding w4_def by (rule StepShutdownJoined [where h = None]) (simp_all add: t3 t2 joined_def)
  then have r4: "reach w4" by (rule coord_reachable.Step [OF r3])
  have t4: "\<exists>rest. tasks w4 = [Finished, HeartbeatTimer 1 h, Refresh 1 (RSend c sample_snapshot lease), rest,
      ClearRequest c CPaused, ClearRace 4 800]"
    and s4: "coord_state (w_inner w4) = Disabled"
    using s3 by (simp_all add: w4_def shutdown_joined_def t3 t2 case_prod_beta default_timings_def)
  then obtain rest where t4: "tasks w4 = [Finished, HeartbeatTimer 1 h,
      Refresh 1 (RSend c sample_snapshot lease), rest, ClearRequest c CPaused, ClearRace 4 800]" by blast
  define w5 where "w5 = clear_sent 4 c CPaused w4"
  have "step w4 w5" unfolding w5_def by (rule StepClearSend) (simp_all add: t4)
  then have r5: "reach w5" by (rule coord_reachable.Step [OF r4])
  have "step w5 (refresh_send 2 1 c sample_snapshot lease w5)"
    by (rule StepSend) (simp_all add: w5_def clear_sent_def t4)
  then have "reach (refresh_send 2 1 c sample_snapshot lease w5)" by (rule coord_reachable.Step [OF r5])
  moreover have "w_log (refresh_send 2 1 c sample_snapshot lease w5) =
      w_log w4 @ [ClearSent c CPaused, PublishSent c sample_snapshot lease]"
    and "coord_state (w_inner (refresh_send 2 1 c sample_snapshot lease w5)) = Disabled"
    using s4 by (simp_all add: refresh_send_def w5_def clear_sent_def)
  ultimately show ?thesis by blast
qed

section \<open>Negotiated timing\<close>

lemma f_of_int_exact: "\<bar>n\<bar> \<le> 2 ^ 53 \<Longrightarrow> f_of_int n = Fin (of_int n)"
  by (simp add: f_of_int_def f_round_int)

lemma f_max_Fin: "f_max (Fin x) (Fin y) = Fin (max x y)"
  by (simp add: f_max_def max_def)

lemma f_min_Fin: "f_min (Fin x) (Fin y) = Fin (min x y)"
  by (simp add: f_min_def min_def)

lemma decoded_limits_safe:
  assumes "decode_capabilities_response cal v = Inr caps" and "x \<in> set (limit_list (cd_limits (cap_data caps)))"
  shows "\<bar>x\<bar> \<le> 2 ^ 53"
proof -
  have "nat \<bar>x\<bar> \<le> MAXIMUM_SAFE_WIRE_INTEGER"
    using assms by (auto simp: decode_capabilities_response_def json_simps)
  then show ?thesis by (simp add: MAXIMUM_SAFE_WIRE_INTEGER_def)
qed

lemma div_ceil_bounds:
  fixes n k :: nat
  assumes "0 < k" and "c = n div k + (if n mod k > 0 then 1 else 0)" and "0 < n"
  shows "n \<le> k * c" and "k * (c - 1) < n"
proof -
  obtain q m where qm: "q = n div k" "m = n mod k" by blast
  then have n: "n = k * q + m" and m: "m < k" using assms(1) by simp_all
  have c: "c = q + (if m > 0 then 1 else 0)" using assms(2) qm by simp
  show "n \<le> k * c" using m by (auto simp: n c)
  show "k * (c - 1) < n" using assms(1,3) n by (cases q) (auto simp: c split: if_splits)
qed

text \<open>
  The negotiated timing keeps the lease alive and the rate limit. For every capabilities
  reply the decoder and the negotiation accept, with a maximum lease of at least three seconds,
  the requested lease lies between the negotiated bounds, the heartbeat is positive, no slower
  than recommended and fires at least twice per lease, and the minimum send interval is the
  least number of milliseconds that respects the requests per minute.
\<close>

theorem negotiated_timing:
  assumes "decode_capabilities_response cal v = Inr caps"
    and "negotiate_presence (cap_data caps) ver = Available conf"
    and "3 \<le> lease_max_seconds conf"
  shows "\<exists>l h. lease_of conf = Fin (of_int l) \<and> lease_min_seconds conf \<le> l \<and> l \<le> lease_max_seconds conf \<and>
    heartbeat_of conf = Fin h \<and> 0 < h \<and> h \<le> of_int (recommended_heartbeat_seconds conf) \<and>
    2 * h \<le> of_int l \<and> 60000 \<le> requests_per_minute conf * min_send_of conf \<and>
    requests_per_minute conf * (min_send_of conf - 1) < 60000"
proof -
  let ?lo = "lease_min_seconds conf" and ?hi = "lease_max_seconds conf"
  let ?rec = "recommended_heartbeat_seconds conf" and ?rpm = "requests_per_minute conf"
  define limits where "limits = cd_limits (cap_data caps)"
  have valid: "limits_are_valid limits"
    and fields: "?lo = cl_presence_lease_min_seconds limits" "?hi = cl_presence_lease_max_seconds limits"
      "?rec = cl_recommended_heartbeat_seconds limits" "?rpm = nat (cl_presence_requests_per_minute limits)"
    using assms(2) by (auto simp: negotiate_presence_def Let_def limits_def split: option.splits if_splits)
  have lo: "0 < ?lo" "?lo \<le> ?hi" "?lo \<le> ?rec" "?rec \<le> ?hi" and rpm: "0 < ?rpm"
    using valid by (simp_all add: limits_are_valid_def fields)
  have hi: "?hi \<le> 2 ^ 53"
    using decoded_limits_safe [OF assms(1), of ?hi] by (auto simp: limit_list_def fields limits_def)
  define l where "l = min (max 90 ?lo) ?hi"
  have l: "?lo \<le> l" "l \<le> ?hi" "3 \<le> l" using lo assms(3) by (auto simp: l_def)
  have lease: "lease_of conf = Fin (of_int l)"
    using lo hi by (simp add: lease_of_def f_of_int_exact f_max_Fin f_min_Fin l_def
        of_int_max of_int_min)
  have "1 \<le> (of_int l / 3 :: rat)" using l(3) by simp
  moreover have "(of_int l / 3 :: rat) \<le> 2 ^ 100"
  proof -
    have "l \<le> 2 ^ 100" using l(2) hi by simp
    then have "(of_int l :: rat) \<le> 2 ^ 100" by (metis of_int_le_iff of_int_numeral of_int_power)
    then show ?thesis using l(3) by simp
  qed
  ultimately obtain r where r: "f_round (of_int l / 3) = Fin r" and close: "\<bar>r - of_int l / 3\<bar> \<le> of_int l / 3 / 2 ^ 53"
    using f_round_close by blast
  have "r \<le> of_int l / 3 + of_int l / 3 / 2 ^ 53" using close by linarith
  also have "\<dots> \<le> of_int l / 2" using l(3) by simp
  finally have r2: "2 * r \<le> of_int l" by simp
  define h where "h = min (of_int ?rec) (max r 1)"
  have heart: "heartbeat_of conf = Fin h"
    using lo hi by (simp add: heartbeat_of_def lease r f_of_int_exact f_max_Fin f_min_Fin h_def)
  have "0 < h" "h \<le> of_int ?rec" using lo by (auto simp: h_def)
  moreover have "2 * h \<le> of_int l" using r2 l(3) by (auto simp: h_def)
  moreover have "60000 \<le> ?rpm * min_send_of conf" and "?rpm * (min_send_of conf - 1) < 60000"
    using div_ceil_bounds [OF rpm min_send_of_def] by simp_all
  ultimately show ?thesis using lease l heart by blast
qed

lemma negotiated_timing_witness:
  "\<exists>l h. lease_of sample_configuration = Fin (of_int l) \<and> 30 \<le> l \<and> l \<le> 300 \<and>
     heartbeat_of sample_configuration = Fin h \<and> 2 * h \<le> of_int l \<and> min_send_of sample_configuration = 2000"
proof -
  obtain m where "decode_capabilities_response epoch_calendar sample_capabilities_json =
     Inr \<lparr>cap_meta = m, cap_data = sample_capabilities\<rparr>"
    using sample_capabilities_decode by blast
  from negotiated_timing [OF this, of PROTOCOL_CLIENT_VERSION sample_configuration] sample_negotiates
  show ?thesis by (auto simp: sample_configuration_def min_send_of_def)
qed

end
