(* ===== verification/Coordinator_Progress.thy ===== *)
theory Coordinator_Progress
  imports Coordinator_Properties
begin

text \<open>
  The coordinator is never stuck. In every state that is not one of rest there is a task that takes it
  further: a negotiation, a heartbeat or a retry timer that nobody has aborted; and a shutdown in flight
  has the task that ends it. The one dead end that the code leaves, a stored connection whose URL does not
  parse, is excluded by reading usable connections only.
\<close>

section \<open>Live handles\<close>

text \<open>The entry that a handle points to: its task, and whether it was aborted.\<close>

definition live :: "(task \<times> bool \<Rightarrow> bool) \<Rightarrow> world \<Rightarrow> task_id option \<Rightarrow> bool" where
  "live P w h \<longleftrightarrow> (case h of None \<Rightarrow> False | Some j \<Rightarrow> j < length (w_tasks w) \<and> P (w_tasks w ! j))"

fun beating :: "nat \<Rightarrow> task \<times> bool \<Rightarrow> bool" where
  "beating g (HeartbeatTimer h _, dead) \<longleftrightarrow> g = h \<and> \<not> dead"
| "beating g (HeartbeatFired h _, dead) \<longleftrightarrow> g = h \<and> \<not> dead"
| "beating g _ \<longleftrightarrow> False"

text \<open>A retry timer that has elapsed goes on although its handle is aborted.\<close>

fun retrying :: "nat \<Rightarrow> task \<times> bool \<Rightarrow> bool" where
  "retrying g (RetryTimer h _, dead) \<longleftrightarrow> g = h \<and> \<not> dead"
| "retrying g (RetryFired h, _) \<longleftrightarrow> g = h"
| "retrying g _ \<longleftrightarrow> False"

lemma nth_update_if: "xs[i := x] ! j = (if i = j \<and> i < length xs then x else xs ! j)"
  by (cases "i < length xs") (auto simp: nth_list_update list_update_beyond)

lemma live_goto:
  assumes "live P w h" and "\<not> P (w_tasks w ! i) \<or> P (t, snd (w_tasks w ! i))"
  shows "live P (goto i t w) h"
  using assms by (auto simp: live_def goto_def nth_update_if simp del: tasks_length split: option.splits)

lemma live_spawn: "live P w h \<Longrightarrow> live P (snd (spawn t w)) h"
  by (auto simp: live_def spawn_def nth_append simp del: tasks_length split: option.splits)

lemma live_simps [simp]:
  "live P (on_inner f w) h = live P w h" "live P (log_event e w) h = live P w h"
  "live P (w\<lparr>w_clock := x\<rparr>) h = live P w h" "live P (w\<lparr>w_arcs := n\<rparr>) h = live P w h"
  "live P (set_state_locked st w) h = live P w h" "live P (build_client c token url conf w) h = live P w h"
  by (simp_all add: live_def on_inner_def log_event_def set_state_locked_def build_client_def Let_def case_prod_beta
      del: tasks_length split: option.split)

section \<open>One invariant per concern\<close>

text \<open>A negotiation is under way exactly while the state says so.\<close>

definition negotiates :: "world \<Rightarrow> bool" where
  "negotiates w \<longleftrightarrow> (coord_state (w_inner w) = Connecting \<longrightarrow>
     (\<exists>t \<in> set (tasks w). is_configure (generation (w_inner w)) t))"

fun is_shutdown :: "task \<Rightarrow> bool" where
  "is_shutdown (ShutdownJoin _ _ _ _) \<longleftrightarrow> True"
| "is_shutdown (ShutdownRace _) \<longleftrightarrow> True"
| "is_shutdown _ \<longleftrightarrow> False"

definition shutdown_ends :: "world \<Rightarrow> bool" where
  "shutdown_ends w \<longleftrightarrow> (stopping (w_inner w) \<longrightarrow> (\<exists>t \<in> set (tasks w). is_shutdown t))"

text \<open>Connections whose URL makes a server configuration.\<close>

definition usable :: "unicode \<Rightarrow> surroundings \<Rightarrow> stored_connection \<Rightarrow> bool" where
  "usable u env c \<longleftrightarrow> is_ok (server_configuration u (env_url env) (base_url c))"

definition usable_reads :: "unicode \<Rightarrow> surroundings \<Rightarrow> coord_call set" where
  "usable_reads u env = - {GateRead (Some c) | c. \<not> usable u env c}"

definition tokens_usable :: "unicode \<Rightarrow> surroundings \<Rightarrow> world \<Rightarrow> bool" where
  "tokens_usable u env w \<longleftrightarrow> (\<forall>g c. Configure g (CfgToken c) \<in> set (tasks w) \<longrightarrow> usable u env c)"

lemma in_update: "t \<in> set (ts[i := x]) \<Longrightarrow> t \<noteq> x \<Longrightarrow> t \<in> set ts"
  using set_update_subset_insert [of ts i x] by auto

lemma kept_member: "t \<in> set ts \<Longrightarrow> t \<noteq> ts ! i \<Longrightarrow> t \<in> set (ts[i := x])"
  by (metis in_set_conv_nth length_list_update nth_list_update_neq)

lemma tokens_usable_step:
  assumes "coord_step_in (usable_reads u env) u env tm w w'" and "tokens_usable u env w"
  shows "tokens_usable u env w'"
  using assms(1)
proof cases
  case (StepConfigureGate i gen conn)
  then show ?thesis
    using assms(2) by (auto simp: tokens_usable_def configure_gate_def usable_reads_def dest!: in_update split: option.splits)
next
  case (StepConfigureCapabilities i gen c t url r)
  then show ?thesis
    using assms(2) by (auto simp: tokens_usable_def configure_capabilities_def degrade_and_retry_def go_active_def
        trigger_refresh_simps Let_def dest!: in_update split: sum.splits presence_negotiation.splits)
qed (use assms(2) in \<open>auto simp: tokens_usable_def coord_segment_defs coord_helper_simps Let_def case_prod_beta
    list_update_append dest!: in_update split: option.splits sum.splits if_splits\<close>)

lemma shutdown_ends_step:
  assumes "coord_step_in calls u env tm w w'" and "shutdown_ends w"
  shows "shutdown_ends w'"
proof -
  have keep: "\<exists>t \<in> set ((tasks w)[i := x]). is_shutdown t" if "stopping (w_inner w)" "\<not> is_shutdown (tasks w ! i)" for i x
    using assms(2) that kept_member by (metis shutdown_ends_def)
  have new: "\<exists>t \<in> set ((tasks w)[i := x]). is_shutdown t" if "i < length (tasks w)" "is_shutdown x" for i x
    using that set_update_memI by metis
  from assms(1) show ?thesis
  proof cases
    case (StepConfigureCapabilities i gen c t url r)
    then show ?thesis
      using keep [of i] assms(2) by (simp add: shutdown_ends_def configure_capabilities_def degrade_and_retry_def go_active_def
          trigger_refresh_simps Let_def build_client_fields split: sum.split presence_negotiation.split)
  qed (use assms(2) keep new in \<open>auto simp: shutdown_ends_def coord_segment_defs coord_helper_simps Let_def case_prod_beta
      list_update_append split: option.splits sum.splits if_splits\<close>)
qed

lemma negotiates_step:
  assumes "coord_step_in calls u env tm w w'" and "negotiates w"
  shows "negotiates w'"
proof -
  let ?here = "is_configure (generation (w_inner w))"
  have keep: "\<exists>t \<in> set ((tasks w)[i := x]). ?here t"
    if "coord_state (w_inner w) = Connecting" "\<not> ?here (tasks w ! i)" for i x
    using assms(2) that kept_member by (metis negotiates_def)
  have new: "\<exists>t \<in> set ((tasks w)[i := x]). ?here t" if "i < length (tasks w)" "?here x" for i x
    using that set_update_memI by metis
  from assms(1) show ?thesis
  proof cases
    case (StepConfigureCapabilities i gen c t url r)
    then show ?thesis
      using keep [of i] assms(2) by (auto simp: negotiates_def configure_capabilities_def degrade_and_retry_def go_active_def
          trigger_refresh_simps Let_def build_client_fields split: sum.split presence_negotiation.split)
  qed (use assms(2) keep new in \<open>auto simp: negotiates_def coord_segment_defs coord_helper_simps Let_def case_prod_beta
      list_update_append split: option.splits sum.splits if_splits\<close>)
qed

text \<open>Something takes every publishing, degraded or refused coordinator further.\<close>

definition recovers :: "world \<Rightarrow> bool" where
  "recovers w \<longleftrightarrow> (let s = w_inner w in
     (coord_state s \<in> {Active, Degraded} \<longrightarrow>
        live (beating (generation s)) w (heartbeat_task s) \<or> live (retrying (generation s)) w (reconnect_task s)) \<and>
     (coord_state s = ServerFeatureUnavailable \<longrightarrow> live (retrying (generation s)) w (reconnect_task s)))"

fun is_beat :: "task \<Rightarrow> bool" where
  "is_beat (HeartbeatTimer _ _) \<longleftrightarrow> True"
| "is_beat (HeartbeatFired _ _) \<longleftrightarrow> True"
| "is_beat _ \<longleftrightarrow> False"

fun is_retry :: "task \<Rightarrow> bool" where
  "is_retry (RetryTimer _ _) \<longleftrightarrow> True"
| "is_retry (RetryFired _) \<longleftrightarrow> True"
| "is_retry _ \<longleftrightarrow> False"

lemma beating_goto:
  assumes "live (beating g) w h" and "i < length (tasks w)" and "\<not> is_beat (tasks w ! i)"
  shows "live (beating g) (goto i t w) h"
proof -
  have "is_beat (fst e)" if "beating g e" for e using that by (cases "(g, e)" rule: beating.cases) auto
  from this [of "w_tasks w ! i"] have "\<not> beating g (w_tasks w ! i)" using assms(2,3) by (auto simp: tasks_at)
  then show ?thesis using assms(1) by (intro live_goto disjI1)
qed

lemma retrying_goto:
  assumes "live (retrying g) w h" and "i < length (tasks w)" and "\<not> is_retry (tasks w ! i)"
  shows "live (retrying g) (goto i t w) h"
proof -
  have "is_retry (fst e)" if "retrying g e" for e using that by (cases "(g, e)" rule: retrying.cases) auto
  from this [of "w_tasks w ! i"] have "\<not> retrying g (w_tasks w ! i)" using assms(2,3) by (auto simp: tasks_at)
  then show ?thesis using assms(1) by (intro live_goto disjI1)
qed

lemma live_trigger: "live P w h \<Longrightarrow> live P (trigger_refresh_locked g w) h"
  by (simp add: trigger_refresh_locked_def Let_def live_spawn)

lemma live_clear: "live P w h \<Longrightarrow> live P (snd (spawn_clear_best_effort c r d w)) h"
  by (simp add: spawn_clear_best_effort_def case_prod_beta live_spawn)

lemma retrying_scheduled: "live (retrying g) (schedule_retry_locked g d w) (Some (length (tasks w)))"
  by (simp add: live_def schedule_retry_locked_def spawn_def on_inner_def abort_def nth_append tasks_length [symmetric]
      del: tasks_length split: option.split)

lemma beating_spawned: "live (beating g) (spawn_heartbeat_locked g p w) (Some (length (tasks w)))"
  by (simp add: live_def spawn_heartbeat_locked_def spawn_def on_inner_def abort_def nth_append tasks_length [symmetric]
      del: tasks_length split: option.split)

lemma recovers_same:
  assumes "recovers w"
    and "coord_state (w_inner w') \<in> {Active, Degraded} \<Longrightarrow> coord_state (w_inner w) \<in> {Active, Degraded}"
    and "coord_state (w_inner w') = ServerFeatureUnavailable \<Longrightarrow> coord_state (w_inner w) = ServerFeatureUnavailable"
    and "generation (w_inner w') = generation (w_inner w)"
    and "heartbeat_task (w_inner w') = heartbeat_task (w_inner w)"
    and "reconnect_task (w_inner w') = reconnect_task (w_inner w)"
    and "live (beating (generation (w_inner w))) w (heartbeat_task (w_inner w)) \<Longrightarrow>
      live (beating (generation (w_inner w))) w' (heartbeat_task (w_inner w))"
    and "live (retrying (generation (w_inner w))) w (reconnect_task (w_inner w)) \<Longrightarrow>
      live (retrying (generation (w_inner w))) w' (reconnect_task (w_inner w))"
  shows "recovers w'"
  using assms unfolding recovers_def Let_def by metis

lemma recovers_new:
  "live (retrying (generation (w_inner w))) w (reconnect_task (w_inner w)) \<Longrightarrow> recovers w"
  "coord_state (w_inner w) \<notin> {Active, Degraded, ServerFeatureUnavailable} \<Longrightarrow> recovers w"
  "coord_state (w_inner w) \<noteq> ServerFeatureUnavailable \<Longrightarrow>
    live (beating (generation (w_inner w))) w (heartbeat_task (w_inner w)) \<Longrightarrow> recovers w"
  by (auto simp: recovers_def Let_def)

lemma scheduled_recovers: "recovers (schedule_retry_locked (generation (w_inner w)) d w)"
  by (rule recovers_new(1)) (simp add: retrying_scheduled)

lemma recovers_moved:
  assumes "recovers w" and "i < length (tasks w)" and "\<not> is_beat (tasks w ! i)" and "\<not> is_retry (tasks w ! i)"
  shows "recovers (goto i t w)"
  by (rule recovers_same [OF assms(1)]) (simp_all add: beating_goto retrying_goto assms)

lemma recovers_started: "recovers w \<Longrightarrow> recovers (start_locked w)"
  by (cases "stopping (w_inner w)") (auto simp: start_locked_def recovers_new(2) Let_def)

lemma recovers_triggered: "recovers w \<Longrightarrow> recovers (trigger_refresh_locked g w)"
  by (erule recovers_same) (simp_all add: trigger_refresh_simps live_trigger)

lemma recovers_spawned: "recovers w \<Longrightarrow> recovers (snd (spawn t w))"
  by (erule recovers_same) (simp_all add: live_spawn)

lemma recovers_cleared: "recovers w \<Longrightarrow> recovers (snd (spawn_clear_best_effort c r d w))"
  by (erule recovers_same) (simp_all add: live_clear)

lemma recovers_exit:
  "recovers w \<Longrightarrow> i < length (tasks w) \<Longrightarrow> is_refresh (tasks w ! i) \<Longrightarrow> recovers (refresh_exit i w)"
  unfolding refresh_exit_def
  by (cases "tasks w ! i"; rule recovers_moved; (erule recovers_same)?) simp_all

lemma recovers_rest:
  "recovers (set_state_locked Disabled w)" "recovers (set_state_locked UpdateRequired w)"
  "recovers (begin_new_generation_locked Suspended w)" "recovers (begin_new_generation_locked Disabled w)"
  by (rule recovers_new(2); simp)+

lemma recovers_inner:
  assumes "recovers w" and "generation (f (w_inner w)) = generation (w_inner w)"
    and "coord_state (f (w_inner w)) = coord_state (w_inner w)"
    and "heartbeat_task (f (w_inner w)) = heartbeat_task (w_inner w)"
    and "reconnect_task (f (w_inner w)) = reconnect_task (w_inner w)"
  shows "recovers (on_inner f w)" "recovers (log_event e w)" "recovers (w\<lparr>w_clock := x\<rparr>)"
  by (rule recovers_same [OF assms(1)]; simp add: assms)+

lemma recovers_configured:
  assumes "recovers w" and "i < length (tasks w)" and "tasks w ! i = Configure gen (CfgCapabilities c t url)"
  shows "recovers (configure_capabilities env tm i gen c t url r w)"
proof (rule configure_capabilities_cases [of env tm i gen c t url r w])
  assume "configure_capabilities env tm i gen c t url r w = goto i Finished w"
  then show ?thesis using recovers_moved [OF assms(1,2)] assms(3) by simp
next
  fix d
  assume eq: "configure_capabilities env tm i gen c t url r w = degrade_and_retry i gen d w" and g: "gen = generation (w_inner w)"
  show ?thesis
    unfolding eq degrade_and_retry_def
    using scheduled_recovers [of "set_state_locked Degraded (goto i Finished w)" d] g by simp
next
  assume "configure_capabilities env tm i gen c t url r w = set_state_locked UpdateRequired (goto i Finished w)"
  then show ?thesis by (simp add: recovers_rest)
next
  fix d
  assume eq: "configure_capabilities env tm i gen c t url r w =
      schedule_retry_locked gen d (set_state_locked ServerFeatureUnavailable (goto i Finished w))"
    and g: "gen = generation (w_inner w)"
  show ?thesis
    unfolding eq using scheduled_recovers [of "set_state_locked ServerFeatureUnavailable (goto i Finished w)" d] g by simp
next
  fix conf
  assume eq: "configure_capabilities env tm i gen c t url r w = go_active i gen c t url conf w" and g: "gen = generation (w_inner w)"
  obtain v where v: "go_active i gen c t url conf w = trigger_refresh_locked gen (spawn_heartbeat_locked gen (heartbeat_of conf) v)"
    by (rule that) (simp only: go_active_def Let_def)
  have "live (beating gen) (go_active i gen c t url conf w) (heartbeat_task (w_inner (go_active i gen c t url conf w)))"
    unfolding v by (rule live_trigger) (simp add: trigger_refresh_simps beating_spawned)
  then show ?thesis
    unfolding eq by (intro recovers_new(3)) (simp_all add: g go_active_def Let_def trigger_refresh_simps)
qed

lemma recovers_timers:
  assumes "recovers w" and "i < length (tasks w)"
  shows "tasks w ! i = RetryTimer gen d \<Longrightarrow> recovers (goto i (RetryFired gen) w)"
    and "tasks w ! i = HeartbeatTimer gen p \<Longrightarrow> recovers (goto i (HeartbeatFired gen p) w)"
    and "tasks w ! i = HeartbeatFired gen p \<Longrightarrow> recovers (goto i (HeartbeatTimer gen p) w)"
    and "tasks w ! i = RetryFired gen \<Longrightarrow> gen \<noteq> generation (w_inner w) \<Longrightarrow> recovers (goto i Finished w)"
    and "tasks w ! i = HeartbeatFired gen p \<Longrightarrow> gen \<noteq> generation (w_inner w) \<Longrightarrow> recovers (goto i Finished w)"
proof -
  obtain dead where e: "w_tasks w ! i = (tasks w ! i, dead)" using assms(2) tasks_at by (metis prod.collapse)
  show "tasks w ! i = RetryTimer gen d \<Longrightarrow> recovers (goto i (RetryFired gen) w)"
    and "tasks w ! i = HeartbeatTimer gen p \<Longrightarrow> recovers (goto i (HeartbeatFired gen p) w)"
    and "tasks w ! i = HeartbeatFired gen p \<Longrightarrow> recovers (goto i (HeartbeatTimer gen p) w)"
    and "tasks w ! i = RetryFired gen \<Longrightarrow> gen \<noteq> generation (w_inner w) \<Longrightarrow> recovers (goto i Finished w)"
    and "tasks w ! i = HeartbeatFired gen p \<Longrightarrow> gen \<noteq> generation (w_inner w) \<Longrightarrow> recovers (goto i Finished w)"
    by (rule recovers_same [OF assms(1)]; (rule live_goto)?; simp add: e)+
qed

lemma recovers_published:
  assumes r: "recovers w" and life: "lifecycle_ok w" and i: "i < length (tasks w)"
    and t: "tasks w ! i = Refresh gen (RWait c snapshot lease)"
  shows "recovers (refresh_published tm i gen result w)"
proof (cases "gen = generation (w_inner w)")
  case True
  have st: "coord_state (w_inner w) \<in> {Active, Degraded}"
    using lifecycle_task [OF life i] t True by simp
  have moved: "recovers (goto i (Refresh gen RHead) w)" by (rule recovers_moved [OF r i]) (simp_all add: t)
  have ex: "recovers (refresh_exit i w)" by (rule recovers_exit [OF r i]) (simp add: t)
  have "recovers (set_state_locked Active (goto i (Refresh gen RHead) w))"
    using st by (intro recovers_same [OF moved]) simp_all
  then have "recovers (log_event Published (set_state_locked Active (goto i (Refresh gen RHead) w)))"
    by (rule recovers_same) simp_all
  moreover have "recovers (discard_authority w)" unfolding discard_authority_def by (rule recovers_inner(1) [OF r]) simp_all
  then have "recovers (start_locked (refresh_exit i (discard_authority w)))"
    using i t by (intro recovers_started recovers_exit) (simp_all add: discard_authority_def)
  moreover have "recovers (schedule_retry_locked gen d (set_state_locked Degraded (refresh_exit i w)))" for d
    using scheduled_recovers [of "set_state_locked Degraded (refresh_exit i w)" d] True by (simp add: refresh_exit_def)
  ultimately show ?thesis by (simp add: refresh_published_def True split: sum.split)
next
  case False
  then show ?thesis using recovers_exit [OF r i] t by (simp add: refresh_published_def)
qed

lemma recovers_token:
  assumes "recovers w" and "i < length (tasks w)" and "tasks w ! i = Configure gen (CfgToken c)" and "usable u env c"
  shows "recovers (configure_token u env tm i gen c token w)"
proof -
  have m: "recovers (goto i x w)" for x by (rule recovers_moved [OF assms(1,2)]) (simp_all add: assms(3))
  have d: "gen = generation (w_inner w) \<Longrightarrow> recovers (degrade_and_retry i gen d w)" for d
    using scheduled_recovers [of "set_state_locked Degraded (goto i Finished w)" d] by (simp add: degrade_and_retry_def)
  show ?thesis
    using assms(4) m d by (auto simp: configure_token_def usable_def is_ok_iff split: option.split sum.split)
qed

lemma recovers_step:
  assumes step: "coord_step_in calls u env tm w w'" and life: "lifecycle_ok w" and r: "recovers w"
    and usable: "tokens_usable u env w"
  shows "recovers w'"
  using step
proof cases
  case (StepConfigureToken i gen c token)
  then have "usable u env c" using usable nth_mem [of i "tasks w"] by (auto simp: tokens_usable_def)
  then show ?thesis using recovers_token [OF r] StepConfigureToken by simp
next
  case (StepConfigureCapabilities i gen c t url x)
  then show ?thesis using recovers_configured [OF r] by simp
next
  case (StepRetry i gen)
  then have "gen \<noteq> generation (w_inner w) \<Longrightarrow> recovers (goto i Finished w)" using recovers_timers(4) [OF r] by blast
  moreover have "recovers (goto i Finished w)" if "stopping (w_inner w)"
      using that life by (intro recovers_new(2)) (simp add: lifecycle_ok_def)
  moreover have "recovers (start_locked (goto i Finished w))" if "\<not> stopping (w_inner w)"
      using that by (intro recovers_new(2)) (simp add: start_locked_simps)
  ultimately show ?thesis using StepRetry by (auto simp: retry_fired_def Let_def)
next
  case (StepHeartbeat i gen p)
  then show ?thesis
      using recovers_timers(3,5) [OF r] recovers_triggered by (simp add: heartbeat_fired_def)
next
  case (StepPublished i gen c snapshot lease result)
  then show ?thesis using recovers_published [OF r life] by simp
qed (use r recovers_timers(1,2) [OF r] in \<open>auto simp: coord_segment_defs Let_def case_prod_beta nth_append
    intro!: recovers_started recovers_triggered recovers_spawned recovers_cleared recovers_rest recovers_inner recovers_moved
    split: option.split\<close>)

lemma progress_run:
  assumes "(coord_step_in (usable_reads u env) u env tm)\<^sup>*\<^sup>* world_new w"
  shows "lifecycle_ok w \<and> negotiates w \<and> shutdown_ends w \<and> tokens_usable u env w \<and> recovers w"
  using assms
proof induction
  case base
  show ?case
    using lifecycle_reachable [OF coord_reachable.Initial]
    by (simp add: negotiates_def shutdown_ends_def tokens_usable_def recovers_def Let_def world_new_simps inner_new_def)
next
  case (step w w')
  then have here: "lifecycle_ok w" "negotiates w" "shutdown_ends w" "tokens_usable u env w" "recovers w" by simp_all
  have "lifecycle_ok w'" using lifecycle_step [OF coord_step_mono [OF step.hyps(2)]] here(1) by blast
  then show ?case
    using negotiates_step [OF step.hyps(2) here(2)] shutdown_ends_step [OF step.hyps(2) here(3)]
      tokens_usable_step [OF step.hyps(2) here(4)] recovers_step [OF step.hyps(2) here(1,5,4)] by blast
qed

section \<open>Property\<close>

text \<open>
  C4: the coordinator is never stuck. Whatever calls come, as long as the stored connection has a URL that
  parses, every state the coordinator reaches is one of rest (disabled, suspended, outdated) or has the
  task that takes it further: \<open>Connecting\<close> a negotiation of the current generation, \<open>Active\<close> and \<open>Degraded\<close> a
  heartbeat or a retry timer of it that nobody has aborted, a refused feature a retry timer; and a
  shutdown in flight, which makes every start be ignored, has the task that ends it.
\<close>

theorem coordinator_never_stuck:
  assumes "(coord_step_in (usable_reads u env) u env tm)\<^sup>*\<^sup>* world_new w"
  shows "(coord_state (w_inner w) = Connecting \<longrightarrow>
      (\<exists>t \<in> set (tasks w). is_configure (generation (w_inner w)) t)) \<and>
    (coord_state (w_inner w) \<in> {Active, Degraded} \<longrightarrow>
      live (beating (generation (w_inner w))) w (heartbeat_task (w_inner w)) \<or>
      live (retrying (generation (w_inner w))) w (reconnect_task (w_inner w))) \<and>
    (coord_state (w_inner w) = ServerFeatureUnavailable \<longrightarrow>
      live (retrying (generation (w_inner w))) w (reconnect_task (w_inner w))) \<and>
    (stopping (w_inner w) \<longrightarrow> (\<exists>t \<in> set (tasks w). is_shutdown t))"
  using progress_run [OF assms] by (simp add: negotiates_def shutdown_ends_def recovers_def Let_def)

lemma sample_usable: "usable ascii_unicode sample_env sample_connection"
  using sample_server by (simp add: usable_def sample_connection_def sample_env_def)

lemma coordinator_never_stuck_witness:
  "\<exists>w. (coord_step_in (usable_reads ascii_unicode sample_env) ascii_unicode sample_env default_timings)\<^sup>*\<^sup>* world_new w \<and>
     coord_state (w_inner w) = Active \<and>
     (live (beating 1) w (heartbeat_task (w_inner w)) \<or> live (retrying 1) w (reconnect_task (w_inner w)))"
proof -
  let ?step = "coord_step_in (usable_reads ascii_unicode sample_env) ascii_unicode sample_env default_timings"
  obtain w where w: "coord_state (w_inner w) = Active" "generation (w_inner w) = 1" "task_step\<^sup>*\<^sup>* (coord_start world_new) w"
    by (rule active_run)
  have sub: "{GateRead (Some sample_connection)} \<subseteq> usable_reads ascii_unicode sample_env"
    using sample_usable by (auto simp: usable_reads_def)
  have "?step world_new (coord_start world_new)" by (rule CallStart) (simp add: usable_reads_def)
  moreover have "?step\<^sup>*\<^sup>* (coord_start world_new) w"
    using w(3) by (induction rule: rtranclp_induct) (auto intro: rtranclp.rtrancl_into_rtrancl coord_step_mono [OF _ sub])
  ultimately have run: "?step\<^sup>*\<^sup>* world_new w" by (rule converse_rtranclp_into_rtranclp)
  show ?thesis using coordinator_never_stuck [OF run] run w by auto
qed

end
