(* ===== verification/Encodings.thy ===== *)
theory Encodings
  imports Prelude
begin

unbundle bit_operations_syntax

text \<open>
  The byte encodings of the credential stores: base64 as \<open>dpapi_store.rs\<close> implements it, the
  UTF-16LE blob of \<open>keyring_store.rs\<close>, and \<open>String::from_utf8\<close>.
\<close>

section \<open>Base64\<close>

definition BASE64_ALPHABET :: rstr where
  "BASE64_ALPHABET = lit ''ABCDEFGHIJKLMNOPQRSTUVWXYZabcdefghijklmnopqrstuvwxyz0123456789+/''"

text \<open>\<open>BASE64_ALPHABET[(triple >> k) as usize & 0x3F] as char\<close>\<close>

definition base64_char :: "nat \<Rightarrow> u32 \<Rightarrow> scalar" where
  "base64_char k triple = BASE64_ALPHABET ! unat (drop_bit k triple AND 0x3F)"

definition base64_triple :: "u8 \<Rightarrow> u8 \<Rightarrow> u8 \<Rightarrow> u32" where
  "base64_triple b0 b1 b2 = push_bit 16 (ucast b0) OR push_bit 8 (ucast b1) OR ucast b2"

fun base64_encode :: "u8 list \<Rightarrow> rstr" where
  "base64_encode [] = []"
| "base64_encode [b0] =
     (let t = base64_triple b0 0 0 in [base64_char 18 t, base64_char 12 t, 61, 61])"
| "base64_encode [b0, b1] =
     (let t = base64_triple b0 b1 0 in [base64_char 18 t, base64_char 12 t, base64_char 6 t, 61])"
| "base64_encode (b0 # b1 # b2 # bs) =
     (let t = base64_triple b0 b1 b2
      in base64_char 18 t # base64_char 12 t # base64_char 6 t # base64_char 0 t # base64_encode bs)"

definition base64_value :: "u8 \<Rightarrow> u32 option" where
  "base64_value b =
     (if 65 \<le> b \<and> b \<le> 90 then Some (ucast (b - 65))
      else if 97 \<le> b \<and> b \<le> 122 then Some (ucast (b - 97) + 26)
      else if 48 \<le> b \<and> b \<le> 57 then Some (ucast (b - 48) + 52)
      else if b = 43 then Some 62
      else if b = 47 then Some 63
      else None)"

text \<open>The padding of a chunk; \<open>None\<close> for an equals sign before the last character.\<close>

definition base64_pad :: "u8 \<Rightarrow> u8 \<Rightarrow> nat option" where
  "base64_pad c2 c3 =
     (if c2 = 61 then (if c3 = 61 then Some 2 else None) else if c3 = 61 then Some 1 else Some 0)"

definition base64_chunk :: "bool \<Rightarrow> u8 \<Rightarrow> u8 \<Rightarrow> u8 \<Rightarrow> u8 \<Rightarrow> u8 list option" where
  "base64_chunk is_last c0 c1 c2 c3 =
     Option.bind (base64_pad c2 c3) (\<lambda>pad.
     if pad > 0 \<and> \<not> is_last then None
     else
       Option.bind (base64_value c0) (\<lambda>v0.
       Option.bind (base64_value c1) (\<lambda>v1.
       Option.bind (if pad \<ge> 2 then Some 0 else base64_value c2) (\<lambda>v2.
       Option.bind (if pad \<ge> 1 then Some 0 else base64_value c3) (\<lambda>v3.
         let triple = push_bit 18 v0 OR push_bit 12 v1 OR push_bit 6 v2 OR v3
         in Some ([ucast (drop_bit 16 triple)] @
                  (if pad < 2 then [ucast (drop_bit 8 triple)] else []) @
                  (if pad < 1 then [ucast triple] else [])))))))"

fun base64_chunks :: "u8 list \<Rightarrow> u8 list option" where
  "base64_chunks [] = Some []"
| "base64_chunks (c0 # c1 # c2 # c3 # cs) =
     Option.bind (base64_chunk (cs = []) c0 c1 c2 c3)
       (\<lambda>out. map_option (\<lambda>rest. out @ rest) (base64_chunks cs))"
| "base64_chunks _ = None"

definition base64_decode :: "rstr \<Rightarrow> u8 list option" where
  "base64_decode text =
     (let bytes = str_bytes text in if length bytes mod 4 \<noteq> 0 then None else base64_chunks bytes)"

section \<open>UTF-16LE and UTF-8\<close>

text \<open>\<open>u16::to_le_bytes\<close> and \<open>u16::from_le_bytes\<close>.\<close>

definition u16_le_bytes :: "nat \<Rightarrow> u8 list" where
  "u16_le_bytes u = [word_of_nat (u mod 256), word_of_nat (u div 256)]"

definition token_to_utf16le_blob :: "rstr \<Rightarrow> u8 list" where
  "token_to_utf16le_blob token = concat (map u16_le_bytes (utf16_units token))"

fun le_units :: "u8 list \<Rightarrow> nat list" where
  "le_units (a # b # bs) = (unat a + 256 * unat b) # le_units bs"
| "le_units _ = []"

definition decode_utf16le_blob :: "u8 list \<Rightarrow> rstr option" where
  "decode_utf16le_blob bytes =
     (if odd (length bytes) then None else from_utf16 (le_units bytes))"

text \<open>\<open>String::from_utf8\<close>: no overlong form, no surrogate, nothing past U+10FFFF.\<close>

definition utf8_tail :: "u8 \<Rightarrow> nat option" where
  "utf8_tail b = (if 128 \<le> unat b \<and> unat b < 192 then Some (unat b - 128) else None)"

fun from_utf8 :: "u8 list \<Rightarrow> rstr option" where
  "from_utf8 [] = Some []"
| "from_utf8 (b # bs) =
     (let n = unat b in
      if n < 128 then map_option ((#) n) (from_utf8 bs)
      else if 192 \<le> n \<and> n < 224 then
        (case bs of
           b1 # cs \<Rightarrow>
             Option.bind (utf8_tail b1) (\<lambda>t1.
               let c = (n - 192) * 64 + t1
               in if 128 \<le> c then map_option ((#) c) (from_utf8 cs) else None)
         | _ \<Rightarrow> None)
      else if 224 \<le> n \<and> n < 240 then
        (case bs of
           b1 # b2 # cs \<Rightarrow>
             Option.bind (utf8_tail b1) (\<lambda>t1. Option.bind (utf8_tail b2) (\<lambda>t2.
               let c = (n - 224) * 4096 + t1 * 64 + t2
               in if 2048 \<le> c \<and> is_scalar c then map_option ((#) c) (from_utf8 cs) else None))
         | _ \<Rightarrow> None)
      else if 240 \<le> n \<and> n < 248 then
        (case bs of
           b1 # b2 # b3 # cs \<Rightarrow>
             Option.bind (utf8_tail b1) (\<lambda>t1. Option.bind (utf8_tail b2) (\<lambda>t2.
             Option.bind (utf8_tail b3) (\<lambda>t3.
               let c = (n - 240) * 262144 + t1 * 4096 + t2 * 64 + t3
               in if 65536 \<le> c \<and> is_scalar c then map_option ((#) c) (from_utf8 cs) else None)))
         | _ \<Rightarrow> None)
      else None)"

section \<open>Round trips\<close>

lemma unat_byte: "n < 256 \<Longrightarrow> unat (word_of_nat n :: u8) = n"
  by (simp add: unat_of_nat)

lemma utf8_tail_of: "n < 64 \<Longrightarrow> utf8_tail (word_of_nat (128 + n)) = Some n"
  using unat_byte [of "128 + n"] by (simp add: utf8_tail_def del: of_nat_add)

lemma sextets:
  fixes c :: nat
  shows "c div 4096 * 4096 + c div 64 mod 64 * 64 + c mod 64 = c"
    and "c div 262144 * 262144 + c div 4096 mod 64 * 4096 + c div 64 mod 64 * 64 + c mod 64 = c"
proof -
  have d: "c div 4096 = c div 64 div 64" "c div 262144 = c div 64 div 64 div 64"
    by (simp_all flip: div_mult2_eq)
  have e: "x div 64 * 64 + x mod 64 = x" for x :: nat by simp
  show one: "c div 4096 * 4096 + c div 64 mod 64 * 64 + c mod 64 = c"
    unfolding d using e [of c] e [of "c div 64"] by linarith
  show "c div 262144 * 262144 + c div 4096 mod 64 * 4096 + c div 64 mod 64 * 64 + c mod 64 = c"
    using one e [of "c div 64 div 64"] unfolding d by linarith
qed

lemma from_utf8_utf8:
  assumes "is_scalar c"
  shows "from_utf8 (utf8 c @ bs) = map_option ((#) c) (from_utf8 bs)"
proof -
  have c: "c < 1114112" using assms by (auto simp: is_scalar_def)
  consider "c < 128" | "128 \<le> c" "c < 2048" | "2048 \<le> c" "c < 65536" | "65536 \<le> c" by linarith
  then show ?thesis
  proof cases
    case 1
    then show ?thesis by (simp add: utf8_def unat_byte)
  next
    case 2
    have q: "c div 64 < 32" using 2 by (simp add: div_less_iff_less_mult)
    have u: "unat (word_of_nat (192 + c div 64) :: u8) = 192 + c div 64" using q by (intro unat_byte) simp
    show ?thesis using 2
      by (simp add: utf8_def u q utf8_tail_of Let_def del: of_nat_add)
  next
    case 3
    have q: "c div 4096 < 16" using 3 by (simp add: div_less_iff_less_mult)
    have u: "unat (word_of_nat (224 + c div 4096) :: u8) = 224 + c div 4096" using q by (intro unat_byte) simp
    note c3 = sextets(1) [of c]
    show ?thesis using 3 assms
      by (simp add: utf8_def u q utf8_tail_of Let_def c3 del: of_nat_add)
  next
    case 4
    have q: "c div 262144 < 8" using c by (simp add: div_less_iff_less_mult)
    have u: "unat (word_of_nat (240 + c div 262144) :: u8) = 240 + c div 262144" using q by (intro unat_byte) simp
    note c4 = sextets(2) [of c]
    show ?thesis using 4 assms
      by (simp add: utf8_def u q utf8_tail_of Let_def c4 del: of_nat_add)
  qed
qed

lemma from_utf8_str_bytes: "wf_str s \<Longrightarrow> from_utf8 (str_bytes s) = Some s"
  by (induction s) (simp_all add: wf_str_def from_utf8_utf8)

lemma le_units_bytes:
  "\<forall>u \<in> set us. u < 65536 \<Longrightarrow> le_units (concat (map u16_le_bytes us)) = us"
proof (induction us)
  case (Cons u us)
  then have "u mod 256 + 256 * (u div 256) = u" "u div 256 < 256" by auto
  with Cons show ?case by (simp add: u16_le_bytes_def unat_byte)
qed simp

lemma even_blob: "even (length (token_to_utf16le_blob s))"
proof -
  have "even (length (concat (map u16_le_bytes us)))" for us
    by (induction us) (simp_all add: u16_le_bytes_def)
  then show ?thesis by (simp add: token_to_utf16le_blob_def)
qed

lemma utf16le_blob_decodes: "wf_str s \<Longrightarrow> decode_utf16le_blob (token_to_utf16le_blob s) = Some s"
  using utf16_units_bound
  by (simp add: decode_utf16le_blob_def even_blob)
    (simp add: token_to_utf16le_blob_def le_units_bytes from_utf16_units)

subsection \<open>Base64\<close>

lemma alphabet_length [simp]: "length BASE64_ALPHABET = 64"
  by (simp add: BASE64_ALPHABET_def lit_def)

lemma alphabet_map:
  "map (\<lambda>c. (c < 128, c = 61, base64_value (word_of_nat c))) BASE64_ALPHABET =
   map (\<lambda>v. (True, False, Some (word_of_nat v))) [0..<64]"
  by (simp add: BASE64_ALPHABET_def lit_def base64_value_def upt_conv_Cons)

lemma alphabet_values:
  assumes "v < 64"
  shows "BASE64_ALPHABET ! v < 128" and "BASE64_ALPHABET ! v \<noteq> 61"
    and "base64_value (word_of_nat (BASE64_ALPHABET ! v)) = Some (word_of_nat v)"
proof -
  have "map (\<lambda>c. (c < 128, c = 61, base64_value (word_of_nat c))) BASE64_ALPHABET ! v =
      map (\<lambda>v. (True, False, Some (word_of_nat v))) [0..<64] ! v"
    by (simp only: alphabet_map)
  then show "BASE64_ALPHABET ! v < 128" "BASE64_ALPHABET ! v \<noteq> 61"
    "base64_value (word_of_nat (BASE64_ALPHABET ! v)) = Some (word_of_nat v)"
    using assms by simp_all
qed

definition sextet :: "nat \<Rightarrow> u32 \<Rightarrow> u32" where
  "sextet k t = drop_bit k t AND 0x3F"

lemma sextet_bound: "unat (sextet k t) < 64"
proof -
  have "sextet k t \<le> 0x3F" by (simp add: sextet_def word_and_le1)
  then show ?thesis by (simp add: word_le_nat_alt)
qed

lemma base64_char_byte:
  shows "base64_char k t < 128" and "word_of_nat (base64_char k t) \<noteq> (61 :: u8)"
    and "base64_value (word_of_nat (base64_char k t)) = Some (sextet k t)"
proof -
  note v = alphabet_values [OF sextet_bound [of k t], unfolded sextet_def]
  show b: "base64_char k t < 128" using v(1) by (simp add: base64_char_def)
  show "base64_value (word_of_nat (base64_char k t)) = Some (sextet k t)"
    using v(3) by (simp add: base64_char_def sextet_def)
  have "unat (word_of_nat (base64_char k t) :: u8) \<noteq> 61"
    using b v(2) by (simp add: unat_byte base64_char_def)
  then show "word_of_nat (base64_char k t) \<noteq> (61 :: u8)" by auto
qed

lemma less_8: "(n :: nat) < 8 \<Longrightarrow> n = 0 \<or> n = 1 \<or> n = 2 \<or> n = 3 \<or> n = 4 \<or> n = 5 \<or> n = 6 \<or> n = 7"
  by linarith

lemma sextet_bytes:
  fixes b0 b1 b2 :: u8
  defines "t \<equiv> base64_triple b0 b1 b2"
  shows "ucast (drop_bit 16 (push_bit 18 (sextet 18 t) OR push_bit 12 (sextet 12 t) OR
           push_bit 6 (sextet 6 t) OR sextet 0 t)) = b0"
    and "ucast (drop_bit 8 (push_bit 18 (sextet 18 t) OR push_bit 12 (sextet 12 t) OR
           push_bit 6 (sextet 6 t) OR sextet 0 t)) = b1"
    and "ucast (push_bit 18 (sextet 18 t) OR push_bit 12 (sextet 12 t) OR
           push_bit 6 (sextet 6 t) OR sextet 0 t) = b2"
  unfolding t_def sextet_def base64_triple_def
  by (rule bit_word_eqI; auto simp: bit_simps simp flip: numeral_2_eq_2 numeral_3_eq_3
      dest: bit_imp_le_length dest!: less_8)+

lemma mask_six: "(0x3F :: u32) = mask 6"
  by (simp add: mask_eq_exp_minus_1)

lemma sextet_padding:
  "sextet 0 (base64_triple b0 b1 0) = 0" "sextet 6 (base64_triple b0 0 0) = 0"
  unfolding sextet_def base64_triple_def mask_six
  by (intro bit_word_eqI; auto simp: bit_simps)+

lemma base64_encode_ascii: "list_all (\<lambda>c. c < 128) (base64_encode bs)"
  by (induction bs rule: base64_encode.induct) (simp_all add: Let_def base64_char_byte)

lemma base64_encode_length: "length (base64_encode bs) mod 4 = 0"
  by (induction bs rule: base64_encode.induct) (simp_all add: Let_def)

lemma base64_encode_Nil: "base64_encode bs = [] \<longleftrightarrow> bs = []"
  by (cases bs rule: base64_encode.cases) (simp_all add: Let_def)

lemma base64_chunk_full:
  fixes b0 b1 b2 :: u8
  defines "t \<equiv> base64_triple b0 b1 b2"
  shows "base64_chunk is_last (word_of_nat (base64_char 18 t)) (word_of_nat (base64_char 12 t))
      (word_of_nat (base64_char 6 t)) (word_of_nat (base64_char 0 t)) = Some [b0, b1, b2]"
  using sextet_bytes [of b0 b1 b2]
  by (simp add: base64_chunk_def base64_pad_def base64_char_byte t_def)

lemma base64_chunk_padded:
  "base64_chunk True (word_of_nat (base64_char 18 (base64_triple b0 b1 0)))
     (word_of_nat (base64_char 12 (base64_triple b0 b1 0)))
     (word_of_nat (base64_char 6 (base64_triple b0 b1 0))) 61 = Some [b0, b1]"
  "base64_chunk True (word_of_nat (base64_char 18 (base64_triple b0 0 0)))
     (word_of_nat (base64_char 12 (base64_triple b0 0 0))) 61 61 = Some [b0]"
  using sextet_bytes [of b0 b1 0] sextet_bytes [of b0 0 0]
  by (simp_all add: base64_chunk_def base64_pad_def base64_char_byte sextet_padding)

lemma base64_chunks_encode: "base64_chunks (map word_of_nat (base64_encode bs)) = Some bs"
  by (induction bs rule: base64_encode.induct)
    (simp_all add: Let_def base64_chunk_full base64_chunk_padded base64_encode_Nil)

lemma base64_decode_encode: "base64_decode (base64_encode bs) = Some bs"
  using base64_encode_length [of bs]
  by (simp add: base64_decode_def str_bytes_ascii [OF base64_encode_ascii] base64_chunks_encode)

end
