(* ===== verification/Credentials.thy ===== *)
theory Credentials
  imports Encodings Config_Store
begin

text \<open>
  The credential stores: the probe and the selection of \<open>core/src/store/credentials.rs\<close>, the
  DPAPI file of \<open>dpapi_store.rs\<close> and the Credential Manager backend of \<open>keyring_store.rs\<close>. The
  contract of the trait \<open>CredentialStore\<close> is the locale \<open>credential_store\<close>. What Windows does
  (\<open>CryptProtectData\<close>, \<open>CredReadW\<close> and its companions) is a parameter.
\<close>

datatype credential_store_error = NoBackend | BackendFailure

section \<open>Probe and selection\<close>

definition PROBE_DEVICE_ID :: rstr where
  "PROBE_DEVICE_ID = lit ''__yohaku_probe__''"

text \<open>The three operations of a store, with the faults they meet in this call already chosen.\<close>

record 's credential_ops =
  op_get :: "'s \<Rightarrow> rstr \<Rightarrow> rstr option"
  op_set :: "'s \<Rightarrow> rstr \<Rightarrow> rstr \<Rightarrow> (credential_store_error + unit) \<times> 's"
  op_delete :: "'s \<Rightarrow> rstr \<Rightarrow> (credential_store_error + unit) \<times> 's"

definition round_trips :: "'s credential_ops \<Rightarrow> 's \<Rightarrow> bool \<times> 's" where
  "round_trips ops s =
     (case op_set ops s PROBE_DEVICE_ID (lit ''probe'') of
        (Inl _, s1) \<Rightarrow> (False, s1)
      | (Inr _, s1) \<Rightarrow>
          let read = op_get ops s1 PROBE_DEVICE_ID
          in case op_delete ops s1 PROBE_DEVICE_ID of
               (Inl _, s2) \<Rightarrow> (False, s2)
             | (Inr _, s2) \<Rightarrow> (read = Some (lit ''probe''), s2))"

fun candidate_order :: "credential_backend option \<Rightarrow> credential_backend list" where
  "candidate_order (Some Dpapi) = [Dpapi, Keyring]"
| "candidate_order _ = [Keyring, Dpapi]"

text \<open>\<open>instantiate backend = None\<close> is a failed construction.\<close>

fun select_from ::
  "(credential_backend \<Rightarrow> 's credential_ops option) \<Rightarrow> credential_backend list \<Rightarrow> 's \<Rightarrow>
   (credential_store_error + credential_backend) \<times> 's" where
  "select_from instantiate [] s = (Inl NoBackend, s)"
| "select_from instantiate (b # bs) s =
     (case instantiate b of
        None \<Rightarrow> select_from instantiate bs s
      | Some ops \<Rightarrow>
          (case round_trips ops s of
             (True, s') \<Rightarrow> (Inr b, s')
           | (False, s') \<Rightarrow> select_from instantiate bs s'))"

definition select_credential_store ::
  "(credential_backend \<Rightarrow> 's credential_ops option) \<Rightarrow> credential_backend option \<Rightarrow> 's \<Rightarrow>
   (credential_store_error + credential_backend) \<times> 's" where
  "select_credential_store instantiate preferred s = select_from instantiate (candidate_order preferred) s"

section \<open>The DPAPI file\<close>

record dpapi =
  dp_protect :: "u8 list \<Rightarrow> u8 list option"
  dp_unprotect :: "u8 list \<Rightarrow> u8 list option"

definition CREDENTIALS_FILE_NAME :: rstr where
  "CREDENTIALS_FILE_NAME = lit ''credentials.bin.json''"

definition dpapi_new :: "path option \<Rightarrow> config_store_error + path \<Rightarrow> bool \<Rightarrow> io_error + path" where
  "dpapi_new directory data_dir created =
     (case open_directory directory data_dir created of
        Inl _ \<Rightarrow> Inl DirectoryError
      | Inr p \<Rightarrow> Inr (path_join p CREDENTIALS_FILE_NAME))"

definition dpapi_get :: "dpapi \<Rightarrow> path \<Rightarrow> bool \<Rightarrow> disk \<Rightarrow> rstr \<Rightarrow> rstr option" where
  "dpapi_get api p readable d device =
     Option.bind (Option.bind (obj_get (read_json_object readable d p) device) json_as_str) (\<lambda>blob.
     Option.bind (base64_decode blob) (\<lambda>encrypted.
     Option.bind (dp_unprotect api encrypted) from_utf8))"

definition dpapi_set ::
  "dpapi \<Rightarrow> path \<Rightarrow> rw_fault \<Rightarrow> disk \<Rightarrow> rstr \<Rightarrow> rstr \<Rightarrow> (credential_store_error + unit) \<times> disk" where
  "dpapi_set api p flt d device token =
     (case dp_protect api (str_bytes token) of
        None \<Rightarrow> (Inl BackendFailure, d)
      | Some encrypted \<Rightarrow>
          if encrypted = [] then (Inl BackendFailure, d)
          else
            (case atomic_write_json (rw_write flt) d p
                (JObj (obj_set (read_json_object (rw_reads flt) d p) device (JStr (base64_encode encrypted)))) of
               (Inl _, d') \<Rightarrow> (Inl BackendFailure, d')
             | (Inr _, d') \<Rightarrow> (Inr (), d')))"

text \<open>
  Deleting the last entry deletes the file; \<open>removed\<close> says what the deletion met (the file gone
  counts as success).
\<close>

datatype remove_result = Removed | AlreadyGone | RemoveFailed

definition dpapi_delete ::
  "path \<Rightarrow> rw_fault \<Rightarrow> remove_result \<Rightarrow> disk \<Rightarrow> rstr \<Rightarrow> (credential_store_error + unit) \<times> disk" where
  "dpapi_delete p flt removed d device =
     (let all = read_json_object (rw_reads flt) d p; rest = obj_remove all device
      in if obj_get all device = None then (Inr (), d)
         else if rest = [] then
           (case removed of
              Removed \<Rightarrow> (Inr (), d(p := None))
            | AlreadyGone \<Rightarrow> (Inr (), d(p := None))
            | RemoveFailed \<Rightarrow> (Inl BackendFailure, d))
         else
           (case atomic_write_json (rw_write flt) d p (JObj rest) of
              (Inl _, d') \<Rightarrow> (Inl BackendFailure, d')
            | (Inr _, d') \<Rightarrow> (Inr (), d')))"

section \<open>The Credential Manager\<close>

definition KEYRING_SERVICE :: rstr where
  "KEYRING_SERVICE = lit ''yohaku-companion-win''"

definition target_name :: "rstr \<Rightarrow> rstr" where
  "target_name device = device @ lit ''.'' @ KEYRING_SERVICE"

definition to_wide_nul :: "rstr \<Rightarrow> nat list" where
  "to_wide_nul value = utf16_units value @ [0]"

text \<open>The fields of \<open>CREDENTIALW\<close> the code reads or writes; \<open>None\<close> is a null pointer.\<close>

record credentialw =
  cw_flags :: nat
  cw_type :: nat
  cw_target :: "nat list"
  cw_comment :: "nat list option"
  cw_blob :: "u8 list"
  cw_persist :: nat
  cw_attribute_count :: nat
  cw_target_alias :: "nat list option"
  cw_user_name :: "nat list option"

text \<open>\<open>CredReadW\<close>, \<open>CredWriteW\<close> and \<open>CredDeleteW\<close> for generic credentials over a manager state.\<close>

record 's credential_manager =
  cred_read :: "'s \<Rightarrow> nat list \<Rightarrow> credentialw option"
  cred_write :: "'s \<Rightarrow> credentialw \<Rightarrow> 's option"
  cred_delete :: "'s \<Rightarrow> nat list \<Rightarrow> bool \<times> 's"

definition read_credential :: "'s credential_manager \<Rightarrow> 's \<Rightarrow> rstr \<Rightarrow> rstr option" where
  "read_credential api s target =
     (case cred_read api s (to_wide_nul target) of
        None \<Rightarrow> None
      | Some c \<Rightarrow> if length (cw_blob c) = 0 then Some [] else decode_utf16le_blob (cw_blob c))"

definition write_credential ::
  "'s credential_manager \<Rightarrow> 's \<Rightarrow> rstr \<Rightarrow> rstr \<Rightarrow> rstr \<Rightarrow> (credential_store_error + unit) \<times> 's" where
  "write_credential api s target user token =
     (let (user_name, comment, alias) =
            (case cred_read api s (to_wide_nul target) of
               Some c \<Rightarrow> (cw_user_name c, cw_comment c, cw_target_alias c)
             | None \<Rightarrow> (Some (to_wide_nul user), None, None));
          credential =
            \<lparr>cw_flags = 0, cw_type = 1, cw_target = to_wide_nul target, cw_comment = comment,
             cw_blob = token_to_utf16le_blob token, cw_persist = 3, cw_attribute_count = 0,
             cw_target_alias = alias, cw_user_name = user_name\<rparr>
      in case cred_write api s credential of
           Some s' \<Rightarrow> (Inr (), s')
         | None \<Rightarrow> (Inl BackendFailure, s))"

definition keyring_get :: "'s credential_manager \<Rightarrow> 's \<Rightarrow> rstr \<Rightarrow> rstr option" where
  "keyring_get api s device = read_credential api s (target_name device)"

definition keyring_set ::
  "'s credential_manager \<Rightarrow> 's \<Rightarrow> rstr \<Rightarrow> rstr \<Rightarrow> (credential_store_error + unit) \<times> 's" where
  "keyring_set api s device token = write_credential api s (target_name device) device token"

definition keyring_delete ::
  "'s credential_manager \<Rightarrow> 's \<Rightarrow> rstr \<Rightarrow> (credential_store_error + unit) \<times> 's" where
  "keyring_delete api s device = (Inr (), snd (cred_delete api s (to_wide_nul (target_name device))))"

text \<open>
  Construction of a candidate over both stores: the keyring always constructs, the DPAPI store
  needs its directory. What the three DPAPI operations of a probe meet is chosen here.
\<close>

record probe_faults =
  pf_set :: rw_fault
  pf_get_reads :: bool
  pf_delete :: rw_fault
  pf_removed :: remove_result

definition instantiate ::
  "'s credential_manager \<Rightarrow> dpapi \<Rightarrow> config_store_error + path \<Rightarrow> bool \<Rightarrow> probe_faults \<Rightarrow>
   credential_backend \<Rightarrow> ('s \<times> disk) credential_ops option" where
  "instantiate mgr api data_dir created flt b =
     (case b of
        Keyring \<Rightarrow> Some
          \<lparr>op_get = (\<lambda>(m, _). keyring_get mgr m),
           op_set = (\<lambda>(m, d) dev t. apsnd (\<lambda>m'. (m', d)) (keyring_set mgr m dev t)),
           op_delete = (\<lambda>(m, d) dev. apsnd (\<lambda>m'. (m', d)) (keyring_delete mgr m dev))\<rparr>
      | Dpapi \<Rightarrow>
          (case dpapi_new None data_dir created of
             Inl _ \<Rightarrow> None
           | Inr p \<Rightarrow> Some
               \<lparr>op_get = (\<lambda>(_, d). dpapi_get api p (pf_get_reads flt) d),
                op_set = (\<lambda>(m, d) dev t. apsnd (Pair m) (dpapi_set api p (pf_set flt) d dev t)),
                op_delete = (\<lambda>(m, d) dev. apsnd (Pair m) (dpapi_delete p (pf_delete flt) (pf_removed flt) d dev))\<rparr>))"

section \<open>The contract\<close>

text \<open>
  A \<open>get\<close> is told whether its read succeeds, \<open>reads\<close> says of the faults of a \<open>store\<close> whether its read does:
  only then are the other tokens kept.
\<close>

locale credential_store =
  fixes get :: "bool \<Rightarrow> 's \<Rightarrow> rstr \<Rightarrow> rstr option"
    and store :: "'f \<Rightarrow> 's \<Rightarrow> rstr \<Rightarrow> rstr \<Rightarrow> (credential_store_error + unit) \<times> 's"
    and remove :: "'g \<Rightarrow> 's \<Rightarrow> rstr \<Rightarrow> (credential_store_error + unit) \<times> 's"
    and reads :: "'f \<Rightarrow> bool"
    and storable :: "rstr \<Rightarrow> bool"
  assumes get_store: "store f s d t = (Inr u, s') \<Longrightarrow> storable t \<Longrightarrow> get True s' d = Some t"
    and get_store_other: "store f s d t = (r, s') \<Longrightarrow> reads f \<Longrightarrow> d' \<noteq> d \<Longrightarrow> get True s' d' = get True s d'"
    and get_remove_other: "remove g s d = (r', s') \<Longrightarrow> d' \<noteq> d \<Longrightarrow> get True s' d' = get True s d'"
begin

definition ops :: "bool \<Rightarrow> 'f \<Rightarrow> 'g \<Rightarrow> 's credential_ops" where
  "ops b f g = \<lparr>op_get = get b, op_set = store f, op_delete = remove g\<rparr>"

text \<open>The probe touches no device's token when its store can read, and it succeeds when its three steps do.\<close>

lemma probe_keeps:
  assumes "round_trips (ops b f g) s = (ok, s')" and "reads f" and "d \<noteq> PROBE_DEVICE_ID"
  shows "get True s' d = get True s d"
  using assms get_store_other [of f s PROBE_DEVICE_ID] get_remove_other [of g _ PROBE_DEVICE_ID]
  by (auto simp: round_trips_def ops_def Let_def split: prod.splits sum.splits)

lemma probe_succeeds:
  assumes "store f s PROBE_DEVICE_ID (lit ''probe'') = (Inr u, s1)"
    and "remove g s1 PROBE_DEVICE_ID = (Inr v, s2)" and "storable (lit ''probe'')"
  shows "round_trips (ops True f g) s = (True, s2)"
  using assms get_store [OF assms(1,3)] by (simp add: round_trips_def ops_def)

end

lemma dpapi_get_cong:
  "read_json_object True d' p = read_json_object True d p \<Longrightarrow> dpapi_get api p True d' = dpapi_get api p True d"
  by (rule ext) (simp add: dpapi_get_def)

definition dpapi_storable :: "dpapi \<Rightarrow> rstr \<Rightarrow> bool" where
  "dpapi_storable api t \<longleftrightarrow> wf_str t \<and>
     (case dp_protect api (str_bytes t) of None \<Rightarrow> True | Some e \<Rightarrow> dp_unprotect api e = Some (str_bytes t))"

lemma dpapi_set_Inr:
  assumes "dpapi_set api p flt d dev t = (Inr u, d')"
  shows "\<exists>e. dp_protect api (str_bytes t) = Some e \<and>
    read_json_object True d' p = obj_set (read_json_object (rw_reads flt) d p) dev (JStr (base64_encode e))"
  using assms
  by (auto simp: dpapi_set_def split: option.splits if_splits prod.splits sum.splits dest!: read_written_set)

lemma dpapi_set_Inl:
  "dpapi_set api p flt d dev t = (Inl e, d') \<Longrightarrow> read_json_object True d' p = read_json_object True d p"
  by (auto simp: dpapi_set_def split: option.splits if_splits prod.splits sum.splits
      dest!: atomic_write_Inl intro!: read_json_object_cong)

lemma dpapi_delete_file:
  assumes "dpapi_delete p flt rm d dev = (r, d')"
  shows "read_json_object True d' p = read_json_object True d p \<or>
    read_json_object True d' p = obj_remove (read_json_object True d p) dev"
proof (cases "rw_reads flt")
  case True
  let ?rest = "obj_remove (read_json_object True d p) dev"
  obtain x d1 where w: "atomic_write_json (rw_write flt) d p (JObj ?rest) = (x, d1)" by force
  have "d1 p = d p \<or> d1 p = Some (Parsed (JObj ?rest))" by (rule atomic_write_old_or_new [OF w])
  then have "read_json_object True d1 p = read_json_object True d p \<or> read_json_object True d1 p = ?rest"
  proof
    assume "d1 p = d p"
    then show ?thesis using read_json_object_cong by blast
  next
    assume "d1 p = Some (Parsed (JObj ?rest))"
    then have "read_json_object True d1 p = ?rest"
      by (rule read_json_object_parsed) (simp add: obj_remove_def distinct_map_filter)
    then show ?thesis ..
  qed
  moreover have "d' = d \<or> ?rest = [] \<and> d' = d(p := None) \<or> d' = d1"
    using assms w True by (auto simp: dpapi_delete_def Let_def split: if_splits remove_result.splits sum.splits)
  ultimately show ?thesis by auto
qed (use assms in \<open>simp add: dpapi_delete_def Let_def\<close>)

interpretation dpapi_store: credential_store "dpapi_get api p" "dpapi_set api p"
  "\<lambda>(flt, rm). dpapi_delete p flt rm" rw_reads "dpapi_storable api" for api p
proof
  show "dpapi_get api p True d' dev = Some t"
    if set: "dpapi_set api p flt d dev t = (Inr u, d')" and ok: "dpapi_storable api t" for flt d dev t u d'
    using dpapi_set_Inr [OF set] ok
    by (auto simp: dpapi_get_def dpapi_storable_def base64_decode_encode from_utf8_str_bytes)
  show "dpapi_get api p True d' dev' = dpapi_get api p True d dev'"
    if set: "dpapi_set api p flt d dev t = (r, d')" and reads: "rw_reads flt" and other: "dev' \<noteq> dev" for flt d dev t r d' dev'
  proof (cases r)
    case (Inl e)
    then show ?thesis using dpapi_set_Inl [of api p flt d dev t e d'] set by (simp add: dpapi_get_def)
  next
    case (Inr u)
    then show ?thesis using dpapi_set_Inr [of api p flt d dev t u d'] set other reads by (auto simp: dpapi_get_def)
  qed
  show "dpapi_get api p True d' dev' = dpapi_get api p True d dev'"
    if del: "(case g of (flt, rm) \<Rightarrow> dpapi_delete p flt rm) d dev = (r', d')" and other: "dev' \<noteq> dev"
    for g d dev r' d' dev'
    using del other dpapi_delete_file [of p "fst g" "snd g" d dev r' d']
    by (auto simp: dpapi_get_def case_prod_beta)
qed

section \<open>Selection\<close>

text \<open>
  Selection returns the first candidate that constructs and survives its probe, and a
  selection that only probes stores keeping the tokens of real devices keeps them all.
\<close>

lemma select_from_first:
  assumes "select_from inst bs s = (Inr b, s')"
  shows "\<exists>ops s1. b \<in> set bs \<and> inst b = Some ops \<and> round_trips ops s1 = (True, s')"
  using assms
  by (induction inst bs s rule: select_from.induct) (auto split: option.splits prod.splits bool.splits)

lemma select_from_invariant:
  assumes "\<And>b ops s ok s'. inst b = Some ops \<Longrightarrow> round_trips ops s = (ok, s') \<Longrightarrow> f s' = f s"
  shows "f (snd (select_from inst bs s)) = f s"
  using assms
proof (induction inst bs s rule: select_from.induct)
  case (2 inst b bs s)
  show ?case
  proof (cases "inst b")
    case (Some ops)
    obtain ok s1 where r: "round_trips ops s = (ok, s1)" by force
    have "f s1 = f s" by (rule 2(3) [OF Some r])
    then show ?thesis
      using Some r 2(2) [OF Some] 2(3) by (cases ok) simp_all
  qed (use 2(1,3) in simp)
qed simp

lemma blob_Nil: "token_to_utf16le_blob t = [] \<longleftrightarrow> t = []"
  by (cases t) (auto simp: token_to_utf16le_blob_def utf16_def u16_le_bytes_def)

lemma keyring_reads_back:
  assumes manager: "\<And>m c m'. cred_write mgr m c = Some m' \<Longrightarrow>
      \<exists>c'. cred_read mgr m' (cw_target c) = Some c' \<and> cw_blob c' = cw_blob c"
    and token: "wf_str token" and written: "keyring_set mgr m dev token = (Inr u, m')"
  shows "keyring_get mgr m' dev = Some token"
proof -
  obtain c where "cred_write mgr m c = Some m'" and c: "cw_target c = to_wide_nul (target_name dev)"
    "cw_blob c = token_to_utf16le_blob token"
    using written
    by (auto simp: keyring_set_def write_credential_def Let_def split: option.splits prod.splits)
  then obtain c' where "cred_read mgr m' (to_wide_nul (target_name dev)) = Some c'"
    and "cw_blob c' = token_to_utf16le_blob token"
    using manager by metis
  then show ?thesis
    using utf16le_blob_decodes [OF token] by (simp add: keyring_get_def read_credential_def blob_Nil)
qed

lemma target_name_inject: "to_wide_nul (target_name a) = to_wide_nul (target_name b) \<Longrightarrow> wf_str a \<Longrightarrow> wf_str b \<Longrightarrow> a = b"
proof -
  assume eq: "to_wide_nul (target_name a) = to_wide_nul (target_name b)" and wf: "wf_str a" "wf_str b"
  have tail: "wf_str (lit ''.'' @ KEYRING_SERVICE)"
    by (simp add: wf_str_def KEYRING_SERVICE_def lit_def is_scalar_def)
  have "from_utf16 (utf16_units (target_name a)) = from_utf16 (utf16_units (target_name b))"
    using eq by (simp add: to_wide_nul_def)
  then have "target_name a = target_name b"
    using wf tail by (simp add: from_utf16_units target_name_def wf_str_def)
  then show "a = b" by (simp add: target_name_def)
qed

section \<open>Properties\<close>

text \<open>
  C21: a stored token reads back verbatim. If unprotecting undoes protecting and reading a
  credential returns the blob written under its target, then after a successful \<open>set\<close> both
  backends return exactly the token, whatever Unicode it holds; the DPAPI file, if that \<open>set\<close> could read
  it, keeps every other device's token, and a failed \<open>set\<close> changes none.
\<close>

theorem tokens_read_back:
  assumes protect: "\<And>x e. dp_protect api x = Some e \<Longrightarrow> dp_unprotect api e = Some x"
    and manager: "\<And>m c m'. cred_write mgr m c = Some m' \<Longrightarrow>
      \<exists>c'. cred_read mgr m' (cw_target c) = Some c' \<and> cw_blob c' = cw_blob c"
    and token: "wf_str token"
  shows "(case dpapi_set api p flt d dev token of
      (Inr _, d') \<Rightarrow> dpapi_get api p True d' dev = Some token \<and>
        (rw_reads flt \<longrightarrow> (\<forall>other. other \<noteq> dev \<longrightarrow> dpapi_get api p True d' other = dpapi_get api p True d other))
    | (Inl _, d') \<Rightarrow> dpapi_get api p True d' = dpapi_get api p True d) \<and>
    (case keyring_set mgr m dev token of
      (Inr _, m') \<Rightarrow> keyring_get mgr m' dev = Some token
    | (Inl _, m') \<Rightarrow> m' = m)"
proof
  have ok: "dpapi_storable api token"
    using protect token by (simp add: dpapi_storable_def split: option.split)
  obtain r d' where set: "dpapi_set api p flt d dev token = (r, d')" by force
  show "case dpapi_set api p flt d dev token of
      (Inr _, d') \<Rightarrow> dpapi_get api p True d' dev = Some token \<and>
        (rw_reads flt \<longrightarrow> (\<forall>other. other \<noteq> dev \<longrightarrow> dpapi_get api p True d' other = dpapi_get api p True d other))
    | (Inl _, d') \<Rightarrow> dpapi_get api p True d' = dpapi_get api p True d"
  proof (cases r)
    case (Inl e)
    then show ?thesis using dpapi_get_cong [OF dpapi_set_Inl] set by simp
  next
    case (Inr u)
    then show ?thesis
      using dpapi_store.get_store [of api p flt d dev token u d'] ok set
        dpapi_store.get_store_other [of api p flt d dev token r d'] by simp
  qed
  show "case keyring_set mgr m dev token of
      (Inr _, m') \<Rightarrow> keyring_get mgr m' dev = Some token
    | (Inl _, m') \<Rightarrow> m' = m"
  proof -
    obtain r m' where set: "keyring_set mgr m dev token = (r, m')" by force
    show ?thesis
    proof (cases r)
      case (Inl e)
      then show ?thesis using set
        by (auto simp: keyring_set_def write_credential_def Let_def split: option.splits prod.splits)
    next
      case (Inr u)
      then show ?thesis using keyring_reads_back [OF manager token] set by simp
    qed
  qed
qed

definition sample_dpapi :: dpapi where
  "sample_dpapi = \<lparr>dp_protect = (\<lambda>x. Some (1 # x)), dp_unprotect = (\<lambda>e. case e of [] \<Rightarrow> None | _ # x \<Rightarrow> Some x)\<rparr>"

definition sample_manager :: "(nat list \<Rightarrow> credentialw option) credential_manager" where
  "sample_manager =
     \<lparr>cred_read = (\<lambda>m t. m t), cred_write = (\<lambda>m c. Some (m(cw_target c \<mapsto> c))),
      cred_delete = (\<lambda>m t. (True, m(t := None)))\<rparr>"

lemma tokens_read_back_witness:
  "\<exists>d' m'. dpapi_set sample_dpapi (lit ''c'') no_rw_fault (\<lambda>_. None) (lit ''D'') [116, 233, 128512] = (Inr (), d') \<and>
     dpapi_get sample_dpapi (lit ''c'') True d' (lit ''D'') = Some [116, 233, 128512] \<and>
     keyring_set sample_manager (\<lambda>_. None) (lit ''D'') [116, 233, 128512] = (Inr (), m') \<and>
     keyring_get sample_manager m' (lit ''D'') = Some [116, 233, 128512]"
proof -
  have protect: "dp_unprotect sample_dpapi e = Some x" if "dp_protect sample_dpapi x = Some e" for x e
    using that by (auto simp: sample_dpapi_def)
  have manager: "\<exists>c'. cred_read sample_manager m' (cw_target c) = Some c' \<and> cw_blob c' = cw_blob c"
    if "cred_write sample_manager m c = Some m'" for m c m'
    using that by (auto simp: sample_manager_def)
  have token: "wf_str [116, 233, 128512]" by (simp add: wf_str_def is_scalar_def)
  obtain d' where d: "dpapi_set sample_dpapi (lit ''c'') no_rw_fault (\<lambda>_. None) (lit ''D'') [116, 233, 128512] = (Inr (), d')"
    by (simp add: dpapi_set_def sample_dpapi_def atomic_write_json_def Let_def)
  obtain m' where m: "keyring_set sample_manager (\<lambda>_. None) (lit ''D'') [116, 233, 128512] = (Inr (), m')"
    by (simp add: keyring_set_def write_credential_def sample_manager_def Let_def)
  from tokens_read_back [of sample_dpapi sample_manager, OF protect manager token,
      where p = "lit ''c''" and flt = no_rw_fault and d = "\<lambda>_. None" and dev = "lit ''D''" and m = "\<lambda>_. None"] d m
  show ?thesis by simp
qed

text \<open>The tokens of a device in both backends.\<close>

definition tokens_of ::
  "'s credential_manager \<Rightarrow> dpapi \<Rightarrow> config_store_error + path \<Rightarrow> bool \<Rightarrow> rstr \<Rightarrow> 's \<times> disk \<Rightarrow>
   rstr option \<times> rstr option" where
  "tokens_of mgr api data_dir created dev s =
     (keyring_get mgr (fst s) dev,
      case dpapi_new None data_dir created of Inl _ \<Rightarrow> None | Inr p \<Rightarrow> dpapi_get api p True (snd s) dev)"

text \<open>No probe whose store reads the file reaches the token of a device.\<close>

lemma probe_keeps_tokens:
  assumes writing: "\<And>m c m' t. cred_write mgr m c = Some m' \<Longrightarrow> t \<noteq> cw_target c \<Longrightarrow> cred_read mgr m' t = cred_read mgr m t"
    and deleting: "\<And>m t t'. t' \<noteq> t \<Longrightarrow> cred_read mgr (snd (cred_delete mgr m t)) t' = cred_read mgr m t'"
    and dev: "wf_str dev" "dev \<noteq> PROBE_DEVICE_ID" and reads: "rw_reads (pf_set flt)"
    and ops: "instantiate mgr api data_dir created flt b = Some ops" and run: "round_trips ops s = (ok, s')"
  shows "tokens_of mgr api data_dir created dev s' = tokens_of mgr api data_dir created dev s"
proof -
  have other: "to_wide_nul (target_name dev) \<noteq> to_wide_nul (target_name PROBE_DEVICE_ID)"
    using target_name_inject [of dev PROBE_DEVICE_ID] dev
    by (auto simp: wf_str_def PROBE_DEVICE_ID_def lit_def is_scalar_def)
  have set_other: "keyring_get mgr m' dev = keyring_get mgr m dev"
    if "keyring_set mgr m PROBE_DEVICE_ID t = (x, m')" for m m' t x
    using that other writing
    by (fastforce simp: keyring_set_def write_credential_def keyring_get_def read_credential_def Let_def
        split: option.splits prod.splits)
  have delete_other: "keyring_get mgr (snd (keyring_delete mgr m PROBE_DEVICE_ID)) dev = keyring_get mgr m dev" for m
    using other deleting by (simp add: keyring_delete_def keyring_get_def read_credential_def)
  have file_other: "dpapi_get api p True (snd (dpapi_set api p (pf_set flt) d PROBE_DEVICE_ID t)) dev = dpapi_get api p True d dev"
    "dpapi_get api p True (snd (dpapi_delete p (pf_delete flt) (pf_removed flt) d PROBE_DEVICE_ID)) dev =
       dpapi_get api p True d dev"
    for p d t
    using dpapi_store.get_store_other [OF surjective_pairing reads dev(2)]
      dpapi_store.get_remove_other [where g = "(pf_delete flt, pf_removed flt)" and api = api, OF surjective_pairing dev(2)]
    by (simp_all add: case_prod_beta)
  show ?thesis
  proof (cases b)
    case Keyring
    then show ?thesis
      using ops run set_other delete_other
      by (auto simp: instantiate_def round_trips_def tokens_of_def Let_def apsnd_def map_prod_def
          split: prod.splits sum.splits; metis snd_conv)
  next
    case Dpapi
    then show ?thesis
      using ops run file_other
      by (auto simp: instantiate_def round_trips_def tokens_of_def Let_def apsnd_def map_prod_def case_prod_beta
          split: prod.splits sum.splits)
  qed
qed

lemma select_from_error: "select_from inst bs s = (Inl e, s') \<Longrightarrow> e = NoBackend"
  by (induction inst bs s rule: select_from.induct) (auto split: option.splits prod.splits bool.splits)


definition sample_credentials :: "nat list \<Rightarrow> credentialw option" where
  "sample_credentials = (\<lambda>_. None)(to_wide_nul (target_name (lit ''D'')) \<mapsto>
     \<lparr>cw_flags = 0, cw_type = 1, cw_target = to_wide_nul (target_name (lit ''D'')), cw_comment = None,
      cw_blob = token_to_utf16le_blob (lit ''t''), cw_persist = 3, cw_attribute_count = 0,
      cw_target_alias = None, cw_user_name = None\<rparr>)"

definition sample_probe :: "bool \<Rightarrow> probe_faults" where
  "sample_probe reads = \<lparr>pf_set = \<lparr>rw_reads = reads, rw_write = NoFault\<rparr>, pf_get_reads = True,
     pf_delete = no_rw_fault, pf_removed = Removed\<rparr>"


text \<open>
  A probe that cannot read the DPAPI file once writes a file with nothing but the probe, reads it back, and
  then deletes it: the backend is chosen, and the tokens of all devices are gone.
\<close>

theorem unreadable_probe_erases_tokens:
  fixes p :: path
  defines "p \<equiv> path_join (lit ''d'') CREDENTIALS_FILE_NAME"
  shows "\<exists>d s'. dpapi_get sample_dpapi p True d (lit ''D'') = Some (lit ''t'') \<and>
    select_credential_store (instantiate sample_manager sample_dpapi (Inr (lit ''d'')) True (sample_probe False))
      (Some Dpapi) (\<lambda>_. None, d) = (Inr Dpapi, s') \<and>
    dpapi_get sample_dpapi p True (snd s') (lit ''D'') = None"
proof -
  have wf: "from_utf8 (str_bytes (lit ''probe'')) = Some (lit ''probe'')" "from_utf8 (str_bytes (lit ''t'')) = Some (lit ''t'')"
    by (rule from_utf8_str_bytes; simp add: wf_str_def lit_def is_scalar_def)+
  obtain d where set: "dpapi_set sample_dpapi p no_rw_fault (\<lambda>_. None) (lit ''D'') (lit ''t'') = (Inr (), d)"
    by (simp add: dpapi_set_def sample_dpapi_def atomic_write_json_def Let_def)
  have stored: "dpapi_get sample_dpapi p True d (lit ''D'') = Some (lit ''t'')"
    by (rule dpapi_store.get_store [OF set]) (simp add: dpapi_storable_def sample_dpapi_def wf_str_def lit_def is_scalar_def)
  have "\<exists>d'. select_credential_store (instantiate sample_manager sample_dpapi (Inr (lit ''d'')) True (sample_probe False))
      (Some Dpapi) (\<lambda>_. None, d) = (Inr Dpapi, (\<lambda>_. None, d')) \<and> d' p = None"
    by (simp add: select_credential_store_def instantiate_def dpapi_new_def open_directory_def round_trips_def
        dpapi_set_def dpapi_get_def sample_dpapi_def atomic_write_json_def read_json_object_def sample_probe_def
        obj_of_members_def dpapi_delete_def base64_decode_encode wf obj_remove_def Let_def p_def)
  then obtain d' where run: "select_credential_store (instantiate sample_manager sample_dpapi (Inr (lit ''d'')) True (sample_probe False))
      (Some Dpapi) (\<lambda>_. None, d) = (Inr Dpapi, (\<lambda>_. None, d'))" and gone: "d' p = None"
    by blast
  have "dpapi_get sample_dpapi p True d' (lit ''D'') = None" using gone by (simp add: dpapi_get_def)
  with stored run show ?thesis by auto
qed

end
