(* ===== verification/Native_Memory.thy ===== *)
theory Native_Memory
  imports Credentials
begin

text \<open>
  The foreign calls of the two credential backends with their memory
  (\<open>core/src/store/dpapi_store.rs\<close>, \<open>core/src/store/keyring_store.rs\<close>): blobs that
  \<open>LocalAlloc\<close> hands out, the allocations of \<open>CredReadW\<close>, pointers into them, and the calls that
  free them. Reading memory that is not live or past its end, and freeing twice, are undefined
  behaviour: \<open>None\<close>. \<open>Credentials\<close> has the same operations on values; the properties show that the
  calls here compute them, with every allocation freed.
\<close>

section \<open>Memory\<close>

text \<open>The allocations the process owns, by address; address 0 is the null pointer.\<close>

type_synonym addr = nat
type_synonym 'c memory = "addr \<rightharpoonup> 'c"

definition free_block :: "'c memory \<Rightarrow> addr \<Rightarrow> 'c memory option" where
  "free_block h p = (if h p = None then None else Some (h(p := None)))"

definition read_bytes :: "u8 list \<Rightarrow> nat \<Rightarrow> u8 list option" where
  "read_bytes block n = (if n \<le> length block then Some (take n block) else None)"

text \<open>A length stored in a \<open>u32\<close> field, and the bytes a callee sees through it.\<close>

definition as_u32 :: "nat \<Rightarrow> nat" where
  "as_u32 n = n mod 2 ^ 32"

definition visible :: "u8 list \<Rightarrow> u8 list" where
  "visible data = take (as_u32 (length data)) data"

lemma visible_id: "length data < 2 ^ 32 \<Longrightarrow> visible data = data"
  by (simp add: visible_def as_u32_def)

lemma free_fresh: "h p = None \<Longrightarrow> free_block (h(p \<mapsto> c)) p = Some h"
  by (simp add: free_block_def fun_upd_idem)

lemma fresh_differs: "h p = None \<Longrightarrow> h \<noteq> h(p \<mapsto> c)"
  by (metis fun_upd_same option.distinct(1))

section \<open>Data protection\<close>

text \<open>The out-blob of a call.\<close>

record crypt_integer_blob =
  cb_data :: nat
  pb_data :: addr

text \<open>\<open>CryptProtectData\<close> or \<open>CryptUnprotectData\<close>: \<open>None\<close> is a failed call.\<close>

type_synonym crypt_call = "u8 list memory \<Rightarrow> u8 list \<Rightarrow> (crypt_integer_blob \<times> u8 list memory) option"

definition copy_and_free_local_blob ::
  "u8 list memory \<Rightarrow> crypt_integer_blob \<Rightarrow> (u8 list \<times> u8 list memory) option" where
  "copy_and_free_local_blob h blob =
     (if pb_data blob = 0 then Some ([], h)
      else
        Option.bind
          (if cb_data blob = 0 then Some []
           else Option.bind (h (pb_data blob)) (\<lambda>block. read_bytes block (cb_data blob)))
          (\<lambda>bytes. map_option (Pair bytes) (free_block h (pb_data blob))))"

definition dpapi_protect ::
  "crypt_call \<Rightarrow> u8 list memory \<Rightarrow> u8 list \<Rightarrow> (u8 list option \<times> u8 list memory) option" where
  "dpapi_protect crypt_protect_data h data =
     (case crypt_protect_data h (visible data) of
        None \<Rightarrow> Some (None, h)
      | Some (output, h') \<Rightarrow> map_option (apfst Some) (copy_and_free_local_blob h' output))"

definition dpapi_unprotect ::
  "crypt_call \<Rightarrow> u8 list memory \<Rightarrow> u8 list \<Rightarrow> (u8 list option \<times> u8 list memory) option" where
  "dpapi_unprotect crypt_unprotect_data h data =
     (case crypt_unprotect_data h (visible data) of
        None \<Rightarrow> Some (None, h)
      | Some (output, h') \<Rightarrow> map_option (apfst Some) (copy_and_free_local_blob h' output))"

text \<open>
  What the calls promise: on success the out-blob is a fresh allocation of at least its size, or
  null for an empty result; on failure there is none.
\<close>

definition crypt_contract :: "crypt_call \<Rightarrow> (u8 list \<Rightarrow> u8 list option) \<Rightarrow> u8 list memory \<Rightarrow> bool" where
  "crypt_contract call f h \<longleftrightarrow>
     (\<forall>x. case call h x of
            None \<Rightarrow> f x = None
          | Some (blob, h') \<Rightarrow>
              if pb_data blob = 0 then f x = Some [] \<and> h' = h
              else h (pb_data blob) = None \<and>
                (\<exists>block. h' = h(pb_data blob \<mapsto> block) \<and> cb_data blob \<le> length block \<and>
                   f x = Some (take (cb_data blob) block)))"

lemma crypt_call_sound:
  assumes "crypt_contract call f h" and "length data < 2 ^ 32"
  shows "dpapi_protect call h data = Some (f data, h)" and "dpapi_unprotect call h data = Some (f data, h)"
proof -
  have "\<exists>r. call h data = r \<and> (case r of None \<Rightarrow> f data = None
      | Some (blob, h') \<Rightarrow>
          if pb_data blob = 0 then f data = Some [] \<and> h' = h
          else h (pb_data blob) = None \<and>
            (\<exists>block. h' = h(pb_data blob \<mapsto> block) \<and> cb_data blob \<le> length block \<and>
               f data = Some (take (cb_data blob) block)))"
    using assms(1) by (simp add: crypt_contract_def)
  then show "dpapi_protect call h data = Some (f data, h)" "dpapi_unprotect call h data = Some (f data, h)"
    using assms(2)
    by (auto simp: dpapi_protect_def dpapi_unprotect_def copy_and_free_local_blob_def read_bytes_def visible_id
        free_fresh dest: fresh_differs split: option.splits if_splits)
qed

section \<open>Credentials\<close>

text \<open>
  An allocation of \<open>CredReadW\<close>: the blob's size field, the bytes its blob pointer reaches (\<open>None\<close>
  for a null pointer), and the strings its other pointers reach.
\<close>

record cred_block =
  ck_blob_size :: nat
  ck_blob :: "u8 list option"
  ck_user_name :: "nat list option"
  ck_comment :: "nat list option"
  ck_target_alias :: "nat list option"

text \<open>\<open>CredReadW\<close>: whether it succeeded, and the out-pointer.\<close>

type_synonym 's cred_read_call = "'s \<Rightarrow> cred_block memory \<Rightarrow> nat list \<Rightarrow> bool \<times> addr \<times> cred_block memory"

definition read_credential_raw ::
  "'s cred_read_call \<Rightarrow> 's \<Rightarrow> cred_block memory \<Rightarrow> rstr \<Rightarrow> (rstr option \<times> cred_block memory) option" where
  "read_credential_raw cred_read_w s h target =
     (case cred_read_w s h (to_wide_nul target) of (ok, credential, h') \<Rightarrow>
        if \<not> ok \<or> credential = 0 then Some (None, h')
        else
          Option.bind (h' credential) (\<lambda>c.
          Option.bind
            (if ck_blob_size c = 0 then Some (Some [])
             else
               (case ck_blob c of
                  None \<Rightarrow> Some None
                | Some block \<Rightarrow> map_option decode_utf16le_blob (read_bytes block (ck_blob_size c))))
            (\<lambda>secret. map_option (Pair secret) (free_block h' credential))))"

text \<open>A string pointer of the credential to write: null, a local buffer, or a field of an allocation.\<close>

datatype pwstr = NullPointer | LocalBuffer "nat list" | FieldOf addr "cred_block \<Rightarrow> nat list option"

fun load_pwstr :: "cred_block memory \<Rightarrow> pwstr \<Rightarrow> nat list option option" where
  "load_pwstr h NullPointer = Some None"
| "load_pwstr h (LocalBuffer units) = Some (Some units)"
| "load_pwstr h (FieldOf p field) = map_option field (h p)"

record credential_ptrs =
  cp_flags :: nat
  cp_type :: nat
  cp_target :: "nat list"
  cp_comment :: pwstr
  cp_blob_size :: nat
  cp_blob :: "u8 list"
  cp_persist :: nat
  cp_attribute_count :: nat
  cp_target_alias :: pwstr
  cp_user_name :: pwstr

text \<open>What \<open>CredWriteW\<close> reads through the pointers it is given.\<close>

definition load_credential :: "cred_block memory \<Rightarrow> credential_ptrs \<Rightarrow> credentialw option" where
  "load_credential h c =
     Option.bind (read_bytes (cp_blob c) (cp_blob_size c)) (\<lambda>blob.
     Option.bind (load_pwstr h (cp_comment c)) (\<lambda>comment.
     Option.bind (load_pwstr h (cp_target_alias c)) (\<lambda>alias.
     Option.bind (load_pwstr h (cp_user_name c)) (\<lambda>user_name.
       Some \<lparr>cw_flags = cp_flags c, cw_type = cp_type c, cw_target = cp_target c, cw_comment = comment,
             cw_blob = blob, cw_persist = cp_persist c, cw_attribute_count = cp_attribute_count c,
             cw_target_alias = alias, cw_user_name = user_name\<rparr>))))"

definition write_credential_raw ::
  "'s cred_read_call \<Rightarrow> ('s \<Rightarrow> credentialw \<Rightarrow> 's option) \<Rightarrow> 's \<Rightarrow> cred_block memory \<Rightarrow> rstr \<Rightarrow> rstr \<Rightarrow> rstr \<Rightarrow>
   ((credential_store_error + unit) \<times> 's \<times> cred_block memory) option" where
  "write_credential_raw cred_read_w cred_write_w s h target user token =
     (let target_wide = to_wide_nul target; user_wide = to_wide_nul user; blob = token_to_utf16le_blob token
      in case cred_read_w s h target_wide of (ok, existing, h') \<Rightarrow>
        let has_existing = (ok \<and> existing \<noteq> 0);
            (user_name, comment, alias) =
              (if has_existing
               then (FieldOf existing ck_user_name, FieldOf existing ck_comment, FieldOf existing ck_target_alias)
               else (LocalBuffer user_wide, NullPointer, NullPointer));
            credential =
              \<lparr>cp_flags = 0, cp_type = 1, cp_target = target_wide, cp_comment = comment,
               cp_blob_size = as_u32 (length blob), cp_blob = blob, cp_persist = 3, cp_attribute_count = 0,
               cp_target_alias = alias, cp_user_name = user_name\<rparr>
        in Option.bind (load_credential h' credential) (\<lambda>seen.
             let (result, s') =
                   (case cred_write_w s seen of Some s' \<Rightarrow> (Inr (), s') | None \<Rightarrow> (Inl BackendFailure, s))
             in map_option (\<lambda>h''. (result, s', h'')) (if has_existing then free_block h' existing else Some h')))"

text \<open>
  What \<open>CredReadW\<close> promises: success hands out one fresh allocation that holds the credential, with
  a blob pointer whenever the blob is not empty; a failure hands out nothing.
\<close>

definition holds_credential :: "cred_block \<Rightarrow> credentialw \<Rightarrow> bool" where
  "holds_credential b c \<longleftrightarrow>
     ck_blob_size b = length (cw_blob c) \<and> (cw_blob c \<noteq> [] \<longrightarrow> ck_blob b = Some (cw_blob c)) \<and>
     ck_user_name b = cw_user_name c \<and> ck_comment b = cw_comment c \<and> ck_target_alias b = cw_target_alias c"

definition cred_read_contract :: "'s cred_read_call \<Rightarrow> 's credential_manager \<Rightarrow> cred_block memory \<Rightarrow> bool" where
  "cred_read_contract call mgr h \<longleftrightarrow>
     (\<forall>s t. case call s h t of (ok, p, h') \<Rightarrow>
        (case cred_read mgr s t of
           None \<Rightarrow> (\<not> ok \<or> p = 0) \<and> h' = h
         | Some c \<Rightarrow> ok \<and> p \<noteq> 0 \<and> h p = None \<and> (\<exists>b. h' = h(p \<mapsto> b) \<and> holds_credential b c)))"

lemma load_local:
  "length blob < 2 ^ 32 \<Longrightarrow> read_bytes blob (as_u32 (length blob)) = Some blob"
  by (simp add: read_bytes_def as_u32_def)

lemma read_credential_sound:
  assumes "cred_read_contract call mgr h"
  shows "read_credential_raw call s h target = Some (read_credential mgr s target, h)"
proof -
  obtain ok p h' where call: "call s h (to_wide_nul target) = (ok, p, h')" by (metis prod_cases3)
  have contract: "case cred_read mgr s (to_wide_nul target) of
      None \<Rightarrow> (\<not> ok \<or> p = 0) \<and> h' = h
    | Some c \<Rightarrow> ok \<and> p \<noteq> 0 \<and> h p = None \<and> (\<exists>b. h' = h(p \<mapsto> b) \<and> holds_credential b c)"
    using assms call unfolding cred_read_contract_def by (metis (no_types, lifting) case_prod_conv)
  show ?thesis
  proof (cases "cred_read mgr s (to_wide_nul target)")
    case None
    then show ?thesis using contract call by (auto simp: read_credential_raw_def read_credential_def)
  next
    case (Some c)
    with contract obtain b where "ok" "p \<noteq> 0" "h p = None" "h' = h(p \<mapsto> b)" "holds_credential b c" by auto
    then show ?thesis
      using call Some
      by (simp add: read_credential_raw_def read_credential_def holds_credential_def read_bytes_def free_fresh)
  qed
qed

lemma write_credential_sound:
  assumes "cred_read_contract call mgr h" and len: "length (token_to_utf16le_blob token) < 2 ^ 32"
  shows "write_credential_raw call (cred_write mgr) s h target user token =
    Some (case write_credential mgr s target user token of (r, s') \<Rightarrow> (r, s', h))"
proof -
  obtain ok p h' where call: "call s h (to_wide_nul target) = (ok, p, h')" by (metis prod_cases3)
  have contract: "case cred_read mgr s (to_wide_nul target) of
      None \<Rightarrow> (\<not> ok \<or> p = 0) \<and> h' = h
    | Some c \<Rightarrow> ok \<and> p \<noteq> 0 \<and> h p = None \<and> (\<exists>b. h' = h(p \<mapsto> b) \<and> holds_credential b c)"
    using assms(1) call unfolding cred_read_contract_def by (metis (no_types, lifting) case_prod_conv)
  show ?thesis
  proof (cases "cred_read mgr s (to_wide_nul target)")
    case None
    then have "\<not> (ok \<and> p \<noteq> 0)" "h' = h" using contract by auto
    then show ?thesis
      using call None load_local [OF len]
      by (auto simp: write_credential_raw_def write_credential_def load_credential_def Let_def split: option.splits)
  next
    case (Some c)
    with contract obtain b where "ok" "p \<noteq> 0" "h p = None" "h' = h(p \<mapsto> b)" "holds_credential b c" by auto
    then show ?thesis
      using call Some load_local [OF len]
      by (simp add: write_credential_raw_def write_credential_def load_credential_def holds_credential_def
          Let_def free_fresh split: option.split)
  qed
qed

section \<open>Properties\<close>

text \<open>
  C22: the native calls are memory safe and compute what the value-level operations say. Under the
  contracts of DPAPI and of \<open>CredReadW\<close>, for data below 4 GiB, no call reads dead or out-of-range
  memory or frees twice, every allocation is freed (the memory afterwards is the memory before),
  protecting and unprotecting return the bytes of the result, and reading and writing a credential
  have the effect of \<open>read_credential\<close> and \<open>write_credential\<close>, with the fields of an existing
  credential read before its allocation is freed.
\<close>

theorem native_calls_refine:
  assumes protect: "crypt_contract protect_call (dp_protect api) blobs"
    and unprotect: "crypt_contract unprotect_call (dp_unprotect api) blobs"
    and cred: "cred_read_contract read_call mgr creds"
    and len: "length data < 2 ^ 32" "length (token_to_utf16le_blob token) < 2 ^ 32"
  shows "dpapi_protect protect_call blobs data = Some (dp_protect api data, blobs) \<and>
    dpapi_unprotect unprotect_call blobs data = Some (dp_unprotect api data, blobs) \<and>
    read_credential_raw read_call s creds target = Some (read_credential mgr s target, creds) \<and>
    write_credential_raw read_call (cred_write mgr) s creds target user token =
      Some (fst (write_credential mgr s target user token), snd (write_credential mgr s target user token), creds)"
  using crypt_call_sound(1) [OF protect len(1)] crypt_call_sound(2) [OF unprotect len(1)]
    read_credential_sound [OF cred] write_credential_sound [OF cred len(2)]
  by (simp add: case_prod_beta)

text \<open>Calls that answer from the sample stores, with one allocation at address 1.\<close>

definition sample_crypt :: "(u8 list \<Rightarrow> u8 list option) \<Rightarrow> crypt_call" where
  "sample_crypt f h x =
     (case f x of
        None \<Rightarrow> None
      | Some y \<Rightarrow> Some (\<lparr>cb_data = length y, pb_data = 1\<rparr>, h(1 \<mapsto> y @ [0])))"

definition sample_read :: "(nat list \<Rightarrow> credentialw option) cred_read_call" where
  "sample_read s h t =
     (case s t of
        None \<Rightarrow> (False, 0, h)
      | Some c \<Rightarrow>
          (True, 1, h(1 \<mapsto> \<lparr>ck_blob_size = length (cw_blob c),
             ck_blob = (if cw_blob c = [] then None else Some (cw_blob c)), ck_user_name = cw_user_name c,
             ck_comment = cw_comment c, ck_target_alias = cw_target_alias c\<rparr>)))"

lemma native_calls_refine_witness:
  "dpapi_protect (sample_crypt (dp_protect sample_dpapi)) Map.empty [7, 8] = Some (Some [1, 7, 8], Map.empty) \<and>
   read_credential_raw sample_read sample_credentials Map.empty (target_name (lit ''D'')) =
     Some (Some (lit ''t''), Map.empty)"
proof -
  have protect: "crypt_contract (sample_crypt f) f Map.empty" for f
    by (auto simp: crypt_contract_def sample_crypt_def split: option.split)
  have cred: "cred_read_contract sample_read sample_manager Map.empty"
    by (auto simp: cred_read_contract_def sample_read_def sample_manager_def holds_credential_def split: option.split)
  have "keyring_get sample_manager sample_credentials (lit ''D'') = Some (lit ''t'')"
    by (simp add: sample_credentials_def keyring_get_def read_credential_def sample_manager_def blob_Nil
        utf16le_blob_decodes lit_def wf_str_def is_scalar_def)
  then show ?thesis
    using native_calls_refine [OF protect protect cred, where data = "[7, 8]" and token = "[]" and api = sample_dpapi
        and s = sample_credentials and target = "target_name (lit ''D'')" and user = "[]"]
    by (simp add: keyring_get_def sample_dpapi_def token_to_utf16le_blob_def)
qed

end
