(* ===== verification/Pairing.thy ===== *)
theory Pairing
  imports Capabilities Presence_Client
begin

text \<open>
  The pairing client (\<open>core/src/companion/pairing.rs\<close>): input checks, the two preflights and the
  claim. What the network answers to the two requests and what the credential preflight returns
  are arguments; the requests that leave are part of the result.
\<close>

datatype pairing_error_code =
    PcInvalidPairingCode | PcInvalidDeviceName | PcInvalidServerUrl | PcClientUpdateRequired
  | PcServerFeatureUnavailable | PcInvalidCapabilities | PcRequiredScopeMissing
  | PcPairingRejected | PcNetwork

record pairing_error =
  pe_code :: pairing_error_code
  pe_server_code :: "rstr option"

definition pairing_error_new :: "pairing_error_code \<Rightarrow> pairing_error" where
  "pairing_error_new code = \<lparr>pe_code = code, pe_server_code = None\<rparr>"

datatype claim_pairing_error = PairingFailure pairing_error | OtherFailure rstr

record pairing_result =
  pr_device_id :: rstr
  pr_device_token :: rstr
  pr_scopes :: "rstr list"
  pr_next_sequence :: nat
  pr_base_url :: rstr
  pr_device_name :: rstr

fun extract_pairing_server_code :: "transport_error \<Rightarrow> rstr option" where
  "extract_pairing_server_code (PairingServer _ code) = Some code"
| "extract_pairing_server_code (ServerError _ envelope) = Some (ed_code (ee_error envelope))"
| "extract_pairing_server_code _ = None"

definition claim_options :: "u8 list \<Rightarrow> execute_options" where
  "claim_options encoded =
     \<lparr>eo_method = Post, eo_path = lit ''/companion/pairings/claim'', eo_credential = None,
      eo_expected_request_id = None, eo_maximum_payload_bytes = None, eo_encoded_body = Some encoded\<rparr>"

definition fail_with :: "pairing_error_code \<Rightarrow> claim_pairing_error + 'a" where
  "fail_with code = Inl (PairingFailure (pairing_error_new code))"

text \<open>The claim itself, with a checked code and name on a negotiated server.\<close>

definition submit_claim ::
  "surroundings \<Rightarrow> url \<Rightarrow> rstr \<Rightarrow> rstr \<Rightarrow> reply \<Rightarrow>
   http_request list \<times> (claim_pairing_error + pairing_result)" where
  "submit_claim env configuration name code claim_reply =
     (let encoded = env_to_vec env (en_pairing_claim_request name code)
      in case execute (env_calendar env) (env_url env) configuration (claim_options encoded)
                decode_pairing_claim_response claim_reply of
           (sent, Inl error) \<Rightarrow>
             (sent, case extract_pairing_server_code error of
                      Some server_code \<Rightarrow>
                        Inl (PairingFailure \<lparr>pe_code = PcPairingRejected, pe_server_code = Some server_code\<rparr>)
                    | None \<Rightarrow> fail_with PcNetwork)
         | (sent, Inr claim) \<Rightarrow>
             (sent,
              if \<not> list_ex (\<lambda>scope. scope = REQUIRED_PRESENCE_SCOPE) (pc_scopes claim)
              then fail_with PcRequiredScopeMissing
              else Inr \<lparr>pr_device_id = pc_device_id claim, pr_device_token = pc_device_token claim,
                        pr_scopes = pc_scopes claim, pr_next_sequence = pc_next_sequence claim,
                        pr_base_url = url_to_string (env_url env) configuration, pr_device_name = name\<rparr>))"

definition claim_pairing ::
  "unicode \<Rightarrow> surroundings \<Rightarrow> rstr \<Rightarrow> rstr \<Rightarrow> rstr \<Rightarrow> rstr + unit \<Rightarrow> reply \<Rightarrow> reply \<Rightarrow>
   http_request list \<times> (claim_pairing_error + pairing_result)" where
  "claim_pairing u env base device pairing_code ensure_credential_store capabilities_reply claim_reply =
     (let code = str_trim pairing_code;
          code_units = length (utf16_units code);
          name = str_trim (nfc u device)
      in if \<not> (1 \<le> code_units \<and> code_units \<le> 32) then ([], fail_with PcInvalidPairingCode)
         else if name = [] \<or> length name > 120 then ([], fail_with PcInvalidDeviceName)
         else
           (case server_configuration u (env_url env) (str_trim base) of
              Inl _ \<Rightarrow> ([], fail_with PcInvalidServerUrl)
            | Inr configuration \<Rightarrow>
                (case ensure_credential_store of
                   Inl message \<Rightarrow> ([], Inl (OtherFailure message))
                 | Inr _ \<Rightarrow>
                     (case execute (env_calendar env) (env_url env) configuration capabilities_options
                             (decode_capabilities_response (env_calendar env)) capabilities_reply of
                        (sent, Inl _) \<Rightarrow> (sent, fail_with PcNetwork)
                      | (sent, Inr capabilities) \<Rightarrow>
                          (case negotiate_presence (cap_data capabilities) PROTOCOL_CLIENT_VERSION of
                             NegClientUpdateRequired \<Rightarrow> (sent, fail_with PcClientUpdateRequired)
                           | SchemaUnsupported \<Rightarrow> (sent, fail_with PcServerFeatureUnavailable)
                           | FeatureUnavailable \<Rightarrow> (sent, fail_with PcServerFeatureUnavailable)
                           | InvalidCapabilities \<Rightarrow> (sent, fail_with PcInvalidCapabilities)
                           | Available _ \<Rightarrow>
                               (case submit_claim env configuration name code claim_reply of
                                  (sent', result) \<Rightarrow> (sent @ sent', result)))))))"

section \<open>Lemmas\<close>

lemma execute_get:
  "fst (execute cal uc base capabilities_options schema r) =
     [\<lparr>rq_method = Get, rq_url = endpoint uc base (lit ''/companion/capabilities''),
       rq_authorization = None, rq_version = None, rq_body = None\<rparr>]"
  by (simp add: execute_def build_request_def capabilities_options_def)

text \<open>What a claim sends, and when it succeeds.\<close>

lemma submit_claim_sent:
  assumes "submit_claim env conf name code r = (sent, result)"
  shows "sent = [] \<or> (\<exists>q. sent = [q] \<and> rq_method q = Post \<and> rq_authorization q = None \<and>
    rq_body q = Some (env_to_vec env (en_pairing_claim_request name code)))"
  using assms
  by (auto simp: submit_claim_def execute_def build_request_def claim_options_def Let_def
      split: sum.splits prod.splits if_splits)

definition carries_claim :: "pairing_result \<Rightarrow> reply \<Rightarrow> bool" where
  "carries_claim x r \<longleftrightarrow>
     (\<exists>status v claim. r = Reply status (JsonBody v) \<and> 200 \<le> status \<and> status \<le> 299 \<and>
        decode_pairing_claim_response v = Inr claim \<and> pr_device_id x = pc_device_id claim \<and>
        pr_device_token x = pc_device_token claim \<and> pr_scopes x = pc_scopes claim \<and>
        pr_next_sequence x = pc_next_sequence claim)"

lemma submit_claim_Inr:
  assumes "submit_claim env conf name code r = (sent, Inr result)"
  shows "carries_claim result r \<and> REQUIRED_PRESENCE_SCOPE \<in> set (pr_scopes result) \<and> is_valid_wire_identifier (pr_device_id result) \<and>
    pr_base_url result = url_to_string (env_url env) conf \<and> pr_device_name result = name \<and> sent \<noteq> []"
proof -
  obtain claim where e: "execute (env_calendar env) (env_url env) conf
      (claim_options (env_to_vec env (en_pairing_claim_request name code))) decode_pairing_claim_response r =
      (sent, Inr claim)"
    and r: "REQUIRED_PRESENCE_SCOPE \<in> set (pc_scopes claim)" "pr_scopes result = pc_scopes claim"
      "pr_device_id result = pc_device_id claim" "pr_base_url result = url_to_string (env_url env) conf"
      "pr_device_name result = name" "pr_device_token result = pc_device_token claim"
      "pr_next_sequence result = pc_next_sequence claim"
    using assms
    by (auto simp: submit_claim_def fail_with_def Let_def list_ex_iff
        split: prod.splits sum.splits option.splits if_splits)
  from execute_accepted [OF e] obtain v where d: "decode_pairing_claim_response v = Inr claim" and "sent \<noteq> []"
    and "\<exists>status. r = Reply status (JsonBody v) \<and> 200 \<le> status \<and> status \<le> 299"
    by blast
  moreover from this have "carries_claim result r" using r unfolding carries_claim_def by auto
  moreover have "is_valid_wire_identifier (pc_device_id claim)"
    using d by (auto simp: decode_pairing_claim_response_def json_simps split: if_splits)
  ultimately show ?thesis using r by simp
qed

section \<open>Properties\<close>

text \<open>
  C19: the one-time code is spent last. A pairing attempt sends at most two requests, none of
  them authenticated, and the one that carries the code leaves only after the code, the name
  and the URL have passed their checks, the credential store has proved writable and the
  capabilities have been fetched and negotiated. It succeeds only with the presence scope and a
  valid device id; then it returns the URL as the checked configuration prints it, the trimmed and
  composed name, and the device, token, scopes and sequence of the claim's answer.
\<close>

theorem pairing_code_spent_last:
  assumes "claim_pairing u env base device pairing_code ensure r1 r2 = (sent, result)"
  shows "length sent \<le> 2 \<and> (\<forall>q \<in> set sent. rq_authorization q = None) \<and>
    (\<forall>q \<in> set sent. rq_method q \<noteq> Get \<longrightarrow>
       (\<exists>conf caps negotiated. 1 \<le> length (utf16_units (str_trim pairing_code)) \<and>
          length (utf16_units (str_trim pairing_code)) \<le> 32 \<and>
          str_trim (nfc u device) \<noteq> [] \<and> length (str_trim (nfc u device)) \<le> 120 \<and>
          server_configuration u (env_url env) (str_trim base) = Inr conf \<and> ensure = Inr () \<and>
          handle_reply (env_calendar env) None (decode_capabilities_response (env_calendar env)) r1 = Inr caps \<and>
          negotiate_presence (cap_data caps) PROTOCOL_CLIENT_VERSION = Available negotiated \<and>
          rq_body q = Some (env_to_vec env (en_pairing_claim_request (str_trim (nfc u device)) (str_trim pairing_code))))) \<and>
    (\<forall>x. result = Inr x \<longrightarrow> length sent = 2 \<and> REQUIRED_PRESENCE_SCOPE \<in> set (pr_scopes x) \<and>
       is_valid_wire_identifier (pr_device_id x) \<and> pr_device_name x = str_trim (nfc u device) \<and>
       carries_claim x r2 \<and>
       (\<exists>conf. server_configuration u (env_url env) (str_trim base) = Inr conf \<and>
          pr_base_url x = url_to_string (env_url env) conf))"
proof -
  let ?code = "str_trim pairing_code" and ?name = "str_trim (nfc u device)"
  show ?thesis
  proof (cases "\<exists>conf. 1 \<le> length (utf16_units ?code) \<and> length (utf16_units ?code) \<le> 32 \<and> ?name \<noteq> [] \<and>
      length ?name \<le> 120 \<and> server_configuration u (env_url env) (str_trim base) = Inr conf \<and> ensure = Inr ()")
    case False
    then have "sent = []" "\<not> is_ok result"
      using assms by (auto simp: claim_pairing_def fail_with_def Let_def split: if_splits sum.splits)
    then show ?thesis by (auto simp: is_ok_iff)
  next
    case True
    then obtain conf where checks: "1 \<le> length (utf16_units ?code)" "length (utf16_units ?code) \<le> 32"
      "?name \<noteq> []" "length ?name \<le> 120" "server_configuration u (env_url env) (str_trim base) = Inr conf"
      "ensure = Inr ()" by blast
    let ?get = "\<lparr>rq_method = Get, rq_url = endpoint (env_url env) conf (lit ''/companion/capabilities''),
       rq_authorization = None, rq_version = None, rq_body = None\<rparr>"
    obtain sent1 res where e: "execute (env_calendar env) (env_url env) conf capabilities_options
        (decode_capabilities_response (env_calendar env)) r1 = (sent1, res)" by force
    then have g: "sent1 = [?get]" using execute_get by (metis fst_conv)
    have h: "res = handle_reply (env_calendar env) None (decode_capabilities_response (env_calendar env)) r1"
      using e by (simp add: execute_def build_request_def capabilities_options_def split: sum.splits)
    consider (early) "sent = [?get]" "\<not> is_ok result"
      | (claim) caps negotiated sent2 where "res = Inr caps"
        "negotiate_presence (cap_data caps) PROTOCOL_CLIENT_VERSION = Available negotiated"
        "submit_claim env conf ?name ?code r2 = (sent2, result)" "sent = [?get] @ sent2"
      using assms checks e g
      by (auto simp: claim_pairing_def fail_with_def Let_def split: sum.splits presence_negotiation.splits prod.splits)
    then show ?thesis
    proof cases
      case early
      then show ?thesis by (auto simp: is_ok_iff)
    next
      case claim
      then show ?thesis
        using submit_claim_sent [OF claim(3)] submit_claim_Inr [of env conf ?name ?code r2 sent2] checks h
        by auto
    qed
  qed
qed

definition sample_claim_json :: json where
  "sample_claim_json =
     JObj [(lit ''data'', JObj [(lit ''deviceId'', JStr sample_uuid), (lit ''deviceToken'', JStr (lit ''tok'')),
       (lit ''scopes'', JArr [JStr REQUIRED_PRESENCE_SCOPE]), (lit ''nextSequence'', JInt 7)])]"

lemma sample_claim_data_decodes:
  "de_pairing_claim_data (JObj [(lit ''deviceId'', JStr sample_uuid), (lit ''deviceToken'', JStr (lit ''tok'')),
       (lit ''scopes'', JArr [JStr REQUIRED_PRESENCE_SCOPE]), (lit ''nextSequence'', JInt 7)]) =
     Inr \<lparr>pc_device_id = sample_uuid, pc_device_token = lit ''tok'', pc_scopes = [REQUIRED_PRESENCE_SCOPE],
          pc_next_sequence = 7\<rparr>"
proof -
  have "de_wire_u64 (JInt 7) = Inr 7" by (simp add: de_wire_u64_def MAXIMUM_SAFE_WIRE_INTEGER_def)
  then show ?thesis by (simp add: de_pairing_claim_data_def reader_defs)
qed

lemma sample_claim_decodes:
  "decode_pairing_claim_response sample_claim_json =
     Inr \<lparr>pc_device_id = sample_uuid, pc_device_token = lit ''tok'', pc_scopes = [REQUIRED_PRESENCE_SCOPE],
          pc_next_sequence = 7\<rparr>"
proof -
  have "trim_matches is_js_whitespace (lit ''tok'') \<noteq> []"
    by (simp add: trim_matches_def lit_def is_js_whitespace_def)
  then show ?thesis
    by (simp add: decode_pairing_claim_response_def sample_claim_json_def reader_defs sample_claim_data_decodes
        sample_uuid_valid)
qed

lemma sample_pairing:
  "\<exists>q1 q2 x. claim_pairing ascii_unicode sample_env (lit ''http://127.0.0.1/'') (lit '' PC '') (lit ''123456'')
     (Inr ()) (Reply 200 (JsonBody sample_capabilities_json)) (Reply 200 (JsonBody sample_claim_json)) =
     ([q1, q2], Inr x) \<and> rq_method q2 = Post"
proof -
  obtain m where "decode_capabilities_response epoch_calendar sample_capabilities_json =
     Inr \<lparr>cap_meta = m, cap_data = sample_capabilities\<rparr>"
    using sample_capabilities_decode by blast
  moreover have "str_trim (lit ''http://127.0.0.1/'') = lit ''http://127.0.0.1/''"
    "str_trim (lit ''123456'') = lit ''123456''" "str_trim (lit '' PC '') = lit ''PC''"
    by (simp_all add: str_trim_def trim_matches_def lit_def is_white_space_def)
  moreover have "length (utf16_units (lit ''123456'')) = 6" by (simp add: lit_def utf16_def)
  moreover have "lit ''PC'' \<noteq> []" "length (lit ''PC'') = 2" by (simp_all add: lit_def)
  ultimately show ?thesis
    using sample_server
    by (simp add: claim_pairing_def submit_claim_def sample_env_def ascii_unicode_def execute_def build_request_def
        capabilities_options_def claim_options_def handle_reply_def check_request_id_echo_def payload_limit_def
        DEFAULT_MAX_PAYLOAD_BYTES_def sample_negotiates sample_claim_decodes Let_def)
qed

lemma pairing_code_spent_last_witness:
  "\<exists>q1 q2 x. claim_pairing ascii_unicode sample_env (lit ''http://127.0.0.1/'') (lit '' PC '') (lit ''123456'')
     (Inr ()) (Reply 200 (JsonBody sample_capabilities_json)) (Reply 200 (JsonBody sample_claim_json)) =
     ([q1, q2], Inr x) \<and> REQUIRED_PRESENCE_SCOPE \<in> set (pr_scopes x) \<and> rq_authorization q2 = None"
proof -
  obtain q1 q2 x where r: "claim_pairing ascii_unicode sample_env (lit ''http://127.0.0.1/'') (lit '' PC '') (lit ''123456'')
     (Inr ()) (Reply 200 (JsonBody sample_capabilities_json)) (Reply 200 (JsonBody sample_claim_json)) =
     ([q1, q2], Inr x)"
    using sample_pairing by blast
  from pairing_code_spent_last [OF r] r show ?thesis by auto
qed

end
