(* ===== verification/Service.thy ===== *)
theory Service
  imports Pairing Credentials Consent_Gate Fingerprint Coordinator
begin

text \<open>
  The companion service (\<open>core/src/companion/service.rs\<close>) over the configuration store, the
  consent gate, the coordinator and the credential store. An operation is a sequence of locked
  segments. Between two of them, and in particular at every await, other operations may run:
  \<open>interfere\<close> is an arbitrary change of the service state, chosen per program point. What an
  operation itself does is appended to \<open>sv_actions\<close>, which interference leaves alone. \<open>None\<close> is
  an operation that does not return (a listener that deadlocks the configuration store).
\<close>

section \<open>State\<close>

record publish_telemetry =
  last_publish_at :: "epoch_ms option"
  last_error :: "rstr option"

datatype service_action =
    GateAsked consent_gate confirmation preview_projection bool
  | FingerprintRead rstr
  | Persisted core_config
  | CoordinatorStarted
  | CoordinatorShutdown clear_reason
  | AuthorityDiscarded
  | FreshRequested
  | TokenStored rstr rstr
  | TokenDeleted rstr bool
  | SequenceRemoved rstr
  | Changed

record 'l service =
  sv_store :: "'l config_store"
  sv_disk :: disk
  sv_gate :: consent_gate
  sv_preview :: "preview option"
  sv_telemetry :: publish_telemetry
  sv_world :: world
  sv_actions :: "service_action list"

text \<open>What the service is built on: the listeners' behaviour, JSON escaping, SHA-256, Unicode.\<close>

record 'l service_env =
  se_call :: "'l callback"
  se_escape :: "rstr \<Rightarrow> rstr"
  se_sha256 :: "u8 list \<Rightarrow> u8 list"
  se_unicode :: unicode

type_synonym ('l, 'a) svc = "'l service \<Rightarrow> ((ipc_error_code + 'a) \<times> 'l service) option"

type_synonym 'l others = "nat \<Rightarrow> 'l service \<Rightarrow> 'l service"

section \<open>Segments\<close>

definition sv_return :: "'a \<Rightarrow> ('l, 'a) svc" where
  "sv_return x s = Some (Inr x, s)"

definition sv_fail :: "ipc_error_code \<Rightarrow> ('l, 'a) svc" where
  "sv_fail e s = Some (Inl e, s)"

definition sv_bind :: "('l, 'a) svc \<Rightarrow> ('a \<Rightarrow> ('l, 'b) svc) \<Rightarrow> ('l, 'b) svc" where
  "sv_bind m f s =
     (case m s of
        None \<Rightarrow> None
      | Some (Inl e, s') \<Rightarrow> Some (Inl e, s')
      | Some (Inr x, s') \<Rightarrow> f x s')"

definition sv_read :: "('l service \<Rightarrow> 'a) \<Rightarrow> ('l, 'a) svc" where
  "sv_read f s = Some (Inr (f s), s)"

definition sv_modify :: "('l service \<Rightarrow> 'l service) \<Rightarrow> ('l, unit) svc" where
  "sv_modify f s = Some (Inr (), f s)"

definition act :: "service_action \<Rightarrow> ('l, unit) svc" where
  "act a = sv_modify (\<lambda>s. s\<lparr>sv_actions := sv_actions s @ [a]\<rparr>)"

definition interfere :: "('l service \<Rightarrow> 'l service) \<Rightarrow> ('l, unit) svc" where
  "interfere other = sv_modify (\<lambda>s. (other s)\<lparr>sv_actions := sv_actions s\<rparr>)"

definition the_config :: "'l service \<Rightarrow> core_config" where
  "the_config s = cst_config (sv_store s)"

definition capture_fingerprint :: "'l service_env \<Rightarrow> 'l service \<Rightarrow> rstr" where
  "capture_fingerprint env s =
     policy_fingerprint (se_escape env) (se_sha256 env) (se_unicode env) (privacy (the_config s))"

text \<open>\<open>config.update(..).map_err(|_| internal)\<close>\<close>

definition sv_update ::
  "'l service_env \<Rightarrow> io_fault \<Rightarrow> (core_config \<Rightarrow> core_config) \<Rightarrow> ('l, unit) svc" where
  "sv_update env flt f s =
     (case update (se_call env) flt f (sv_store s, sv_disk s) of
        None \<Rightarrow> None
      | Some (Inl _, st, d) \<Rightarrow> Some (Inl Internal, s\<lparr>sv_store := st, sv_disk := d\<rparr>)
      | Some (Inr c, st, d) \<Rightarrow>
          act (Persisted c) (s\<lparr>sv_store := st, sv_disk := d\<rparr>))"

definition set_live_desk :: "bool \<Rightarrow> core_config \<Rightarrow> core_config" where
  "set_live_desk b c = c\<lparr>connection := map_option (\<lambda>x. x\<lparr>live_desk_enabled := b\<rparr>) (connection c)\<rparr>"

definition on_world :: "(world \<Rightarrow> world) \<Rightarrow> ('l, unit) svc" where
  "on_world f = sv_modify (\<lambda>s. s\<lparr>sv_world := f (sv_world s)\<rparr>)"

definition stop_coordinator :: "clear_reason \<Rightarrow> ('l service \<Rightarrow> 'l service) \<Rightarrow> ('l, unit) svc" where
  "stop_coordinator reason other =
     sv_bind (on_world (shutdown reason)) (\<lambda>_.
     sv_bind (act (CoordinatorShutdown reason)) (\<lambda>_. interfere other))"

definition start_coordinator :: "('l, unit) svc" where
  "start_coordinator = sv_bind (on_world coord_start) (\<lambda>_. act CoordinatorStarted)"

definition drop_authority :: "('l, unit) svc" where
  "drop_authority = sv_bind (on_world discard_authority) (\<lambda>_. act AuthorityDiscarded)"

definition ask_gate :: "confirmation \<Rightarrow> preview_projection \<Rightarrow> ('l, bool) svc" where
  "ask_gate candidate current s =
     (let answer = gate_validates (sv_gate s) candidate current
      in sv_bind (act (GateAsked (sv_gate s) candidate current answer)) (\<lambda>_. sv_return answer) s)"

definition read_fingerprint :: "'l service_env \<Rightarrow> ('l, rstr) svc" where
  "read_fingerprint env s =
     sv_bind (act (FingerprintRead (capture_fingerprint env s))) (\<lambda>_. sv_return (capture_fingerprint env s)) s"

section \<open>Operations\<close>

definition service_new :: "'l service_env \<Rightarrow> 'l config_store \<Rightarrow> disk \<Rightarrow> 'l service" where
  "service_new env st d =
     \<lparr>sv_store = st, sv_disk = d,
      sv_gate = gate_new (policy_fingerprint (se_escape env) (se_sha256 env) (se_unicode env) (privacy (cst_config st))),
      sv_preview = None, sv_telemetry = \<lparr>last_publish_at = None, last_error = None\<rparr>,
      sv_world = world_new, sv_actions = []\<rparr>"

text \<open>\<open>start\<close> reads the configuration and then calls the coordinator; \<open>other\<close> runs in between.\<close>

definition service_start :: "('l service \<Rightarrow> 'l service) \<Rightarrow> ('l, unit) svc" where
  "service_start other =
     sv_bind (sv_read (\<lambda>s. connection (the_config s))) (\<lambda>connection.
     case connection of
       Some c \<Rightarrow>
         if live_desk_enabled c then sv_bind (interfere other) (\<lambda>_. start_coordinator) else sv_return ()
     | None \<Rightarrow> sv_return ())"

definition service_runtime_state :: "'l service \<Rightarrow> runtime_state" where
  "service_runtime_state s =
     (if connection (the_config s) = None then NotPaired else current_state (sv_world s))"

definition on_published :: "epoch_ms \<Rightarrow> ('l, unit) svc" where
  "on_published now =
     sv_bind (sv_modify (\<lambda>s. s\<lparr>sv_telemetry := \<lparr>last_publish_at = Some now, last_error = None\<rparr>\<rparr>)) (\<lambda>_. act Changed)"

definition note_error :: "rstr \<Rightarrow> ('l, unit) svc" where
  "note_error code =
     sv_bind (sv_modify (\<lambda>s. s\<lparr>sv_telemetry := (sv_telemetry s)\<lparr>last_error := Some code\<rparr>\<rparr>)) (\<lambda>_. act Changed)"

definition policy_maybe_changed :: "'l service_env \<Rightarrow> 'l others \<Rightarrow> ('l, unit) svc" where
  "policy_maybe_changed env others =
     sv_bind (sv_read (capture_fingerprint env)) (\<lambda>fingerprint.
     sv_bind (interfere (others 0)) (\<lambda>_.
     sv_bind (sv_read sv_gate) (\<lambda>gate.
       if fingerprint = cg_fingerprint gate then sv_return ()
       else
         sv_bind (sv_modify (\<lambda>s. s\<lparr>sv_gate := policy_did_change fingerprint (sv_gate s)\<rparr>)) (\<lambda>_.
         sv_bind (interfere (others 1)) (\<lambda>_.
         sv_bind (sv_modify (\<lambda>s. s\<lparr>sv_preview := None\<rparr>)) (\<lambda>_.
         sv_bind (interfere (others 2)) (\<lambda>_.
         sv_bind (on_world request_fresh_snapshot) (\<lambda>_.
         sv_bind (act FreshRequested) (\<lambda>_. act Changed)))))))))"

text \<open>The capture is an await; recording and publishing the preview are two locked segments.\<close>

definition refresh_preview :: "'l others \<Rightarrow> sanitized_snapshot \<Rightarrow> ('l, preview) svc" where
  "refresh_preview others snapshot =
     sv_bind (interfere (others 0)) (\<lambda>_.
     sv_bind (sv_modify (\<lambda>s. s\<lparr>sv_gate := snd (gate_record (projection_of snapshot) (sv_gate s))\<rparr>)) (\<lambda>_.
     sv_bind (sv_read (\<lambda>s. cg_fingerprint (sv_gate s))) (\<lambda>fingerprint.
     sv_bind (interfere (others 1)) (\<lambda>_.
       let preview = \<lparr>projection = projection_of snapshot, policy_fp = fingerprint,
                      preview_observed_at = observed_at snapshot\<rparr>
       in sv_bind (sv_modify (\<lambda>s. s\<lparr>sv_preview := Some preview\<rparr>)) (\<lambda>_.
          sv_bind (act Changed) (\<lambda>_. sv_return preview))))))"

text \<open>Points of a later call inside an operation are numbered from an offset.\<close>

definition from_point :: "nat \<Rightarrow> 'l others \<Rightarrow> 'l others" where
  "from_point n others k = others (n + k)"

fun map_pairing_error :: "claim_pairing_error \<Rightarrow> ipc_error_code" where
  "map_pairing_error (OtherFailure _) = PairingFailed"
| "map_pairing_error (PairingFailure e) =
     (case pe_code e of
        PcClientUpdateRequired \<Rightarrow> ClientUpdateRequired
      | PcServerFeatureUnavailable \<Rightarrow> EServerFeatureUnavailable
      | PcInvalidCapabilities \<Rightarrow> EServerFeatureUnavailable
      | PcRequiredScopeMissing \<Rightarrow> RequiredScopeMissing
      | PcInvalidPairingCode \<Rightarrow> InvalidInput
      | PcInvalidDeviceName \<Rightarrow> InvalidInput
      | PcInvalidServerUrl \<Rightarrow> InvalidInput
      | PcPairingRejected \<Rightarrow>
          if pe_server_code e = Some (lit ''COMPANION_PAIRING_EXPIRED'') then PairingExpired
          else if pe_server_code e = Some (lit ''RATE_LIMITED'') then RateLimited
          else if pe_server_code e = Some (lit ''VALIDATION_FAILED'') then ValidationFailed
          else PairingFailed
      | PcNetwork \<Rightarrow> ENetwork)"

text \<open>
  \<open>store\<close> is what the credential getter gives, \<open>claimed\<close> what \<open>claim_pairing\<close> returns, \<open>token_set\<close>
  what the credential store answers.
\<close>

definition connection_of :: "pairing_result \<Rightarrow> stored_connection" where
  "connection_of x =
     \<lparr>base_url = pr_base_url x, device_id = pr_device_id x, device_name = pr_device_name x,
      scopes = pr_scopes x, pairing_next_sequence = pr_next_sequence x, live_desk_enabled = False\<rparr>"

definition pair ::
  "'l service_env \<Rightarrow> 'l others \<Rightarrow> credential_store_error + credential_backend \<Rightarrow>
   claim_pairing_error + pairing_result \<Rightarrow> credential_store_error + unit \<Rightarrow> io_fault \<Rightarrow>
   sanitized_snapshot \<Rightarrow> ('l, unit) svc" where
  "pair env others store claimed token_set flt snapshot =
     sv_bind (interfere (others 0)) (\<lambda>_.
     case store of
       Inl _ \<Rightarrow> sv_fail CredentialStoreUnavailable
     | Inr backend \<Rightarrow>
         sv_bind (interfere (others 1)) (\<lambda>_.
         case claimed of
           Inl error \<Rightarrow> sv_fail (map_pairing_error error)
         | Inr result \<Rightarrow>
             sv_bind (stop_coordinator CConnectionRemoved (others 2)) (\<lambda>_.
             sv_bind drop_authority (\<lambda>_.
             sv_bind (interfere (others 3)) (\<lambda>_.
             case token_set of
               Inl _ \<Rightarrow> sv_fail Internal
             | Inr _ \<Rightarrow>
                 sv_bind (act (TokenStored (pr_device_id result) (pr_device_token result))) (\<lambda>_.
                 sv_bind (interfere (others 4)) (\<lambda>_.
                 sv_bind (sv_update env flt (\<lambda>c. c\<lparr>cred_backend := Some backend,
                            connection := Some (connection_of result)\<rparr>)) (\<lambda>_.
                 sv_bind (refresh_preview (from_point 5 others) snapshot) (\<lambda>_. sv_return ())))))))))"

text \<open>The faults and captures of one confirmation.\<close>

record confirm_inputs =
  ci_before :: sanitized_snapshot
  ci_enable_fault :: io_fault
  ci_after :: sanitized_snapshot
  ci_rollback_fault :: io_fault
  ci_refresh :: sanitized_snapshot

definition reject_with_fresh_basis :: "'l others \<Rightarrow> sanitized_snapshot \<Rightarrow> ('l, unit) svc" where
  "reject_with_fresh_basis others snapshot =
     sv_bind (refresh_preview others snapshot) (\<lambda>_. sv_fail PreviewOutOfDate)"

definition roll_back :: "'l service_env \<Rightarrow> 'l others \<Rightarrow> confirm_inputs \<Rightarrow> ('l, unit) svc" where
  "roll_back env others inp =
     sv_bind (sv_update env (ci_rollback_fault inp) (set_live_desk False)) (\<lambda>_.
     reject_with_fresh_basis others (ci_refresh inp))"

text \<open>From the persisted enable on.\<close>

definition confirm_persisted ::
  "'l service_env \<Rightarrow> 'l others \<Rightarrow> confirm_inputs \<Rightarrow> rstr \<Rightarrow> confirmation \<Rightarrow> ('l, unit) svc" where
  "confirm_persisted env others inp ui candidate =
     sv_bind (sv_update env (ci_enable_fault inp) (set_live_desk True)) (\<lambda>_.
     sv_bind (interfere (others 4)) (\<lambda>_.
     sv_bind (read_fingerprint env) (\<lambda>fingerprint_now.
     sv_bind (interfere (others 5)) (\<lambda>_.
     sv_bind (if fingerprint_now \<noteq> ui then sv_return False
              else ask_gate candidate (projection_of (ci_after inp))) (\<lambda>valid.
     sv_bind (interfere (others 6)) (\<lambda>_.
       if \<not> valid then
         roll_back env (from_point 7 others) inp
       else sv_bind start_coordinator (\<lambda>_. act Changed)))))))"

definition confirm_consent ::
  "'l service_env \<Rightarrow> 'l others \<Rightarrow> confirm_inputs \<Rightarrow> rstr \<Rightarrow> ('l, unit) svc" where
  "confirm_consent env others inp ui =
     sv_bind (sv_read the_config) (\<lambda>config.
     if connection config = None then sv_fail ENotPaired
     else
       sv_bind (interfere (others 0)) (\<lambda>_.
       sv_bind (sv_read sv_preview) (\<lambda>recorded.
       sv_bind (interfere (others 1)) (\<lambda>_.
       sv_bind (sv_read (\<lambda>s. cg_fingerprint (sv_gate s))) (\<lambda>gate_fingerprint.
       case recorded of
         None \<Rightarrow> reject_with_fresh_basis (from_point 7 others) (ci_refresh inp)
       | Some preview \<Rightarrow>
           if ui \<noteq> gate_fingerprint then reject_with_fresh_basis (from_point 7 others) (ci_refresh inp)
           else
             let candidate = \<lparr>cf_policy_fingerprint = ui, cf_projection = projection preview\<rparr>
             in sv_bind (interfere (others 2)) (\<lambda>_.
                sv_bind (ask_gate candidate (projection_of (ci_before inp))) (\<lambda>valid.
                if \<not> valid then reject_with_fresh_basis (from_point 7 others) (ci_refresh inp)
                else
                  sv_bind (interfere (others 3)) (\<lambda>_.
                  confirm_persisted env others inp ui candidate))))))))"

definition disable_live_desk :: "'l service_env \<Rightarrow> 'l others \<Rightarrow> io_fault \<Rightarrow> ('l, unit) svc" where
  "disable_live_desk env others flt =
     sv_bind (sv_update env flt (set_live_desk False)) (\<lambda>_.
     sv_bind (interfere (others 0)) (\<lambda>_.
     sv_bind (stop_coordinator CPaused (others 1)) (\<lambda>_. act Changed)))"

text \<open>
  \<open>deleted\<close> says whether a credential store was available and deleted the token, \<open>seq_path\<close> is the
  file of the sequence store; a file that cannot be read has no entry to remove.
\<close>

definition remove_sequence :: "path \<Rightarrow> rw_fault \<Rightarrow> rstr \<Rightarrow> ('l, unit) svc" where
  "remove_sequence seq_path flt device s =
     (case fss_remove seq_path flt (sv_disk s) device of
        (Inl _, d) \<Rightarrow> Some (Inl Internal, s\<lparr>sv_disk := d\<rparr>)
      | (Inr _, d) \<Rightarrow> act (SequenceRemoved device) (s\<lparr>sv_disk := d\<rparr>))"

definition unpair_forget ::
  "'l service_env \<Rightarrow> 'l others \<Rightarrow> path \<Rightarrow> rw_fault \<Rightarrow> io_fault \<Rightarrow> rstr \<Rightarrow> ('l, unit) svc" where
  "unpair_forget env others seq_path flt2 flt3 device =
     sv_bind (remove_sequence seq_path flt2 device) (\<lambda>_.
     sv_bind (interfere (others 5)) (\<lambda>_.
     sv_bind (sv_update env flt3 (\<lambda>c. c\<lparr>connection := None\<rparr>)) (\<lambda>_.
     sv_bind (interfere (others 6)) (\<lambda>_.
     sv_bind (sv_modify (\<lambda>s. s\<lparr>sv_gate := gate_clear (sv_gate s)\<rparr>)) (\<lambda>_.
     sv_bind (interfere (others 7)) (\<lambda>_.
     sv_bind (sv_modify (\<lambda>s. s\<lparr>sv_preview := None\<rparr>)) (\<lambda>_. act Changed)))))))"

definition unpair_connected ::
  "'l service_env \<Rightarrow> 'l others \<Rightarrow> io_fault \<Rightarrow> bool \<Rightarrow> path \<Rightarrow> rw_fault \<Rightarrow> io_fault \<Rightarrow> stored_connection \<Rightarrow>
   ('l, unit) svc" where
  "unpair_connected env others flt1 deleted seq_path flt2 flt3 c =
     sv_bind (sv_update env flt1 (set_live_desk False)) (\<lambda>_.
     sv_bind (interfere (others 1)) (\<lambda>_.
     sv_bind (stop_coordinator CConnectionRemoved (others 2)) (\<lambda>_.
     sv_bind drop_authority (\<lambda>_.
     sv_bind (interfere (others 3)) (\<lambda>_.
     sv_bind (act (TokenDeleted (device_id c) deleted)) (\<lambda>_.
     sv_bind (interfere (others 4)) (\<lambda>_.
     unpair_forget env others seq_path flt2 flt3 (device_id c))))))))"

definition unpair ::
  "'l service_env \<Rightarrow> 'l others \<Rightarrow> io_fault \<Rightarrow> bool \<Rightarrow> path \<Rightarrow> rw_fault \<Rightarrow> io_fault \<Rightarrow> ('l, unit) svc" where
  "unpair env others flt1 deleted seq_path flt2 flt3 =
     sv_bind (sv_read the_config) (\<lambda>config.
     case connection config of
       None \<Rightarrow> sv_return ()
     | Some c \<Rightarrow>
         sv_bind (interfere (others 0)) (\<lambda>_.
         unpair_connected env others flt1 deleted seq_path flt2 flt3 c))"

definition service_sleep :: "timings \<Rightarrow> ('l, unit) svc" where
  "service_sleep tm = on_world (handle_sleep_or_lock tm)"

definition service_wake :: "('l, unit) svc" where
  "service_wake = on_world handle_wake_or_unlock"

definition service_shutdown :: "('l service \<Rightarrow> 'l service) \<Rightarrow> ('l, unit) svc" where
  "service_shutdown other = stop_coordinator CShutdown other"

section \<open>How segments end\<close>

lemma sv_bind_Some:
  "sv_bind m f s = Some (r, s') \<longleftrightarrow>
     (\<exists>e. r = Inl e \<and> m s = Some (Inl e, s')) \<or> (\<exists>x s1. m s = Some (Inr x, s1) \<and> f x s1 = Some (r, s'))"
  by (auto simp: sv_bind_def split: option.splits sum.splits prod.splits)

lemma sv_ends:
  "sv_return x s = Some (r, s') \<longleftrightarrow> r = Inr x \<and> s' = s"
  "sv_fail e s = Some (r, s') \<longleftrightarrow> r = Inl e \<and> s' = s"
  "sv_read f s = Some (r, s') \<longleftrightarrow> r = Inr (f s) \<and> s' = s"
  "sv_modify h s = Some (q, s') \<longleftrightarrow> q = Inr () \<and> s' = h s"
  by (auto simp: sv_return_def sv_fail_def sv_read_def sv_modify_def)

lemma act_ends: "act a s = Some (r, s') \<longleftrightarrow> r = Inr () \<and> s' = s\<lparr>sv_actions := sv_actions s @ [a]\<rparr>"
  by (simp add: act_def sv_ends)

lemma interfere_ends:
  "interfere other s = Some (r, s') \<longleftrightarrow> r = Inr () \<and> s' = (other s)\<lparr>sv_actions := sv_actions s\<rparr>"
  by (simp add: interfere_def sv_ends)

lemma on_world_ends:
  "on_world f s = Some (r, s') \<longleftrightarrow> r = Inr () \<and> s' = s\<lparr>sv_world := f (sv_world s)\<rparr>"
  by (simp add: on_world_def sv_ends)

lemmas segment_ends = sv_bind_Some sv_ends act_ends interfere_ends on_world_ends

text \<open>A revalidated configuration is the configuration itself.\<close>

lemma written_connection_width:
  "de_connection (en_connection x) = Inr y \<Longrightarrow> pairing_next_sequence x < 2 ^ 64"
  by (auto simp: de_connection_def en_connection_def reader_defs split: if_splits)

lemma read_back_widths:
  assumes "de_core_config (en_core_config c) = Inr n"
  shows "config_widths c"
proof -
  have "version c < 2 ^ 32"
    using assms
    by (auto simp: de_core_config_def en_core_config_def reader_defs de_config_version_literal_def split: if_splits)
  moreover have "pairing_next_sequence x < 2 ^ 64" if x: "connection c = Some x" for x
  proof -
    have "\<exists>y. nullable de_connection (en_connection x) = Inr y"
      using assms x by (auto simp: de_core_config_def en_core_config_def reader_defs)
    then have "\<exists>y. de_connection (en_connection x) = Inr y"
      by (cases "en_connection x") (auto simp: nullable_def en_connection_def)
    then show ?thesis using written_connection_width by blast
  qed
  ultimately show ?thesis by (auto simp: config_widths_def split: option.splits)
qed

lemma revalidate_same: "revalidate c = Inr n \<Longrightarrow> n = c \<and> config_valid c"
  using read_back_widths [of c] revalidate_Inr [of c n] by (auto simp: revalidate_def)

lemma update_Inr:
  assumes "update call flt f (st, d) = Some (Inr c, st', d')"
  shows "c = f (cst_config st) \<and> config_valid c"
  using assms revalidate_same by (auto simp: update_def Let_def split: if_splits sum.splits prod.splits)

lemma sv_update_ends:
  assumes "sv_update env flt f s = Some (r, s')"
  obtains "r = Inl Internal" and "sv_actions s' = sv_actions s" and "sv_gate s' = sv_gate s"
      and "sv_preview s' = sv_preview s" and "sv_world s' = sv_world s"
  | "r = Inr ()" and "sv_actions s' = sv_actions s @ [Persisted (f (the_config s))]" and "sv_gate s' = sv_gate s"
      and "sv_preview s' = sv_preview s" and "sv_world s' = sv_world s" and "config_valid (f (the_config s))"
  using assms update_Inr
  by (fastforce simp: sv_update_def act_ends the_config_def split: option.splits sum.splits prod.splits)

end
