(* ===== verification/Service_Properties.thy ===== *)
theory Service_Properties
  imports Service Coordinator_Runs
begin

text \<open>
  What the operations of the service do and in which order, for every interference: the consent
  boundary, the order of disabling, pairing and removing a pairing, and the two ways in which a
  rejected confirmation leaves publishing possible.
\<close>

section \<open>Traces of the shared parts\<close>

lemma refresh_preview_ends:
  assumes "refresh_preview others snapshot s = Some (r, s')"
  shows "\<exists>p. r = Inr p \<and> sv_actions s' = sv_actions s @ [Changed] \<and> projection p = projection_of snapshot"
  using assms by (auto simp: refresh_preview_def segment_ends Let_def)

lemma reject_ends:
  assumes "reject_with_fresh_basis others snapshot s = Some (r, s')"
  shows "r = Inl PreviewOutOfDate \<and> sv_actions s' = sv_actions s @ [Changed]"
  using assms refresh_preview_ends
  by (fastforce simp: reject_with_fresh_basis_def segment_ends)

lemma ask_gate_ends:
  "ask_gate candidate current s = Some (r, s') \<longleftrightarrow>
     r = Inr (gate_validates (sv_gate s) candidate current) \<and>
     s' = s\<lparr>sv_actions := sv_actions s @
       [GateAsked (sv_gate s) candidate current (gate_validates (sv_gate s) candidate current)]\<rparr>"
  by (auto simp: ask_gate_def Let_def segment_ends)

lemma read_fingerprint_ends:
  "read_fingerprint env s = Some (r, s') \<longleftrightarrow>
     r = Inr (capture_fingerprint env s) \<and>
     s' = s\<lparr>sv_actions := sv_actions s @ [FingerprintRead (capture_fingerprint env s)]\<rparr>"
  by (auto simp: read_fingerprint_def segment_ends)

lemma stop_coordinator_ends:
  "stop_coordinator reason other s = Some (r, s') \<Longrightarrow>
     r = Inr () \<and> sv_actions s' = sv_actions s @ [CoordinatorShutdown reason]"
  by (auto simp: stop_coordinator_def segment_ends)

lemma start_coordinator_ends:
  "start_coordinator s = Some (r, s') \<longleftrightarrow>
     r = Inr () \<and> s' = s\<lparr>sv_world := coord_start (sv_world s), sv_actions := sv_actions s @ [CoordinatorStarted]\<rparr>"
  by (auto simp: start_coordinator_def segment_ends)

lemma drop_authority_ends:
  "drop_authority s = Some (r, s') \<longleftrightarrow>
     r = Inr () \<and> s' = s\<lparr>sv_world := discard_authority (sv_world s), sv_actions := sv_actions s @ [AuthorityDiscarded]\<rparr>"
  by (auto simp: drop_authority_def segment_ends)

lemma sv_update_cases:
  assumes "sv_update env flt f s = Some (r, s')"
  obtains (failed) "r = Inl Internal" "sv_actions s' = sv_actions s"
  | (persisted) "r = Inr ()" "sv_actions s' = sv_actions s @ [Persisted (f (the_config s))]"
  using assms by (rule sv_update_ends)

section \<open>The consent boundary\<close>

text \<open>From the persisted enable on, an enable is followed by the second validation or rolled back.\<close>

definition asked :: "confirmation \<Rightarrow> preview_projection \<Rightarrow> service_action \<Rightarrow> bool" where
  "asked candidate p a \<longleftrightarrow> (\<exists>g. a = GateAsked g candidate p True \<and> gate_validates g candidate p)"

definition enabled_after_check :: "rstr \<Rightarrow> confirmation \<Rightarrow> preview_projection \<Rightarrow> service_action list \<Rightarrow> bool" where
  "enabled_after_check ui candidate p as \<longleftrightarrow>
     (\<exists>c a. asked candidate p a \<and>
        as = [Persisted (set_live_desk True c), FingerprintRead ui, a, CoordinatorStarted, Changed])"

definition rolled_back :: "service_action list \<Rightarrow> bool" where
  "rolled_back as \<longleftrightarrow>
     (\<exists>c c' f seen. as = [Persisted (set_live_desk True c), FingerprintRead f] @ seen @
          [Persisted (set_live_desk False c'), Changed] \<and>
        (\<forall>a \<in> set seen. \<exists>g x y. a = GateAsked g x y False))"

definition write_failed :: "service_action list \<Rightarrow> bool" where
  "write_failed as \<longleftrightarrow>
     as = [] \<or>
     (\<exists>c f seen. as = [Persisted (set_live_desk True c), FingerprintRead f] @ seen \<and>
        (\<forall>a \<in> set seen. \<exists>g x y. a = GateAsked g x y False))"

lemma roll_back_ends:
  assumes "roll_back env others inp s = Some (r, s')"
  shows "(r = Inl Internal \<and> sv_actions s' = sv_actions s) \<or>
    (r = Inl PreviewOutOfDate \<and>
       (\<exists>c. sv_actions s' = sv_actions s @ [Persisted (set_live_desk False c), Changed]))"
  using assms unfolding roll_back_def sv_bind_Some
  by (auto elim!: sv_update_cases dest!: reject_ends)

lemma confirm_persisted_ends:
  assumes "confirm_persisted env others inp ui candidate s = Some (r, s')"
  shows "\<exists>as. sv_actions s' = sv_actions s @ as \<and>
    (r = Inr () \<and> enabled_after_check ui candidate (projection_of (ci_after inp)) as \<or>
     r = Inl PreviewOutOfDate \<and> rolled_back as \<or> r = Inl Internal \<and> write_failed as)"
proof -
  obtain r1 s1 where u: "sv_update env (ci_enable_fault inp) (set_live_desk True) s = Some (r1, s1)"
    using assms by (auto simp: confirm_persisted_def sv_bind_Some)
  from u show ?thesis
  proof (cases rule: sv_update_cases)
    case failed
    then show ?thesis using assms u by (auto simp: confirm_persisted_def sv_bind_Some write_failed_def)
  next
    case persisted
    let ?en = "Persisted (set_live_desk True (the_config s))"
    consider (start) g f where "r = Inr ()" "f = ui" "gate_validates g candidate (projection_of (ci_after inp))"
        "sv_actions s' = sv_actions s1 @ [FingerprintRead f, GateAsked g candidate (projection_of (ci_after inp)) True,
           CoordinatorStarted, Changed]"
      | (undo) f seen s2 where "roll_back env (from_point 7 others) inp s2 = Some (r, s')"
        "sv_actions s2 = sv_actions s1 @ [FingerprintRead f] @ seen" "\<forall>a \<in> set seen. \<exists>g x y. a = GateAsked g x y False"
      using assms u persisted
      by (auto simp: confirm_persisted_def segment_ends read_fingerprint_ends ask_gate_ends start_coordinator_ends
          split: if_splits)
    then show ?thesis
    proof cases
      case start
      then have "enabled_after_check ui candidate (projection_of (ci_after inp))
          [?en, FingerprintRead f, GateAsked g candidate (projection_of (ci_after inp)) True, CoordinatorStarted, Changed]"
        by (auto simp: enabled_after_check_def asked_def)
      with start persisted show ?thesis by auto
    next
      case undo
      have w: "write_failed ([?en, FingerprintRead f] @ seen)" using undo(3) by (auto simp: write_failed_def)
      have b: "rolled_back ([?en, FingerprintRead f] @ seen @ [Persisted (set_live_desk False c), Changed])" for c
        using undo(3) unfolding rolled_back_def by blast
      from roll_back_ends [OF undo(1)] undo(2) persisted w b show ?thesis by auto
    qed
  qed
qed

lemma confirm_consent_ends:
  assumes "confirm_consent env others inp ui s = Some (r, s')"
  obtains (unpaired) "r = Inl ENotPaired" "sv_actions s' = sv_actions s"
  | (stale) "r = Inl PreviewOutOfDate" "sv_actions s' = sv_actions s @ [Changed]"
  | (drifted) g c p where "r = Inl PreviewOutOfDate" "sv_actions s' = sv_actions s @ [GateAsked g c p False, Changed]"
  | (valid) candidate a s1 where "confirm_persisted env others inp ui candidate s1 = Some (r, s')"
      "sv_actions s1 = sv_actions s @ [a]" "asked candidate (projection_of (ci_before inp)) a"
      "cf_policy_fingerprint candidate = ui"
proof (cases "connection (the_config s) = None")
  case True
  then show ?thesis using assms that(1) by (auto simp: confirm_consent_def segment_ends)
next
  case False
  consider (reject) s2 where "reject_with_fresh_basis (from_point 7 others) (ci_refresh inp) s2 = Some (r, s')"
      "sv_actions s2 = sv_actions s"
    | (ask) candidate s2 where
      "sv_bind (ask_gate candidate (projection_of (ci_before inp))) (\<lambda>valid.
         if \<not> valid then reject_with_fresh_basis (from_point 7 others) (ci_refresh inp)
         else sv_bind (interfere (others 3)) (\<lambda>_. confirm_persisted env others inp ui candidate)) s2 = Some (r, s')"
      "cf_policy_fingerprint candidate = ui" "sv_actions s2 = sv_actions s"
    using assms False unfolding confirm_consent_def
    by (simp add: sv_bind_Some [where m = "interfere _"] sv_bind_Some [where m = "sv_read _"] sv_ends interfere_ends Let_def
        split: option.splits if_splits)
  then show ?thesis
  proof cases
    case reject
    then show ?thesis using that(2) reject_ends by metis
  next
    case ask
    show ?thesis
    proof (cases "gate_validates (sv_gate s2) candidate (projection_of (ci_before inp))")
      case True
      then show ?thesis
        using ask by (auto simp: segment_ends ask_gate_ends asked_def intro: that(4))
    next
      case False
      then show ?thesis
        using ask that(3) by (auto simp: sv_bind_Some ask_gate_ends dest!: reject_ends)
    qed
  qed
qed

section \<open>Properties\<close>

text \<open>
  C2: the consent boundary, whatever runs in between. A confirmation starts the coordinator
  exactly when it succeeds, and then what it did is: the gate validated the candidate of the
  clicked fingerprint against a fresh capture, the enable was persisted, the fingerprint of the
  policy in force was still the clicked one, and the gate validated the same candidate against a
  second capture; both captures show exactly the confirmed projection. Every other outcome
  persists nothing, or takes the enable back, or reports a failed write.
\<close>

theorem consent_boundary:
  assumes "confirm_consent env others inp ui s = Some (r, s')" and "sv_actions s = []"
  shows "(CoordinatorStarted \<in> set (sv_actions s') \<longleftrightarrow> r = Inr ()) \<and>
    (r = Inr () \<longrightarrow> (\<exists>candidate c a1 a2.
       cf_policy_fingerprint candidate = ui \<and> asked candidate (cf_projection candidate) a1 \<and>
       asked candidate (cf_projection candidate) a2 \<and>
       projection_of (ci_before inp) = cf_projection candidate \<and> projection_of (ci_after inp) = cf_projection candidate \<and>
       sv_actions s' = [a1, Persisted (set_live_desk True c), FingerprintRead ui, a2, CoordinatorStarted, Changed])) \<and>
    (r \<noteq> Inr () \<longrightarrow> (\<forall>c. Persisted c \<notin> set (sv_actions s')) \<or>
       (\<exists>as c'. sv_actions s' = as @ [Persisted (set_live_desk False c'), Changed]) \<or> r = Inl Internal)"
  using assms(1)
proof (cases rule: confirm_consent_ends)
  case (valid candidate a s1)
  from valid(3) have p: "projection_of (ci_before inp) = cf_projection candidate" and a: "a \<noteq> CoordinatorStarted"
    by (auto simp: asked_def gate_validates_def split: option.splits dest!: projection_eq_imp)
  obtain as where as: "sv_actions s' = sv_actions s1 @ as" and
    o: "r = Inr () \<and> enabled_after_check ui candidate (projection_of (ci_after inp)) as \<or>
     r = Inl PreviewOutOfDate \<and> rolled_back as \<or> r = Inl Internal \<and> write_failed as"
    using confirm_persisted_ends [OF valid(1)] by blast
  from o consider (on) "r = Inr ()" "enabled_after_check ui candidate (projection_of (ci_after inp)) as"
    | (undone) "r = Inl PreviewOutOfDate" "rolled_back as" | (stuck) "r = Inl Internal" "write_failed as" by blast
  then show ?thesis
  proof cases
    case on
    then obtain c a2 where a2: "asked candidate (projection_of (ci_after inp)) a2"
      "as = [Persisted (set_live_desk True c), FingerprintRead ui, a2, CoordinatorStarted, Changed]"
      by (auto simp: enabled_after_check_def)
    then have "projection_of (ci_after inp) = cf_projection candidate"
      by (auto simp: asked_def gate_validates_def split: option.splits dest!: projection_eq_imp)
    with on a2 as valid p assms(2) show ?thesis by auto
  next
    case undone
    then show ?thesis using as valid assms(2) a by (fastforce simp: rolled_back_def)
  next
    case stuck
    then show ?thesis using as valid assms(2) a by (fastforce simp: write_failed_def)
  qed
qed (use assms(2) in auto)

text \<open>An update with no listener registered.\<close>

definition quiet :: "'l service \<Rightarrow> bool" where
  "quiet s \<longleftrightarrow> cst_listeners (sv_store s) = [] \<and> \<not> cst_update_held (sv_store s)"

lemma release_lock: "\<not> cst_update_held st \<Longrightarrow> st\<lparr>cst_update_held := False, cst_config := c\<rparr> = st\<lparr>cst_config := c\<rparr>"
  by (cases st) simp

lemma sv_update_quiet:
  assumes "quiet s"
  shows "\<exists>d. sv_update env flt f s =
    (if config_valid (f (the_config s)) \<and> flt = NoFault
     then Some (Inr (), s\<lparr>sv_store := (sv_store s)\<lparr>cst_config := f (the_config s)\<rparr>, sv_disk := d,
                          sv_actions := sv_actions s @ [Persisted (f (the_config s))]\<rparr>)
     else Some (Inl Internal, s\<lparr>sv_disk := d\<rparr>))"
proof -
  note defs = sv_update_def update_def the_config_def act_def sv_modify_def
  show ?thesis
  proof (cases "revalidate (f (the_config s))")
    case (Inl e)
    have nv: "\<not> config_valid (f (the_config s))"
    proof
      assume v: "config_valid (f (the_config s))"
      then have "revalidate (f (the_config s)) = Inr (f (the_config s))"
        using revalidate_Inr by (auto simp: config_valid_def)
      then show False using Inl by simp
    qed
    have "sv_update env flt f s = Some (Inl Internal, s\<lparr>sv_store := sv_store s, sv_disk := sv_disk s\<rparr>)"
      using Inl assms by (simp add: defs quiet_def)
    then show ?thesis using nv by (intro exI [of _ "sv_disk s"]) simp
  next
    case (Inr n)
    then have n: "n = f (the_config s)" "config_valid (f (the_config s))" using revalidate_same by blast+
    show ?thesis
    proof (cases "atomic_write_json flt (sv_disk s) (cst_path (sv_store s)) (en_core_config n)")
      case (Pair x d)
      show ?thesis
      proof (cases x)
        case (Inl e)
        then have "flt \<noteq> NoFault" using Pair by (auto simp: atomic_write_json_def Let_def)
        with Inl Inr Pair assms n show ?thesis by (intro exI [of _ d]) (simp add: defs quiet_def)
      next
        case (Inr u)
        then have "flt = NoFault" using Pair atomic_write_Inr by blast
        with Inr \<open>revalidate (f (the_config s)) = Inr n\<close> Pair assms n show ?thesis
          by (intro exI [of _ d]) (simp add: defs quiet_def Let_def release_lock)
      qed
    qed
  qed
qed

lemma quiet_update_ends:
  assumes "quiet s"
  obtains (failed) d where "sv_update env flt f s = Some (Inl Internal, s\<lparr>sv_disk := d\<rparr>)"
      "\<not> (config_valid (f (the_config s)) \<and> flt = NoFault)"
  | (persisted) d where "sv_update env flt f s =
      Some (Inr (), s\<lparr>sv_store := (sv_store s)\<lparr>cst_config := f (the_config s)\<rparr>, sv_disk := d,
                      sv_actions := sv_actions s @ [Persisted (f (the_config s))]\<rparr>)"
      "config_valid (f (the_config s))" "flt = NoFault"
  using sv_update_quiet [OF assms, of env flt f] by (metis (no_types, lifting))

lemma quiet_fields [simp]:
  "quiet (s\<lparr>sv_gate := g\<rparr>) = quiet s" "quiet (s\<lparr>sv_preview := p\<rparr>) = quiet s" "quiet (s\<lparr>sv_world := w\<rparr>) = quiet s"
  "quiet (s\<lparr>sv_actions := a\<rparr>) = quiet s" "quiet (s\<lparr>sv_disk := d\<rparr>) = quiet s" "quiet (s\<lparr>sv_telemetry := t\<rparr>) = quiet s"
  "quiet (s\<lparr>sv_store := (sv_store s)\<lparr>cst_config := c\<rparr>\<rparr>) = quiet s"
  "quiet (s\<lparr>sv_store := (sv_store s)\<lparr>cst_config := c\<rparr>, sv_disk := d, sv_actions := a\<rparr>) = quiet s"
  by (simp_all add: quiet_def)

lemma the_config_fields [simp]:
  "the_config (s\<lparr>sv_gate := g\<rparr>) = the_config s" "the_config (s\<lparr>sv_preview := p\<rparr>) = the_config s"
  "the_config (s\<lparr>sv_world := w\<rparr>) = the_config s" "the_config (s\<lparr>sv_actions := a\<rparr>) = the_config s"
  "the_config (s\<lparr>sv_disk := d\<rparr>) = the_config s" "the_config (s\<lparr>sv_telemetry := t\<rparr>) = the_config s"
  "the_config (s\<lparr>sv_store := (sv_store s)\<lparr>cst_config := c\<rparr>\<rparr>) = c"
  "the_config (s\<lparr>sv_store := (sv_store s)\<lparr>cst_config := c\<rparr>, sv_disk := d, sv_actions := a\<rparr>) = c"
  by (simp_all add: the_config_def)

text \<open>
  An operation returns when it runs on a quiet store and interference keeps the store quiet; it
  leaves the store quiet.
\<close>

definition returns :: "('l, 'a) svc \<Rightarrow> bool" where
  "returns m \<longleftrightarrow> (\<forall>s. quiet s \<longrightarrow> (\<exists>r s'. m s = Some (r, s') \<and> quiet s'))"

lemma returns_bind:
  assumes "returns m" and "\<And>x. returns (f x)"
  shows "returns (sv_bind m f)"
  unfolding returns_def
proof (intro allI impI)
  fix s :: "'a service"
  assume "quiet s"
  then obtain r s1 where m: "m s = Some (r, s1)" "quiet s1" using assms(1) by (auto simp: returns_def)
  show "\<exists>r s'. sv_bind m f s = Some (r, s') \<and> quiet s'"
    using m assms(2) by (cases r) (auto simp: sv_bind_def returns_def)
qed

lemma returns_simple:
  "returns (sv_return x)" "returns (sv_fail e)" "returns (sv_read h)" "returns (act a)" "returns (on_world w)"
  by (simp_all add: returns_def sv_return_def sv_fail_def sv_read_def act_def on_world_def sv_modify_def)

lemma returns_modify: "(\<And>s. quiet s \<Longrightarrow> quiet (h s)) \<Longrightarrow> returns (sv_modify h)"
  by (simp add: returns_def sv_modify_def)

lemma returnsD: "returns m \<Longrightarrow> quiet s \<Longrightarrow> \<exists>r s'. m s = Some (r, s') \<and> quiet s'"
  by (simp add: returns_def)

definition keeps_quiet :: "'l others \<Rightarrow> bool" where
  "keeps_quiet others \<longleftrightarrow> (\<forall>k s. quiet s \<longrightarrow> quiet (others k s))"

lemma returns_interfere: "keeps_quiet others \<Longrightarrow> returns (interfere (others k))"
  unfolding interfere_def by (rule returns_modify) (simp add: keeps_quiet_def)

lemma returns_update: "returns (sv_update env flt f)"
  unfolding returns_def
proof (intro allI impI)
  fix s :: "'a service"
  assume q: "quiet s"
  then show "\<exists>r s'. sv_update env flt f s = Some (r, s') \<and> quiet s'"
    by (cases rule: quiet_update_ends [of s env flt f]) (use q in auto)
qed

lemma keeps_quiet_from: "keeps_quiet others \<Longrightarrow> keeps_quiet (from_point n others)"
  by (simp add: keeps_quiet_def from_point_def)

lemma returns_ask: "returns (ask_gate c p)" and returns_fingerprint: "returns (read_fingerprint env)"
  by (simp_all add: returns_def ask_gate_def read_fingerprint_def sv_bind_def act_def sv_modify_def sv_return_def Let_def)

lemma returns_remove_sequence: "returns (remove_sequence p flt dev)"
  by (auto simp: returns_def remove_sequence_def act_def sv_modify_def split: prod.splits sum.splits)

lemma returns_refresh: "keeps_quiet others \<Longrightarrow> returns (refresh_preview others snapshot)"
  unfolding refresh_preview_def Let_def
  by (intro returns_bind returns_simple returns_interfere returns_modify) simp_all

lemma returns_reject: "keeps_quiet others \<Longrightarrow> returns (reject_with_fresh_basis others snapshot)"
  unfolding reject_with_fresh_basis_def by (intro returns_bind returns_simple returns_refresh)

lemma returns_stop: "keeps_quiet others \<Longrightarrow> returns (stop_coordinator reason (others k))"
  unfolding stop_coordinator_def by (intro returns_bind returns_simple returns_interfere)

lemma returns_start: "returns start_coordinator" and returns_drop: "returns drop_authority"
  unfolding start_coordinator_def drop_authority_def by (intro returns_bind returns_simple)+

lemmas returns_parts =
  returns_bind returns_simple returns_interfere returns_update returns_ask returns_fingerprint
  returns_remove_sequence returns_refresh returns_reject returns_stop returns_start returns_drop keeps_quiet_from

lemma returns_if: "(b \<Longrightarrow> returns m) \<Longrightarrow> (\<not> b \<Longrightarrow> returns n) \<Longrightarrow> returns (if b then m else n)"
  by simp

lemma returns_confirm:
  assumes "keeps_quiet others"
  shows "returns (confirm_consent env others inp ui)"
proof -
  have "returns (roll_back env (from_point 7 others) inp)"
    unfolding roll_back_def using assms by (intro returns_parts)
  then have "returns (confirm_persisted env others inp ui candidate)" for candidate
    unfolding confirm_persisted_def using assms by (intro returns_parts returns_if)
  then show ?thesis
    unfolding confirm_consent_def Let_def using assms
    by (auto intro!: returns_parts returns_if split: option.split)
qed

lemma returns_pair:
  assumes "keeps_quiet others"
  shows "returns (pair env others store claimed token_set flt snapshot)"
  unfolding pair_def using assms by (auto intro!: returns_parts split: sum.split)

lemma returns_unpair:
  assumes "keeps_quiet others"
  shows "returns (unpair env others flt1 deleted p flt2 flt3)"
proof -
  have "returns (unpair_connected env others flt1 deleted p flt2 flt3 c)" for c
    unfolding unpair_connected_def unpair_forget_def using assms
    by (intro returns_parts returns_modify) simp_all
  then show ?thesis
    unfolding unpair_def using assms by (auto intro!: returns_parts split: option.split)
qed

lemma returns_policy_maybe_changed:
  "keeps_quiet others \<Longrightarrow> returns (policy_maybe_changed env others)"
  unfolding policy_maybe_changed_def by (intro returns_parts returns_if returns_modify) simp_all

lemma returns_disable: "keeps_quiet others \<Longrightarrow> returns (disable_live_desk env others flt)"
  unfolding disable_live_desk_def by (intro returns_parts)

section \<open>Order of effects\<close>

text \<open>
  C16: disabling is persisted first. Whatever runs in between, the coordinator is shut down only
  after the disabled configuration has been written; if the write fails nothing else happens.
\<close>

theorem disable_persists_first:
  assumes "disable_live_desk env others flt s = Some (r, s')" and "sv_actions s = []"
  shows "r = Inl Internal \<and> sv_actions s' = [] \<or>
    r = Inr () \<and> sv_actions s' =
      [Persisted (set_live_desk False (the_config s)), CoordinatorShutdown CPaused, Changed]"
proof -
  obtain r1 s1 where u: "sv_update env flt (set_live_desk False) s = Some (r1, s1)"
    using assms(1) by (auto simp: disable_live_desk_def sv_bind_Some)
  from u show ?thesis
  proof (cases rule: sv_update_cases)
    case failed
    then show ?thesis using assms u by (simp add: disable_live_desk_def sv_bind_def)
  next
    case persisted
    then show ?thesis using assms u
      by (auto simp: disable_live_desk_def sv_bind_Some interfere_ends act_ends dest!: stop_coordinator_ends)
  qed
qed

text \<open>
  Pairing never enables publishing and commits the secret first. A failed claim touches
  nothing of the old pairing. Otherwise the old lifecycle is stopped, the token stored and only
  then the connection of the claim persisted, disabled; no pairing starts the coordinator.
\<close>

theorem pairing_lands_disabled:
  assumes "pair env others store claimed token_set flt snapshot s = Some (r, s')" and "sv_actions s = []"
  shows "(\<exists>e. r = Inl e) \<and> sv_actions s' = [] \<and> (\<not> is_ok store \<or> \<not> is_ok claimed) \<or>
    (\<exists>x b as. claimed = Inr x \<and> store = Inr b \<and>
       sv_actions s' = [CoordinatorShutdown CConnectionRemoved, AuthorityDiscarded] @ as \<and>
       (r = Inl Internal \<and> (as = [] \<or> as = [TokenStored (pr_device_id x) (pr_device_token x)]) \<or>
        r = Inr () \<and> (\<exists>c. as = [TokenStored (pr_device_id x) (pr_device_token x), Persisted c, Changed] \<and>
          cred_backend c = Some b \<and> connection c = Some (connection_of x) \<and>
          \<not> live_desk_enabled (connection_of x))))"
proof (cases "is_ok store \<and> is_ok claimed")
  case False
  then show ?thesis
    using assms by (auto simp: pair_def segment_ends is_ok_iff split: sum.splits)
next
  case True
  then obtain b x where bx: "store = Inr b" "claimed = Inr x" by (auto simp: is_ok_iff)
  let ?stopped = "[CoordinatorShutdown CConnectionRemoved, AuthorityDiscarded]"
  let ?token = "TokenStored (pr_device_id x) (pr_device_token x)"
  let ?new = "\<lambda>c. c\<lparr>cred_backend := Some b, connection := Some (connection_of x)\<rparr>"
  consider (no_token) "r = Inl Internal" "sv_actions s' = ?stopped"
    | (token) s1 where "sv_bind (sv_update env flt ?new)
        (\<lambda>_. sv_bind (refresh_preview (from_point 5 others) snapshot) (\<lambda>_. sv_return ())) s1 = Some (r, s')"
      "sv_actions s1 = ?stopped @ [?token]"
    using assms bx
    by (cases token_set)
      (auto simp: pair_def sv_bind_Some [where m = "interfere _"] sv_bind_Some [where m = drop_authority]
        sv_bind_Some [where m = "stop_coordinator _ _"] sv_bind_Some [where m = "act _"]
        sv_ends act_ends interfere_ends drop_authority_ends dest!: stop_coordinator_ends)
  then show ?thesis
  proof cases
    case no_token
    with bx show ?thesis by auto
  next
    case token
    then obtain r1 s2 where u: "sv_update env flt ?new s1 = Some (r1, s2)" by (auto simp: sv_bind_Some)
    from u show ?thesis
    proof (cases rule: sv_update_cases)
      case failed
      with token u bx show ?thesis by (auto simp: sv_bind_def)
    next
      case persisted
      with token u bx show ?thesis
        by (auto simp: sv_bind_Some sv_ends connection_of_def dest!: refresh_preview_ends)
    qed
  qed
qed

lemma remove_sequence_cases:
  assumes "remove_sequence p flt dev s = Some (r, s')"
  obtains (failed) "r = Inl Internal" "sv_actions s' = sv_actions s"
  | (removed) "r = Inr ()" "sv_actions s' = sv_actions s @ [SequenceRemoved dev]"
  using assms by (auto simp: remove_sequence_def act_ends split: prod.splits sum.splits)

lemmas straight_segments =
  sv_bind_Some [where m = "interfere _"] sv_bind_Some [where m = drop_authority]
  sv_bind_Some [where m = "stop_coordinator _ _"] sv_bind_Some [where m = "act _"]
  sv_bind_Some [where m = "sv_modify _"] sv_bind_Some [where m = "sv_read _"]
  sv_ends act_ends interfere_ends drop_authority_ends

lemma unpair_forget_ends:
  assumes "unpair_forget env others p flt2 flt3 dev s = Some (r, s')"
  shows "\<exists>as. sv_actions s' = sv_actions s @ as \<and>
    (r = Inl Internal \<and> (as = [] \<or> as = [SequenceRemoved dev]) \<or>
     r = Inr () \<and> (\<exists>c. as = [SequenceRemoved dev, Persisted c, Changed] \<and> connection c = None))"
proof -
  obtain r1 s1 where u: "remove_sequence p flt2 dev s = Some (r1, s1)"
    using assms by (auto simp: unpair_forget_def sv_bind_Some [where m = "remove_sequence _ _ _"])
  from u show ?thesis
  proof (cases rule: remove_sequence_cases)
    case failed
    with assms u show ?thesis by (auto simp: unpair_forget_def sv_bind_def)
  next
    case removed
    let ?none = "\<lambda>c. c\<lparr>connection := None\<rparr>"
    let ?s2 = "(others 5 s1)\<lparr>sv_actions := sv_actions s1\<rparr>"
    obtain r3 s3 where v: "sv_update env flt3 ?none ?s2 = Some (r3, s3)"
      using assms u removed
      by (auto simp: unpair_forget_def sv_bind_Some [where m = "remove_sequence _ _ _"]
          sv_bind_Some [where m = "sv_update _ _ _"] straight_segments)
    from v show ?thesis
      by (cases rule: sv_update_cases)
        (use assms u v removed in \<open>auto simp: unpair_forget_def sv_bind_Some segment_ends\<close>)
  qed
qed

text \<open>
  C18: removing a pairing disables durably before anything else, then stops the coordinator,
  deletes the token (best effort) and the sequence (a file that cannot be read counts as having none),
  and only then forgets the connection. If the sequence cannot be removed, the connection stays, disabled.
\<close>

theorem unpair_order:
  assumes "unpair env others flt1 deleted p flt2 flt3 s = Some (r, s')" and "sv_actions s = []"
  shows "sv_actions s' = [] \<and> (r = Inr () \<longleftrightarrow> connection (the_config s) = None) \<or>
    (\<exists>c x as. connection (the_config s) = Some x \<and>
       sv_actions s' = [Persisted (set_live_desk False c), CoordinatorShutdown CConnectionRemoved,
         AuthorityDiscarded, TokenDeleted (device_id x) deleted] @ as \<and>
       (r = Inl Internal \<and> (as = [] \<or> as = [SequenceRemoved (device_id x)]) \<or>
        r = Inr () \<and> (\<exists>c'. as = [SequenceRemoved (device_id x), Persisted c', Changed] \<and> connection c' = None)))"
proof (cases "connection (the_config s)")
  case None
  then show ?thesis using assms by (simp add: unpair_def straight_segments)
next
  case (Some x)
  then obtain s0 where u: "unpair_connected env others flt1 deleted p flt2 flt3 x s0 = Some (r, s')" "sv_actions s0 = []"
    using assms by (auto simp: unpair_def straight_segments)
  then obtain r1 s1 where p1: "sv_update env flt1 (set_live_desk False) s0 = Some (r1, s1)"
    by (auto simp: unpair_connected_def sv_bind_Some [where m = "sv_update _ _ _"])
  from p1 show ?thesis
  proof (cases rule: sv_update_cases)
    case failed
    with u p1 Some show ?thesis by (auto simp: unpair_connected_def sv_bind_def)
  next
    case persisted
    with u p1 obtain s2 where s2: "unpair_forget env others p flt2 flt3 (device_id x) s2 = Some (r, s')"
      "sv_actions s2 = sv_actions s1 @ [CoordinatorShutdown CConnectionRemoved, AuthorityDiscarded,
         TokenDeleted (device_id x) deleted]"
      by (auto simp: unpair_connected_def sv_bind_Some [where m = "sv_update _ _ _"] straight_segments
          dest!: stop_coordinator_ends)
    from unpair_forget_ends [OF s2(1)] obtain as where "sv_actions s' = sv_actions s2 @ as"
      "r = Inl Internal \<and> (as = [] \<or> as = [SequenceRemoved (device_id x)]) \<or>
       r = Inr () \<and> (\<exists>c. as = [SequenceRemoved (device_id x), Persisted c, Changed] \<and> connection c = None)"
      by blast
    with s2(2) persisted(2) u(2) Some show ?thesis by (intro disjI2 exI [of _ "the_config s0"] exI [of _ x]) simp
  qed
qed

section \<open>Rejected after the persisted enable\<close>

text \<open>A service that shows a recorded preview of the policy in force.\<close>

definition previewing :: "'l service_env \<Rightarrow> 'l service \<Rightarrow> preview_projection \<Rightarrow> bool" where
  "previewing env s p \<longleftrightarrow>
     quiet s \<and> config_valid (the_config s) \<and> connection (the_config s) \<noteq> None \<and>
     cg_fingerprint (sv_gate s) = capture_fingerprint env s \<and>
     cg_confirmation (sv_gate s) = Some \<lparr>cf_policy_fingerprint = capture_fingerprint env s, cf_projection = p\<rparr> \<and>
     projection_eq p p \<and>
     (\<exists>t. sv_preview s = Some \<lparr>projection = p, policy_fp = capture_fingerprint env s, preview_observed_at = t\<rparr>)"

lemma set_live_desk_valid [simp]: "config_valid (set_live_desk b c) = config_valid c"
  by (cases "connection c") (simp_all add: set_live_desk_def config_valid_def config_widths_def)

lemma set_live_desk_fields [simp]:
  "privacy (set_live_desk b c) = privacy c" "set_live_desk b (set_live_desk b' c) = set_live_desk b c"
  "connection (set_live_desk b c) = map_option (\<lambda>x. x\<lparr>live_desk_enabled := b\<rparr>) (connection c)"
  by (cases c; simp add: set_live_desk_def option.map_comp comp_def)+

lemma previewing_validates:
  "previewing env s p \<Longrightarrow> gate_validates (sv_gate s) \<lparr>cf_policy_fingerprint = capture_fingerprint env s, cf_projection = p\<rparr> q =
    projection_eq p q"
  by (auto simp: previewing_def gate_validates_def confirmation_eq_def)

lemma confirm_to_persisted:
  assumes "previewing env s p" and "projection_of (ci_before inp) = p"
  shows "\<exists>a. confirm_consent env (\<lambda>_ s. s) inp (capture_fingerprint env s) s =
    confirm_persisted env (\<lambda>_ s. s) inp (capture_fingerprint env s)
      \<lparr>cf_policy_fingerprint = capture_fingerprint env s, cf_projection = p\<rparr> (s\<lparr>sv_actions := a\<rparr>)"
  using assms previewing_validates [OF assms(1), of p]
  by (auto simp: confirm_consent_def sv_bind_def sv_read_def interfere_def sv_modify_def ask_gate_def act_def
      sv_return_def previewing_def Let_def)

lemma confirm_second_check:
  assumes "previewing env s p" and "projection_of (ci_before inp) = p" and "ci_enable_fault inp = NoFault"
  obtains t where "quiet t" and "sv_world t = sv_world s" and "the_config t = set_live_desk True (the_config s)"
    and "confirm_consent env (\<lambda>_ s. s) inp (capture_fingerprint env s) s =
      (if projection_eq p (projection_of (ci_after inp)) then sv_bind start_coordinator (\<lambda>_. act Changed) t
       else roll_back env (from_point 7 (\<lambda>_ s. s)) inp t)"
proof -
  let ?fp = "capture_fingerprint env s"
  let ?c = "\<lparr>cf_policy_fingerprint = ?fp, cf_projection = p\<rparr>"
  have q: "quiet s" and v: "config_valid (the_config s)" using assms(1) by (auto simp: previewing_def)
  obtain a where run: "confirm_consent env (\<lambda>_ s. s) inp ?fp s =
      confirm_persisted env (\<lambda>_ s. s) inp ?fp ?c (s\<lparr>sv_actions := a\<rparr>)"
    using confirm_to_persisted [OF assms(1,2)] by blast
  obtain d1 where u1: "sv_update env NoFault (set_live_desk True) (s\<lparr>sv_actions := a\<rparr>) =
      Some (Inr (), s\<lparr>sv_store := (sv_store s)\<lparr>cst_config := set_live_desk True (the_config s)\<rparr>, sv_disk := d1,
        sv_actions := a @ [Persisted (set_live_desk True (the_config s))]\<rparr>)"
    using sv_update_quiet [of "s\<lparr>sv_actions := a\<rparr>" env NoFault "set_live_desk True"] q v by auto
  define t where "t = s\<lparr>sv_store := (sv_store s)\<lparr>cst_config := set_live_desk True (the_config s)\<rparr>, sv_disk := d1,
      sv_actions := a @ [Persisted (set_live_desk True (the_config s)), FingerprintRead ?fp,
        GateAsked (sv_gate s) ?c (projection_of (ci_after inp)) (projection_eq p (projection_of (ci_after inp)))]\<rparr>"
  have fp: "capture_fingerprint env (s\<lparr>sv_store := (sv_store s)\<lparr>cst_config := set_live_desk True (the_config s)\<rparr>,
      sv_disk := d1, sv_actions := b\<rparr>) = ?fp" for b
    by (simp add: capture_fingerprint_def)
  have "confirm_consent env (\<lambda>_ s. s) inp ?fp s =
      (if projection_eq p (projection_of (ci_after inp)) then sv_bind start_coordinator (\<lambda>_. act Changed) t
       else roll_back env (from_point 7 (\<lambda>_ s. s)) inp t)"
    using previewing_validates [OF assms(1)] u1 assms(3) fp
    by (simp add: run confirm_persisted_def sv_bind_def interfere_def sv_modify_def read_fingerprint_def act_def
        sv_return_def ask_gate_def Let_def t_def)
  moreover have "quiet t" "sv_world t = sv_world s" "the_config t = set_live_desk True (the_config s)"
    using q by (simp_all add: t_def)
  ultimately show ?thesis using that by blast
qed

text \<open>
  An undisturbed confirmation goes through. With a recorded preview of the policy in force,
  two captures that show it and no failing write, a confirmation succeeds, Live Desk is persisted
  as enabled and the coordinator started: it negotiates, unless a shutdown is still in flight, which
  makes it ignore the start.
\<close>

theorem undisturbed_confirmation_enables:
  assumes "previewing env s p" and "projection_of (ci_before inp) = p" and "projection_of (ci_after inp) = p"
    and "ci_enable_fault inp = NoFault"
  shows "\<exists>s'. confirm_consent env (\<lambda>_ s. s) inp (capture_fingerprint env s) s = Some (Inr (), s') \<and>
    the_config s' = set_live_desk True (the_config s) \<and> sv_world s' = coord_start (sv_world s) \<and>
    (if stopping (w_inner (sv_world s)) then sv_world s' = sv_world s
     else coord_state (w_inner (sv_world s')) = Connecting)"
proof -
  have "projection_eq p p" using assms(1) by (simp add: previewing_def)
  then obtain t where t: "sv_world t = sv_world s" "the_config t = set_live_desk True (the_config s)"
    "confirm_consent env (\<lambda>_ s. s) inp (capture_fingerprint env s) s = sv_bind start_coordinator (\<lambda>_. act Changed) t"
    using confirm_second_check [OF assms(1,2,4)] assms(3) by metis
  show ?thesis
    unfolding t(3)
    by (simp add: sv_bind_def start_coordinator_def on_world_def act_def sv_modify_def t coord_start_def start_locked_simps)
      (simp add: start_locked_def)
qed

text \<open>
  A rejected confirmation does not stop what runs. When the second capture no longer shows
  the confirmed projection, the enable is rolled back on disk, but the coordinator is left as it
  is: one that was already publishing goes on although Live Desk is persisted as disabled. And
  when the rollback cannot be written, Live Desk stays persisted as enabled without a valid
  consent, so the next start of the service starts publishing.
\<close>

theorem rejected_confirmation_leaves_publishing:
  assumes "previewing env s p" and "projection_of (ci_before inp) = p"
    and "\<not> projection_eq p (projection_of (ci_after inp))" and "ci_enable_fault inp = NoFault"
  shows "\<exists>e s'. confirm_consent env (\<lambda>_ s. s) inp (capture_fingerprint env s) s = Some (Inl e, s') \<and>
    sv_world s' = sv_world s \<and>
    (ci_rollback_fault inp = NoFault \<longrightarrow> e = PreviewOutOfDate \<and> the_config s' = set_live_desk False (the_config s)) \<and>
    (ci_rollback_fault inp \<noteq> NoFault \<longrightarrow> e = Internal \<and> the_config s' = set_live_desk True (the_config s) \<and>
       (\<exists>s2. service_start (\<lambda>s. s) s' = Some (Inr (), s2) \<and> sv_world s2 = coord_start (sv_world s)))"
proof -
  obtain t where t: "quiet t" "sv_world t = sv_world s" "the_config t = set_live_desk True (the_config s)"
    and undo: "confirm_consent env (\<lambda>_ s. s) inp (capture_fingerprint env s) s =
      roll_back env (from_point 7 (\<lambda>_ s. s)) inp t"
    using confirm_second_check [OF assms(1,2,4)] assms(3) by metis
  have conn: "connection (the_config s) \<noteq> None" and vt: "config_valid (set_live_desk False (the_config t))"
    using assms(1) t(3) by (auto simp: previewing_def)
  from t(1) show ?thesis
  proof (cases rule: quiet_update_ends [of t env "ci_rollback_fault inp" "set_live_desk False"])
    case (failed d)
    then have "roll_back env (from_point 7 (\<lambda>_ s. s)) inp t = Some (Inl Internal, t\<lparr>sv_disk := d\<rparr>)"
      and "ci_rollback_fault inp \<noteq> NoFault"
      using vt by (simp_all add: roll_back_def sv_bind_def)
    then show ?thesis
      using t conn by (auto simp: undo service_start_def segment_ends start_coordinator_ends split: option.splits)
  next
    case (persisted d)
    then show ?thesis
      using t by (simp add: undo roll_back_def sv_bind_def reject_with_fresh_basis_def refresh_preview_def
          interfere_def sv_modify_def sv_read_def act_def sv_return_def sv_fail_def from_point_def Let_def)
  qed
qed

section \<open>Witnesses\<close>

definition sample_service_env :: "unit service_env" where
  "sample_service_env =
     \<lparr>se_call = (\<lambda>_ _ sd. Some sd), se_escape = (\<lambda>s. s), se_sha256 = (\<lambda>_. [0]), se_unicode = ascii_unicode\<rparr>"

definition sample_service :: "world \<Rightarrow> unit service" where
  "sample_service w =
     \<lparr>sv_store = \<lparr>cst_path = lit ''config.json'', cst_config = default_core_config\<lparr>connection := Some sample_connection\<rparr>,
        cst_listeners = [], cst_next_listener_id = 0, cst_update_held = False\<rparr>,
      sv_disk = (\<lambda>_. None),
      sv_gate = \<lparr>cg_fingerprint = hex_lower [0], cg_confirmation = Some
        \<lparr>cf_policy_fingerprint = hex_lower [0], cf_projection = projection_of sample_snapshot\<rparr>\<rparr>,
      sv_preview = Some \<lparr>projection = projection_of sample_snapshot, policy_fp = hex_lower [0], preview_observed_at = 0\<rparr>,
      sv_telemetry = \<lparr>last_publish_at = None, last_error = None\<rparr>, sv_world = w, sv_actions = []\<rparr>"

lemma sample_fingerprint: "capture_fingerprint sample_service_env s = hex_lower [0]"
  by (simp add: capture_fingerprint_def policy_fingerprint_def sample_service_env_def)

lemma sample_projection_eq: "projection_eq (projection_of sample_snapshot) (projection_of sample_snapshot)"
  by (rule projection_eq_refl) (simp add: sample_snapshot_def)

lemma sample_service_facts:
  "sv_actions (sample_service w) = []" "quiet (sample_service w)" "sv_world (sample_service w) = w"
  "connection (the_config (sample_service w)) = Some sample_connection"
  by (simp_all add: sample_service_def quiet_def the_config_def default_core_config_def)

lemma sample_previewing: "previewing sample_service_env (sample_service w) (projection_of sample_snapshot)"
proof -
  have "config_valid (the_config (sample_service w))"
    using default_config_valid
    by (simp add: sample_service_def the_config_def config_valid_def config_widths_def default_core_config_def
        sample_connection_def)
  then show ?thesis
    unfolding previewing_def
    by (simp add: sample_service_facts sample_fingerprint sample_projection_eq) (simp add: sample_service_def)
qed

definition drifted_snapshot :: sanitized_snapshot where
  "drifted_snapshot = \<lparr>observed_at = 0, snap_application = None, snap_media = None\<rparr>"

lemma sample_drift: "\<not> projection_eq (projection_of sample_snapshot) (projection_of drifted_snapshot)"
  by (auto dest: projection_eq_imp simp: projection_of_def sample_snapshot_def drifted_snapshot_def)

definition sample_inputs :: "sanitized_snapshot \<Rightarrow> confirm_inputs" where
  "sample_inputs after =
     \<lparr>ci_before = sample_snapshot, ci_enable_fault = NoFault, ci_after = after, ci_rollback_fault = NoFault,
      ci_refresh = sample_snapshot\<rparr>"

lemma undisturbed_confirmation_enables_witness:
  "\<exists>s'. confirm_consent sample_service_env (\<lambda>_ s. s) (sample_inputs sample_snapshot) (hex_lower [0])
     (sample_service world_new) = Some (Inr (), s') \<and> sv_world s' = coord_start world_new"
  using undisturbed_confirmation_enables [OF sample_previewing, of "sample_inputs sample_snapshot" world_new]
  by (auto simp: sample_inputs_def sample_fingerprint sample_service_facts)

lemma rejected_confirmation_leaves_publishing_witness:
  "\<exists>w s'. coord_reachable ascii_unicode sample_env default_timings w \<and> coord_state (w_inner w) = Active \<and>
     confirm_consent sample_service_env (\<lambda>_ s. s) (sample_inputs drifted_snapshot) (hex_lower [0]) (sample_service w) =
       Some (Inl PreviewOutOfDate, s') \<and> sv_world s' = w \<and>
     the_config s' = set_live_desk False (the_config (sample_service w))"
proof -
  obtain w where w: "coord_reachable ascii_unicode sample_env default_timings w" "coord_state (w_inner w) = Active"
    by (rule active_run)
  show ?thesis
    using rejected_confirmation_leaves_publishing [OF sample_previewing, of "sample_inputs drifted_snapshot" w] w
    by (auto simp: sample_inputs_def sample_fingerprint sample_service_facts sample_drift)
qed

lemma sample_confirmed:
  obtains s' where "confirm_consent sample_service_env (\<lambda>_ s. s) (sample_inputs sample_snapshot) (hex_lower [0])
     (sample_service world_new) = Some (Inr (), s')"
proof -
  obtain t where "confirm_consent sample_service_env (\<lambda>_ s. s) (sample_inputs sample_snapshot) (hex_lower [0])
      (sample_service world_new) = sv_bind start_coordinator (\<lambda>_. act Changed) t"
    by (rule confirm_second_check [OF sample_previewing, of "sample_inputs sample_snapshot" world_new])
      (simp_all add: sample_inputs_def sample_fingerprint sample_projection_eq)
  then have "confirm_consent sample_service_env (\<lambda>_ s. s) (sample_inputs sample_snapshot) (hex_lower [0])
      (sample_service world_new) =
      Some (Inr (), t\<lparr>sv_world := coord_start (sv_world t), sv_actions := sv_actions t @ [CoordinatorStarted, Changed]\<rparr>)"
    by (simp add: sv_bind_def start_coordinator_def on_world_def act_def sv_modify_def)
  then show ?thesis by (rule that)
qed

lemma consent_boundary_witness:
  "\<exists>s'. confirm_consent sample_service_env (\<lambda>_ s. s) (sample_inputs sample_snapshot) (hex_lower [0])
     (sample_service world_new) = Some (Inr (), s') \<and> CoordinatorStarted \<in> set (sv_actions s')"
proof -
  obtain s' where r: "confirm_consent sample_service_env (\<lambda>_ s. s) (sample_inputs sample_snapshot) (hex_lower [0])
     (sample_service world_new) = Some (Inr (), s')"
    by (rule sample_confirmed)
  from consent_boundary [OF r] r show ?thesis by (auto simp: sample_service_facts)
qed



lemma sample_config_valid: "config_valid (the_config (sample_service w))"
  using sample_previewing by (simp add: previewing_def)

lemmas run_segments =
  sv_bind_def interfere_def sv_modify_def sv_read_def act_def sv_return_def on_world_def start_coordinator_def
  stop_coordinator_def drop_authority_def

lemma disable_persists_first_witness:
  "\<exists>s'. disable_live_desk sample_service_env (\<lambda>_ s. s) NoFault (sample_service world_new) = Some (Inr (), s') \<and>
     sv_actions s' = [Persisted (set_live_desk False (the_config (sample_service world_new))),
       CoordinatorShutdown CPaused, Changed]"
proof -
  obtain d where "sv_update sample_service_env NoFault (set_live_desk False) (sample_service world_new) =
      Some (Inr (), (sample_service world_new)\<lparr>sv_store := (sv_store (sample_service world_new))
          \<lparr>cst_config := set_live_desk False (the_config (sample_service world_new))\<rparr>, sv_disk := d,
        sv_actions := [Persisted (set_live_desk False (the_config (sample_service world_new)))]\<rparr>)"
    using sv_update_quiet [OF sample_service_facts(2), of sample_service_env NoFault "set_live_desk False"]
    by (auto simp: sample_config_valid sample_service_facts)
  then obtain s' where r: "disable_live_desk sample_service_env (\<lambda>_ s. s) NoFault (sample_service world_new) =
      Some (Inr (), s')"
    by (simp add: disable_live_desk_def run_segments)
  from disable_persists_first [OF r] r show ?thesis by (simp add: sample_service_facts)
qed

definition sample_pairing_result :: pairing_result where
  "sample_pairing_result =
     \<lparr>pr_device_id = sample_uuid, pr_device_token = lit ''tok'', pr_scopes = [REQUIRED_PRESENCE_SCOPE],
      pr_next_sequence = 7, pr_base_url = lit ''http://127.0.0.1/'', pr_device_name = lit ''PC''\<rparr>"

lemma quiet_returns:
  assumes "keeps_quiet others" and "returns m" and "quiet s"
  obtains r s' where "m s = Some (r, s')"
  using returnsD [OF assms(2,3)] by blast

lemma pairing_lands_disabled_witness:
  "\<exists>r s'. pair sample_service_env (\<lambda>_ s. s) (Inr Keyring) (Inr sample_pairing_result) (Inr ()) NoFault sample_snapshot
     (sample_service world_new) = Some (r, s') \<and>
     take 2 (sv_actions s') = [CoordinatorShutdown CConnectionRemoved, AuthorityDiscarded] \<and>
     CoordinatorStarted \<notin> set (sv_actions s')"
proof -
  have k: "keeps_quiet (\<lambda>_ s :: unit service. s)" by (simp add: keeps_quiet_def)
  obtain r s' where r: "pair sample_service_env (\<lambda>_ s. s) (Inr Keyring) (Inr sample_pairing_result) (Inr ()) NoFault
      sample_snapshot (sample_service world_new) = Some (r, s')"
    by (rule quiet_returns [OF k returns_pair [OF k] sample_service_facts(2)])
  from pairing_lands_disabled [OF r] r show ?thesis by (auto simp: sample_service_facts)
qed

lemma unpair_order_witness:
  "\<exists>r s'. unpair sample_service_env (\<lambda>_ s. s) NoFault False (lit ''sequence.json'') no_rw_fault NoFault
     (sample_service world_new) = Some (r, s') \<and> (sv_actions s' = [] \<longrightarrow> r \<noteq> Inr ())"
proof -
  have k: "keeps_quiet (\<lambda>_ s :: unit service. s)" by (simp add: keeps_quiet_def)
  obtain r s' where r: "unpair sample_service_env (\<lambda>_ s. s) NoFault False (lit ''sequence.json'') no_rw_fault NoFault
      (sample_service world_new) = Some (r, s')"
    by (rule quiet_returns [OF k returns_unpair [OF k] sample_service_facts(2)])
  from unpair_order [OF r] r show ?thesis by (auto simp: sample_service_facts)
qed

end
