(* ===== verification/App.thy ===== *)
theory App
  imports Service_Properties
begin

text \<open>
  The shell around the core (\<open>src/state.rs\<close>, \<open>src/commands.rs\<close>): the commands of the user
  interface, the snapshot it is shown, the memoized credential store, the recent applications and
  the callbacks that \<open>init\<close> registers. Window handling, the tray and the updater are not modelled.
\<close>

section \<open>State\<close>

record 'l app =
  app_service :: "'l service"
  app_credentials :: "credential_backend option option"
  app_media :: "bool option"
  app_recent :: "rstr list"
  app_exiting :: bool

definition RECENT_APP_IDS_MAX :: nat where
  "RECENT_APP_IDS_MAX = 10"

definition snapshot :: "rstr \<Rightarrow> 'l app \<Rightarrow> core_state_snapshot" where
  "snapshot app_version a =
     (let s = app_service a; config = the_config s
      in \<lparr>css_version = app_version, css_runtime_state = service_runtime_state s,
          css_connection = map_option (\<lambda>c.
            \<lparr>cs_base_url = base_url c, cs_device_id = device_id c, cs_device_name = device_name c,
             cs_scopes = scopes c, cs_live_desk_enabled = live_desk_enabled c\<rparr>) (connection config),
          css_privacy = privacy config, css_preview = sv_preview s,
          css_media_provider =
            \<lparr>mph_kind = (if app_media a \<noteq> None then Winrt else NoProvider),
             mph_healthy = (case app_media a of Some healthy \<Rightarrow> healthy | None \<Rightarrow> False),
             mph_detail = None\<rparr>,
          css_recent_app_ids = app_recent a,
          css_last_publish_at = last_publish_at (sv_telemetry s),
          css_last_error = last_error (sv_telemetry s)\<rparr>)"

text \<open>\<open>recent.retain; recent.insert(0); recent.truncate\<close>\<close>

definition remember_app :: "rstr \<Rightarrow> rstr list \<Rightarrow> rstr list" where
  "remember_app i recent = take RECENT_APP_IDS_MAX (i # filter (\<lambda>j. j \<noteq> i) recent)"

definition on_foreground_change :: "foreground_info option \<Rightarrow> 'l app \<Rightarrow> 'l app" where
  "on_foreground_change info a =
     (let a1 = (case info of Some f \<Rightarrow> a\<lparr>app_recent := remember_app (fg_app_id f) (app_recent a)\<rparr> | None \<Rightarrow> a);
          s = app_service a1
      in a1\<lparr>app_service := s\<lparr>sv_world := request_fresh_snapshot (sv_world s)\<rparr>\<rparr>)"

text \<open>
  The suspend detector's callback makes three separately locked calls: \<open>runtime_state\<close> reads the
  configuration and then the coordinator's state, and \<open>start\<close> is called on what it saw.
\<close>

datatype gap_phase = GapIdle | GapPaired | GapLive

fun gap_step :: "gap_phase \<Rightarrow> 'l app \<Rightarrow> gap_phase \<times> 'l app" where
  "gap_step GapIdle a = (if connection (the_config (app_service a)) = None then (GapIdle, a) else (GapPaired, a))"
| "gap_step GapPaired a =
     (let state = current_state (sv_world (app_service a))
      in if state = Active \<or> state = Degraded then (GapLive, a) else (GapIdle, a))"
| "gap_step GapLive a =
     (let s = app_service a in (GapIdle, a\<lparr>app_service := s\<lparr>sv_world := coord_start (sv_world s)\<rparr>\<rparr>))"

text \<open>
  The first call selects, pins the backend (a failed pin is ignored) and remembers the outcome,
  also a failed one; later calls return it. \<open>selected\<close> is what the selection gives.
\<close>

definition credentials_fn ::
  "'l service_env \<Rightarrow> io_fault \<Rightarrow> credential_store_error + credential_backend \<Rightarrow> 'l app \<Rightarrow>
   ((credential_store_error + credential_backend) \<times> 'l app) option" where
  "credentials_fn env flt selected a =
     (case app_credentials a of
        Some (Some b) \<Rightarrow> Some (Inr b, a)
      | Some None \<Rightarrow> Some (Inl NoBackend, a)
      | None \<Rightarrow>
          (case selected of
             Inl _ \<Rightarrow> Some (Inl NoBackend, a\<lparr>app_credentials := Some None\<rparr>)
           | Inr b \<Rightarrow>
               if cred_backend (the_config (app_service a)) = Some b
               then Some (Inr b, a\<lparr>app_credentials := Some (Some b)\<rparr>)
               else
                 (case sv_update env flt (\<lambda>c. c\<lparr>cred_backend := Some b\<rparr>) (app_service a) of
                    None \<Rightarrow> None
                  | Some (_, s) \<Rightarrow> Some (Inr b, a\<lparr>app_service := s, app_credentials := Some (Some b)\<rparr>))))"

text \<open>\<open>shutdown_blocking\<close>: only the first call does anything; the teardown races a budget.\<close>

definition shutdown_blocking :: "('l service \<Rightarrow> 'l service) \<Rightarrow> 'l app \<Rightarrow> 'l app" where
  "shutdown_blocking other a =
     (if app_exiting a then a
      else a\<lparr>app_exiting := True,
             app_service := snd (the (service_shutdown other (app_service a)))\<rparr>)"

section \<open>Commands\<close>

definition require_non_empty :: "rstr list \<Rightarrow> ('l, unit) svc" where
  "require_non_empty values =
     (if list_ex (\<lambda>v. v = []) values then sv_fail InvalidInput else sv_return ())"

record privacy_patch_defaults =
  ppd_application :: "privacy_default option"
  ppd_window_title :: "privacy_default option"
  ppd_media :: "privacy_default option"

record privacy_patch =
  ppt_defaults :: "privacy_patch_defaults option"
  ppt_share_window_titles :: "bool option"
  ppt_ignore_null_artist :: "bool option"

definition unwrap_or :: "'a option \<Rightarrow> 'a \<Rightarrow> 'a" where
  "unwrap_or v d = (case v of Some x \<Rightarrow> x | None \<Rightarrow> d)"

text \<open>\<open>config.update(..)\<close> followed by \<open>policy_maybe_changed()\<close>\<close>

definition change_privacy ::
  "'l service_env \<Rightarrow> 'l others \<Rightarrow> io_fault \<Rightarrow> (privacy_config \<Rightarrow> privacy_config) \<Rightarrow> ('l, unit) svc" where
  "change_privacy env others flt f =
     sv_bind (sv_update env flt (\<lambda>c. c\<lparr>privacy := f (privacy c)\<rparr>)) (\<lambda>_.
     sv_bind (interfere (others 0)) (\<lambda>_. policy_maybe_changed env (from_point 1 others)))"

definition patch_sources :: "bool option \<Rightarrow> bool option \<Rightarrow> privacy_config \<Rightarrow> privacy_config" where
  "patch_sources application media p =
     p\<lparr>sources := \<lparr>src_application = unwrap_or application (src_application (sources p)),
                    src_media = unwrap_or media (src_media (sources p))\<rparr>\<rparr>"

definition set_sources ::
  "'l service_env \<Rightarrow> 'l others \<Rightarrow> io_fault \<Rightarrow> bool option \<Rightarrow> bool option \<Rightarrow> ('l, unit) svc" where
  "set_sources env others flt application media = change_privacy env others flt (patch_sources application media)"

definition patch_privacy :: "privacy_patch \<Rightarrow> privacy_config \<Rightarrow> privacy_config" where
  "patch_privacy patch p =
     (let d = defaults p;
          d' = (case ppt_defaults patch of
                  None \<Rightarrow> d
                | Some q \<Rightarrow> \<lparr>def_application = unwrap_or (ppd_application q) (def_application d),
                             def_window_title = unwrap_or (ppd_window_title q) (def_window_title d),
                             def_media = unwrap_or (ppd_media q) (def_media d)\<rparr>)
      in p\<lparr>defaults := d',
           share_window_titles := unwrap_or (ppt_share_window_titles patch) (share_window_titles p),
           ignore_null_artist := unwrap_or (ppt_ignore_null_artist patch) (ignore_null_artist p)\<rparr>)"

definition set_privacy :: "'l service_env \<Rightarrow> 'l others \<Rightarrow> io_fault \<Rightarrow> privacy_patch \<Rightarrow> ('l, unit) svc" where
  "set_privacy env others flt patch = change_privacy env others flt (patch_privacy patch)"

definition put_rule :: "unicode \<Rightarrow> application_privacy_rule \<Rightarrow> privacy_config \<Rightarrow> privacy_config" where
  "put_rule u rule p =
     (let kept = filter (\<lambda>r. app_id r \<noteq> app_id rule) (rules p);
          all = (if is_empty_rule u rule then kept else kept @ [rule])
      in p\<lparr>rules := sort_key (\<lambda>r. utf16_units (app_id r)) all\<rparr>)"

definition upsert_rule ::
  "'l service_env \<Rightarrow> 'l others \<Rightarrow> io_fault \<Rightarrow> application_privacy_rule \<Rightarrow> ('l, unit) svc" where
  "upsert_rule env others flt rule =
     sv_bind (require_non_empty [app_id rule]) (\<lambda>_.
     change_privacy env others flt (put_rule (se_unicode env) (normalized_rule (se_unicode env) rule)))"

definition drop_rule :: "unicode \<Rightarrow> rstr \<Rightarrow> privacy_config \<Rightarrow> privacy_config" where
  "drop_rule u i p = (let needle = lowercase u i in p\<lparr>rules := filter (\<lambda>r. app_id r \<noteq> needle) (rules p)\<rparr>)"

definition delete_rule :: "'l service_env \<Rightarrow> 'l others \<Rightarrow> io_fault \<Rightarrow> rstr \<Rightarrow> ('l, unit) svc" where
  "delete_rule env others flt i =
     sv_bind (require_non_empty [i]) (\<lambda>_. change_privacy env others flt (drop_rule (se_unicode env) i))"

definition set_mappings :: "'l service_env \<Rightarrow> 'l others \<Rightarrow> io_fault \<Rightarrow> privacy_mapping list \<Rightarrow> ('l, unit) svc" where
  "set_mappings env others flt ms = change_privacy env others flt (\<lambda>p. p\<lparr>mappings := ms\<rparr>)"

definition cmd_confirm_consent ::
  "'l service_env \<Rightarrow> 'l others \<Rightarrow> confirm_inputs \<Rightarrow> rstr \<Rightarrow> ('l, unit) svc" where
  "cmd_confirm_consent env others inp fingerprint =
     sv_bind (require_non_empty [fingerprint]) (\<lambda>_. confirm_consent env others inp fingerprint)"

definition cmd_request_preview :: "'l others \<Rightarrow> sanitized_snapshot \<Rightarrow> ('l, unit) svc" where
  "cmd_request_preview others snap = sv_bind (refresh_preview others snap) (\<lambda>_. sv_return ())"

text \<open>The claim of \<open>pair\<close> runs with the three inputs of the command.\<close>

definition cmd_pair ::
  "'l service_env \<Rightarrow> surroundings \<Rightarrow> 'l others \<Rightarrow> credential_store_error + credential_backend \<Rightarrow>
   rstr + unit \<Rightarrow> reply \<Rightarrow> reply \<Rightarrow> credential_store_error + unit \<Rightarrow> io_fault \<Rightarrow> sanitized_snapshot \<Rightarrow>
   rstr \<Rightarrow> rstr \<Rightarrow> rstr \<Rightarrow> ('l, unit) svc" where
  "cmd_pair env surround others store ensure r1 r2 token_set flt snap base name code =
     sv_bind (require_non_empty [base, name, code]) (\<lambda>_.
     pair env others store (snd (claim_pairing (se_unicode env) surround base name code ensure r1 r2))
       token_set flt snap)"

section \<open>The gate tracks the policy in force\<close>

text \<open>
  Between two operations the fingerprint of the gate is the fingerprint of the configured policy,
  and the shown preview and the confirmation of the gate belong together.
\<close>

definition tracked :: "'l service_env \<Rightarrow> 'l service \<Rightarrow> bool" where
  "tracked env s \<longleftrightarrow>
     cg_fingerprint (sv_gate s) = capture_fingerprint env s \<and>
     (sv_preview s = None \<and> cg_confirmation (sv_gate s) = None \<or>
      (\<exists>p t. sv_preview s = Some \<lparr>projection = p, policy_fp = capture_fingerprint env s, preview_observed_at = t\<rparr> \<and>
         cg_confirmation (sv_gate s) = Some \<lparr>cf_policy_fingerprint = capture_fingerprint env s, cf_projection = p\<rparr>))"

definition sound_state :: "'l service_env \<Rightarrow> 'l service \<Rightarrow> bool" where
  "sound_state env s \<longleftrightarrow> quiet s \<and> tracked env s"

definition keeps :: "('l service \<Rightarrow> bool) \<Rightarrow> ('l, 'a) svc \<Rightarrow> bool" where
  "keeps P m \<longleftrightarrow> (\<forall>s r s'. P s \<longrightarrow> m s = Some (r, s') \<longrightarrow> P s')"

lemma keeps_bind: "keeps P m \<Longrightarrow> (\<And>x. keeps P (f x)) \<Longrightarrow> keeps P (sv_bind m f)"
  unfolding keeps_def sv_bind_Some by blast

lemma keeps_simple:
  "keeps P (sv_return x)" "keeps P (sv_fail e)" "keeps P (sv_read h)"
  by (simp_all add: keeps_def sv_ends)

lemma keeps_modify: "(\<And>s. P s \<Longrightarrow> P (h s)) \<Longrightarrow> keeps P (sv_modify h)"
  by (simp add: keeps_def sv_ends)

lemma tracked_fields [simp]:
  "tracked env (s\<lparr>sv_actions := a\<rparr>) = tracked env s" "tracked env (s\<lparr>sv_world := w\<rparr>) = tracked env s"
  "tracked env (s\<lparr>sv_disk := d\<rparr>) = tracked env s" "tracked env (s\<lparr>sv_telemetry := t\<rparr>) = tracked env s"
  by (simp_all add: tracked_def capture_fingerprint_def)

lemma keeps_sound_steps:
  "keeps (sound_state env) (act a)" "keeps (sound_state env) (on_world w)"
  "keeps (sound_state env) (interfere (\<lambda>s. s))"
  unfolding act_def on_world_def interfere_def
  by (rule keeps_modify; simp add: sound_state_def)+

lemma keeps_ask: "keeps (sound_state env) (ask_gate c p)"
  and keeps_fingerprint: "keeps (sound_state env) (read_fingerprint e)"
  by (auto simp: keeps_def ask_gate_ends read_fingerprint_ends sound_state_def)

lemma keeps_stop: "keeps (sound_state env) (stop_coordinator reason (\<lambda>s. s))"
  and keeps_start: "keeps (sound_state env) start_coordinator"
  and keeps_drop: "keeps (sound_state env) drop_authority"
  unfolding stop_coordinator_def start_coordinator_def drop_authority_def
  by (intro keeps_bind keeps_sound_steps)+

lemma sv_update_sound:
  assumes "quiet s" and "sv_update env flt f s = Some (r, s')"
  shows "quiet s' \<and> sv_gate s' = sv_gate s \<and> sv_preview s' = sv_preview s \<and>
    (r = Inl Internal \<and> the_config s' = the_config s \<or> r = Inr () \<and> the_config s' = f (the_config s))"
  using assms(1)
  by (cases rule: quiet_update_ends [of s env flt f]) (use assms in auto)

lemma keeps_update:
  assumes "\<And>c. privacy (f c) = privacy c"
  shows "keeps (sound_state env) (sv_update e flt f)"
  unfolding keeps_def
proof (intro allI impI)
  fix s r s'
  assume "sound_state env s" "sv_update e flt f s = Some (r, s')"
  then have "quiet s" "tracked env s" and u: "sv_update e flt f s = Some (r, s')" by (simp_all add: sound_state_def)
  from sv_update_sound [OF \<open>quiet s\<close> u] assms have "privacy (the_config s') = privacy (the_config s)" by auto
  with sv_update_sound [OF \<open>quiet s\<close> u] \<open>tracked env s\<close> show "sound_state env s'"
    by (simp add: sound_state_def tracked_def capture_fingerprint_def)
qed

lemma refresh_sound: "keeps (sound_state env) (refresh_preview (\<lambda>_ s. s) snap)"
  by (auto simp: keeps_def refresh_preview_def segment_ends Let_def sound_state_def tracked_def gate_record_def
      capture_fingerprint_def)

lemma reject_sound: "keeps (sound_state env) (reject_with_fresh_basis (\<lambda>_ s. s) snap)"
  unfolding reject_with_fresh_basis_def by (intro keeps_bind refresh_sound keeps_simple)

lemma from_point_identity [simp]: "from_point n (\<lambda>_ s. s) = (\<lambda>_ s. s)"
  by (simp add: from_point_def fun_eq_iff)

text \<open>A policy check puts the gate back in step after any change of the configuration.\<close>

lemma policy_maybe_changed_sound:
  assumes "quiet s" and "policy_maybe_changed env (\<lambda>_ s. s) s = Some (r, s')"
    and "cg_fingerprint (sv_gate s) = capture_fingerprint env s \<Longrightarrow> tracked env s"
  shows "r = Inr () \<and> sound_state env s'"
  using assms
  by (auto simp: policy_maybe_changed_def segment_ends sound_state_def tracked_def policy_did_change_def
      capture_fingerprint_def split: if_splits)

lemma change_privacy_sound: "keeps (sound_state env) (change_privacy env (\<lambda>_ s. s) flt f)"
  unfolding keeps_def
proof (intro allI impI)
  fix s r s'
  assume s: "sound_state env s" and run: "change_privacy env (\<lambda>_ s. s) flt f s = Some (r, s')"
  let ?g = "\<lambda>c. c\<lparr>privacy := f (privacy c)\<rparr>"
  have q: "quiet s" and t: "tracked env s" using s by (simp_all add: sound_state_def)
  obtain r1 s1 where u: "sv_update env flt ?g s = Some (r1, s1)"
    using run by (auto simp: change_privacy_def sv_bind_Some)
  note after = sv_update_sound [OF q u]
  have t1: "tracked env s1" if "cg_fingerprint (sv_gate s1) = capture_fingerprint env s1"
    using that after t by (auto simp: tracked_def)
  show "sound_state env s'"
  proof (cases r1)
    case (Inl e)
    then have "s' = s1" using run u by (auto simp: change_privacy_def sv_bind_def)
    moreover have "capture_fingerprint env s1 = capture_fingerprint env s"
      using after Inl by (auto simp: capture_fingerprint_def)
    then have "tracked env s1" using t1 after t by (simp add: tracked_def)
    ultimately show ?thesis using after by (simp add: sound_state_def)
  next
    case (Inr x)
    then have "policy_maybe_changed env (\<lambda>_ s. s) s1 = Some (r, s')"
      using run u by (auto simp: change_privacy_def sv_bind_def interfere_def sv_modify_def)
    then show ?thesis using policy_maybe_changed_sound [of s1 env r s'] after t1 by blast
  qed
qed

lemma keeps_if: "keeps P m \<Longrightarrow> keeps P n \<Longrightarrow> keeps P (if b then m else n)"
  by simp

lemma keeps_require: "keeps P (require_non_empty vs)"
  unfolding require_non_empty_def by (intro keeps_if keeps_simple)

lemma set_live_desk_privacy: "privacy (set_live_desk b c) = privacy c"
  by simp

lemmas keeps_parts =
  keeps_bind keeps_simple keeps_sound_steps keeps_ask keeps_fingerprint keeps_stop keeps_start keeps_drop
  keeps_update [OF set_live_desk_privacy] reject_sound refresh_sound change_privacy_sound keeps_require

lemma confirm_sound: "keeps (sound_state env) (confirm_consent env (\<lambda>_ s. s) inp ui)"
proof -
  have "keeps (sound_state env) (roll_back env (\<lambda>_ s. s) inp)"
    unfolding roll_back_def by (intro keeps_parts)
  then have "keeps (sound_state env) (confirm_persisted env (\<lambda>_ s. s) inp ui c)" for c
    unfolding confirm_persisted_def by (auto intro!: keeps_parts)
  then show ?thesis
    unfolding confirm_consent_def Let_def by (auto intro!: keeps_parts split: option.split)
qed

lemma pair_sound: "keeps (sound_state env) (pair env (\<lambda>_ s. s) store claimed token_set flt snap)"
proof -
  have u: "keeps (sound_state env)
      (sv_update env flt (\<lambda>c. c\<lparr>cred_backend := b, connection := x\<rparr>))" for b x
    by (rule keeps_update) simp
  show ?thesis
    unfolding pair_def by (auto intro!: keeps_parts u split: sum.split)
qed

lemma disable_sound: "keeps (sound_state env) (disable_live_desk env (\<lambda>_ s. s) flt)"
  unfolding disable_live_desk_def by (intro keeps_parts)

lemma remove_sequence_sound: "keeps (sound_state env) (remove_sequence p flt dev)"
  by (auto simp: keeps_def remove_sequence_def act_ends sound_state_def split: prod.splits sum.splits)

lemma unpair_sound: "keeps (sound_state env) (unpair env (\<lambda>_ s. s) flt1 deleted p flt2 flt3)"
proof -
  have u: "keeps (sound_state env) (sv_update env flt3 (\<lambda>c. c\<lparr>connection := None\<rparr>))"
    by (rule keeps_update) simp
  have tail: "keeps (sound_state env)
     (sv_bind (sv_modify (\<lambda>s. s\<lparr>sv_gate := gate_clear (sv_gate s)\<rparr>)) (\<lambda>_.
      sv_bind (interfere (\<lambda>s. s)) (\<lambda>_.
      sv_bind (sv_modify (\<lambda>s. s\<lparr>sv_preview := None\<rparr>)) (\<lambda>_. act Changed))))"
    by (auto simp: keeps_def segment_ends sound_state_def tracked_def gate_clear_def capture_fingerprint_def)
  have "keeps (sound_state env) (unpair_forget env (\<lambda>_ s. s) p flt2 flt3 dev)" for dev
    unfolding unpair_forget_def
    by (rule keeps_bind [OF remove_sequence_sound], rule keeps_bind [OF keeps_sound_steps(3)],
        rule keeps_bind [OF u], rule keeps_bind [OF keeps_sound_steps(3)], rule tail)
  then have "keeps (sound_state env) (unpair_connected env (\<lambda>_ s. s) flt1 deleted p flt2 flt3 c)" for c
    unfolding unpair_connected_def by (intro keeps_parts)
  then show ?thesis
    unfolding unpair_def by (auto intro!: keeps_parts split: option.split)
qed

section \<open>Histories of commands\<close>

datatype app_command =
    SetSources io_fault "bool option" "bool option"
  | SetPrivacy io_fault privacy_patch
  | UpsertRule io_fault application_privacy_rule
  | DeleteRule io_fault rstr
  | SetMappings io_fault "privacy_mapping list"
  | RequestPreview sanitized_snapshot
  | Confirm confirm_inputs rstr
  | PairWith "credential_store_error + credential_backend" "claim_pairing_error + pairing_result"
      "credential_store_error + unit" io_fault sanitized_snapshot
  | Unpair io_fault bool path rw_fault io_fault
  | Disable io_fault

fun command_with :: "'l service_env \<Rightarrow> 'l others \<Rightarrow> app_command \<Rightarrow> ('l, unit) svc" where
  "command_with env others (SetSources flt a m) = set_sources env others flt a m"
| "command_with env others (SetPrivacy flt p) = set_privacy env others flt p"
| "command_with env others (UpsertRule flt r) = upsert_rule env others flt r"
| "command_with env others (DeleteRule flt i) = delete_rule env others flt i"
| "command_with env others (SetMappings flt ms) = set_mappings env others flt ms"
| "command_with env others (RequestPreview snap) = cmd_request_preview others snap"
| "command_with env others (Confirm inp ui) = cmd_confirm_consent env others inp ui"
| "command_with env others (PairWith store claimed ts flt snap) = pair env others store claimed ts flt snap"
| "command_with env others (Unpair f1 del p f2 f3) = unpair env others f1 del p f2 f3"
| "command_with env others (Disable flt) = disable_live_desk env others flt"

abbreviation run_command :: "'l service_env \<Rightarrow> app_command \<Rightarrow> ('l, unit) svc" where
  "run_command env \<equiv> command_with env (\<lambda>_ s. s)"

fun run_commands :: "'l service_env \<Rightarrow> app_command list \<Rightarrow> 'l service \<Rightarrow> 'l service option" where
  "run_commands env [] s = Some s"
| "run_commands env (c # cs) s = Option.bind (run_command env c s) (\<lambda>(_, s'). run_commands env cs s')"

lemma run_command_sound: "keeps (sound_state env) (run_command env c)"
  by (cases c)
    (auto simp: set_sources_def set_privacy_def upsert_rule_def delete_rule_def set_mappings_def
      cmd_request_preview_def cmd_confirm_consent_def
      intro: keeps_parts confirm_sound pair_sound unpair_sound disable_sound)

lemma keeps_quiet_identity [simp]: "keeps_quiet (\<lambda>_ s. s)"
  by (simp add: keeps_quiet_def)

lemma returns_change: "returns (change_privacy env (\<lambda>_ s. s) flt f)"
  unfolding change_privacy_def by (auto intro!: returns_parts returns_policy_maybe_changed)

lemma returns_require: "returns (require_non_empty vs)"
  unfolding require_non_empty_def by (intro returns_if returns_simple)

lemma returns_command: "returns (run_command env c)"
  by (cases c)
    (auto simp: set_sources_def set_privacy_def upsert_rule_def delete_rule_def set_mappings_def
      cmd_request_preview_def cmd_confirm_consent_def
      intro!: returns_bind returns_change returns_require returns_simple returns_refresh returns_confirm
        returns_pair returns_unpair returns_disable)

lemma run_commands_sound:
  "sound_state env s \<Longrightarrow> \<exists>s'. run_commands env cs s = Some s' \<and> sound_state env s'"
proof (induction cs arbitrary: s)
  case (Cons c cs)
  obtain r s1 where s1: "run_command env c s = Some (r, s1)"
    using returnsD [OF returns_command, of s env c] Cons.prems by (auto simp: sound_state_def)
  have "sound_state env s1" using run_command_sound [of env c] Cons.prems s1 by (auto simp: keeps_def)
  then show ?case using Cons.IH s1 by simp
qed simp

lemma service_new_sound:
  "cst_listeners st = [] \<Longrightarrow> \<not> cst_update_held st \<Longrightarrow> sound_state env (service_new env st d)"
  by (simp add: sound_state_def quiet_def tracked_def service_new_def gate_new_def capture_fingerprint_def
      the_config_def)

text \<open>
  C11: consent always refers to the policy in force. After any sequence of commands of the user
  interface, with any failing writes, the gate holds the fingerprint of the configured policy,
  and a preview is shown exactly when the gate holds a confirmation, of the same projection and
  under that fingerprint. Every command returns.
\<close>

theorem consent_tracks_policy:
  assumes "cst_listeners st = []" and "\<not> cst_update_held st"
  shows "\<exists>s. run_commands env cs (service_new env st d) = Some s \<and>
    cg_fingerprint (sv_gate s) = capture_fingerprint env s \<and>
    (case sv_preview s of
       None \<Rightarrow> cg_confirmation (sv_gate s) = None
     | Some v \<Rightarrow> policy_fp v = capture_fingerprint env s \<and>
         cg_confirmation (sv_gate s) =
           Some \<lparr>cf_policy_fingerprint = capture_fingerprint env s, cf_projection = projection v\<rparr>)"
proof -
  obtain s where "run_commands env cs (service_new env st d) = Some s" "sound_state env s"
    using run_commands_sound [OF service_new_sound [OF assms]] by blast
  then show ?thesis by (auto simp: sound_state_def tracked_def)
qed

lemma consent_tracks_policy_witness:
  "\<exists>s. run_commands sample_service_env [RequestPreview sample_snapshot, SetSources NoFault (Some False) None]
      (service_new sample_service_env (sv_store (sample_service world_new)) (\<lambda>_. None)) = Some s \<and>
    cg_fingerprint (sv_gate s) = hex_lower [0]"
proof -
  have q: "cst_listeners (sv_store (sample_service world_new)) = []" "\<not> cst_update_held (sv_store (sample_service world_new))"
    by (simp_all add: sample_service_def)
  from consent_tracks_policy [OF q, of sample_service_env
      "[RequestPreview sample_snapshot, SetSources NoFault (Some False) None]" "\<lambda>_. None"]
  show ?thesis by (auto simp: sample_fingerprint)
qed

section \<open>Privacy rules\<close>

text \<open>The rules of a policy that only the commands have written: normalized, one per application.\<close>

definition rules_normalized :: "unicode \<Rightarrow> privacy_config \<Rightarrow> bool" where
  "rules_normalized u p \<longleftrightarrow>
     (\<forall>r \<in> set (rules p). normalize_app_id u (app_id r) = app_id r) \<and> distinct (map app_id (rules p))"

lemma sort_key_distinct_map: "distinct (map f (sort_key k xs)) = distinct (map f xs)"
  by (rule mset_eq_imp_distinct_iff) simp

lemma option_ext: "(\<And>x. a = Some x \<longleftrightarrow> b = Some x) \<Longrightarrow> a = b"
  by (cases a; cases b) auto

lemma put_rule_rules:
  "set (rules (put_rule u rule p)) =
     {r \<in> set (rules p). app_id r \<noteq> app_id rule} \<union> (if is_empty_rule u rule then {} else {rule})"
  by (auto simp: put_rule_def Let_def)

lemma find_rule_unique:
  assumes "rules_normalized u p"
  shows "find_rule u p i = Some r \<longleftrightarrow> r \<in> set (rules p) \<and> app_id r = normalize_app_id u i"
proof
  assume "find_rule u p i = Some r"
  then show "r \<in> set (rules p) \<and> app_id r = normalize_app_id u i"
    using find_rule_Some assms by (fastforce simp: rules_normalized_def)
next
  assume r: "r \<in> set (rules p) \<and> app_id r = normalize_app_id u i"
  then have "find_rule u p i \<noteq> None" using assms by (auto simp: find_rule_None rules_normalized_def)
  then obtain r' where r': "find_rule u p i = Some r'" by blast
  then have "r' \<in> set (rules p)" "app_id r' = app_id r"
    using find_rule_Some [OF r'] assms r by (auto simp: rules_normalized_def)
  then have "r' = r" using assms r by (metis inj_on_eq_iff inj_on_map_eq_map distinct_map rules_normalized_def)
  with r' show "find_rule u p i = Some r" by simp
qed

text \<open>
  C37: a rule written by the command is the rule that decides. On a policy whose rules are
  normalized, upserting a rule keeps them normalized with one rule per application, makes it the
  rule found for every spelling of its application (or removes it, when it says nothing), and
  leaves the rules of all other applications as they were.
\<close>

theorem upsert_rule_decides:
  assumes "rules_normalized u p" and "normalize_app_id u (normalize_app_id u (app_id r)) = normalize_app_id u (app_id r)"
  shows "rules_normalized u (put_rule u (normalized_rule u r) p) \<and>
    find_rule u (put_rule u (normalized_rule u r) p) i =
      (if normalize_app_id u i = normalize_app_id u (app_id r)
       then (if is_empty_rule u (normalized_rule u r) then None else Some (normalized_rule u r))
       else find_rule u p i)"
proof -
  let ?n = "normalized_rule u r" and ?q = "put_rule u (normalized_rule u r) p"
  have idn: "app_id ?n = normalize_app_id u (app_id r)" by (simp add: normalized_rule_def)
  have "distinct (map app_id (filter (\<lambda>x. app_id x \<noteq> app_id ?n) (rules p)))"
    using assms(1) by (auto simp: rules_normalized_def intro: distinct_map_filter)
  then have "distinct (map app_id (rules ?q))"
    by (auto simp: put_rule_def Let_def sort_key_distinct_map)
  then have q: "rules_normalized u ?q"
    using assms idn by (auto simp: rules_normalized_def put_rule_rules)
  have "find_rule u ?q i = (if normalize_app_id u i = app_id ?n
      then (if is_empty_rule u ?n then None else Some ?n) else find_rule u p i)"
  proof (rule option_ext)
    fix x
    show "find_rule u ?q i = Some x \<longleftrightarrow> (if normalize_app_id u i = app_id ?n
        then (if is_empty_rule u ?n then None else Some ?n) else find_rule u p i) = Some x"
      unfolding find_rule_unique [OF q] put_rule_rules using find_rule_unique [OF assms(1), of i x] by auto
  qed
  with q idn show ?thesis by simp
qed

lemma normalize_ascii: "normalize_app_id ascii_unicode i = map ascii_lower_char (trim_matches is_js_whitespace i)"
  by (simp add: normalize_app_id_def ascii_unicode_def js_trim_def)

definition sample_upper_rule :: application_privacy_rule where
  "sample_upper_rule = \<lparr>app_id = lit ''Code.exe'', rule_application = OShare, rule_window_title = Inherit,
     rule_media = Inherit, display_alias = None\<rparr>"

lemma sample_upper_id: "normalize_app_id ascii_unicode (lit ''Code.exe'') = lit ''code.exe''"
    "normalize_app_id ascii_unicode (lit ''code.exe'') = lit ''code.exe''"
  by (simp_all add: normalize_ascii trim_matches_def is_js_whitespace_def lit_def ascii_lower_char_def)

lemma upsert_rule_decides_witness:
  "find_rule ascii_unicode (put_rule ascii_unicode (normalized_rule ascii_unicode sample_upper_rule) default_privacy_config)
     (lit ''code.exe'') = Some (normalized_rule ascii_unicode sample_upper_rule)"
proof -
  have "rules_normalized ascii_unicode default_privacy_config"
    by (simp add: rules_normalized_def default_privacy_config_def)
  moreover have "normalize_app_id ascii_unicode (normalize_app_id ascii_unicode (app_id sample_upper_rule)) =
      normalize_app_id ascii_unicode (app_id sample_upper_rule)"
    by (simp add: sample_upper_rule_def sample_upper_id)
  moreover have "normalize_app_id ascii_unicode (lit ''code.exe'') = normalize_app_id ascii_unicode (app_id sample_upper_rule)"
    by (simp add: sample_upper_rule_def sample_upper_id)
  moreover have "\<not> is_empty_rule ascii_unicode (normalized_rule ascii_unicode sample_upper_rule)"
    by (simp add: is_empty_rule_def normalized_rule_def sample_upper_rule_def)
  ultimately show ?thesis
    using upsert_rule_decides [of ascii_unicode default_privacy_config sample_upper_rule "lit ''code.exe''"] by simp
qed

text \<open>
  The configuration file may hold a rule whose application is not normalized: it is valid, it is
  looked up by its normalized id, but the command compares raw ids. Then the rule the user has
  just written does not decide, because the old one sorts before it, and deleting it does nothing.
\<close>

definition stale_policy :: privacy_config where
  "stale_policy = default_privacy_config\<lparr>rules := [sample_upper_rule]\<rparr>"

definition hiding_rule :: application_privacy_rule where
  "hiding_rule = \<lparr>app_id = lit ''code.exe'', rule_application = OHide, rule_window_title = Inherit,
     rule_media = Inherit, display_alias = None\<rparr>"

theorem unnormalized_rule_survives:
  "find_rule ascii_unicode (put_rule ascii_unicode (normalized_rule ascii_unicode hiding_rule) stale_policy)
     (lit ''code.exe'') = Some sample_upper_rule \<and>
   effective_application ascii_unicode
     (put_rule ascii_unicode (normalized_rule ascii_unicode hiding_rule) stale_policy) (lit ''code.exe'') = DShare \<and>
   drop_rule ascii_unicode (lit ''Code.exe'') stale_policy = stale_policy"
proof -
  let ?h = "normalized_rule ascii_unicode hiding_rule"
  have h: "?h = hiding_rule" by (simp add: normalized_rule_def hiding_rule_def sample_upper_id)
  have "\<not> utf16_units (lit ''code.exe'') < utf16_units (lit ''Code.exe'')"
    by (simp add: lit_def utf16_def)
  then have put: "rules (put_rule ascii_unicode ?h stale_policy) = [sample_upper_rule, hiding_rule]"
    unfolding h
    by (simp add: put_rule_def stale_policy_def sample_upper_rule_def hiding_rule_def is_empty_rule_def Let_def
        default_privacy_config_def)
  then have find: "find_rule ascii_unicode (put_rule ascii_unicode ?h stale_policy) (lit ''code.exe'') = Some sample_upper_rule"
    by (simp add: find_rule_def Let_def sample_upper_rule_def sample_upper_id)
  moreover have "drop_rule ascii_unicode (lit ''Code.exe'') stale_policy = stale_policy"
    by (simp add: drop_rule_def Let_def stale_policy_def sample_upper_rule_def default_privacy_config_def ascii_unicode_def
        lit_def ascii_lower_char_def)
  ultimately show ?thesis
    by (simp add: effective_application_def sample_upper_rule_def)
qed

end
