(* ===== verification/Coordinator_Calls.thy ===== *)
theory Coordinator_Calls
  imports Coordinator_Properties
begin

text \<open>
  What the callers of the coordinator can rely on between their calls: a coordinator that is
  suspended, disabled or out of date stays quiet until \<open>start\<close> or \<open>handle_wake_or_unlock\<close> is called;
  one whose negotiations find Live Desk disabled stays dark even then; what is published is what the
  captures gave; and the schedule in which a second lock does not count.
\<close>

section \<open>Dormant worlds\<close>

definition dormant_states :: "runtime_state set" where
  "dormant_states = {Disabled, Suspended, UpdateRequired}"

fun is_wake :: "task \<Rightarrow> bool" where
  "is_wake (WakeJoin _) \<longleftrightarrow> True"
| "is_wake _ \<longleftrightarrow> False"

text \<open>A publish that has passed its last check and has not been sent.\<close>

fun is_checked :: "task \<Rightarrow> bool" where
  "is_checked (Refresh _ (RSend _ _ _)) \<longleftrightarrow> True"
| "is_checked _ \<longleftrightarrow> False"

fun is_publish :: "event \<Rightarrow> bool" where
  "is_publish (PublishSent _ _ _) \<longleftrightarrow> True"
| "is_publish _ \<longleftrightarrow> False"

definition publishes :: "world \<Rightarrow> nat" where
  "publishes w = length (filter is_publish (w_log w))"

definition dormant :: "world \<Rightarrow> bool" where
  "dormant w \<longleftrightarrow> lifecycle_ok w \<and> coord_state (w_inner w) \<in> dormant_states \<and> count_tasks is_wake (tasks w) = 0"

lemma dormant_not_current:
  assumes "dormant w" and "i < length (tasks w)" and "task_generation (tasks w ! i) = Some g"
  shows "g \<noteq> generation (w_inner w)"
proof -
  have "task_ok (generation (w_inner w)) (coord_state (w_inner w)) (tasks w ! i)"
    using assms(1,2) by (auto simp: dormant_def intro: lifecycle_task)
  from task_ok_quiet [OF this] show ?thesis
    using assms(1,3) by (auto simp: dormant_def dormant_states_def)
qed

lemma dormant_no_wake: "dormant w \<Longrightarrow> i < length (tasks w) \<Longrightarrow> tasks w ! i \<noteq> WakeJoin h"
  by (auto simp: dormant_def dest: count_tasks_pos [where P = is_wake])

lemma publishes_simps [simp]:
  "publishes (on_inner f w) = publishes w" "publishes (goto i t w) = publishes w"
  "publishes (snd (spawn t w)) = publishes w" "publishes (abort h w) = publishes w"
  "publishes (snd (spawn_clear_best_effort cl r d w)) = publishes w"
  "publishes (log_event e w) = publishes w + (if is_publish e then 1 else 0)"
  "publishes (w\<lparr>w_clock := x\<rparr>) = publishes w"
  by (simp_all add: publishes_def)

lemma publishes_state [simp]:
  "publishes (set_state_locked st w) = publishes w" "publishes (begin_new_generation_locked st w) = publishes w"
  by (simp_all add: set_state_locked_def begin_new_generation_locked_def Let_def)

lemma publishes_start [simp]: "publishes (start_locked w) = publishes w"
  by (simp add: start_locked_def Let_def)

text \<open>What is kept of the tasks and the log: no capture, no more publishes than were checked.\<close>

definition quieter :: "world \<Rightarrow> world \<Rightarrow> bool" where
  "quieter w w' \<longleftrightarrow>
     coord_state (w_inner w') \<in> dormant_states \<and> count_tasks is_wake (tasks w') = 0 \<and> captures w' = captures w \<and>
     publishes w' + count_tasks is_checked (tasks w') \<le> publishes w + count_tasks is_checked (tasks w)"

lemma dormant_step:
  assumes "coord_step_in (- {StartCall, WakeCall}) u env tm w w'" and dormant: "dormant w"
  shows "quieter w w'"
proof -
  have st: "coord_state (w_inner w) \<in> dormant_states" and wakes: "count_tasks is_wake (tasks w) = 0"
    using dormant by (simp_all add: dormant_def)
  have inactive: "coord_state (w_inner w) \<noteq> Active" "coord_state (w_inner w) \<noteq> Degraded"
    using st by (auto simp: dormant_states_def)
  note stale = dormant_not_current [OF dormant] and awake = dormant_no_wake [OF dormant]
  have set: "Disabled \<in> dormant_states" "Suspended \<in> dormant_states"
    by (simp_all add: dormant_states_def)
  from assms(1) show ?thesis
  proof cases
    case (StepSend i gen c s l)
    then show ?thesis
      using st wakes count_tasks_pos [of i "tasks w" is_checked]
      by (auto simp: quieter_def refresh_send_def)
  next
    case (StepWake i h)
    then show ?thesis using awake by blast
  next
    case (StepConfigureCapabilities i gen c t url r)
    then have "w' = goto i Finished w" using stale by (simp add: configure_capabilities_def)
    then show ?thesis using st wakes StepConfigureCapabilities by (simp add: quieter_def)
  qed (use st wakes inactive set stale in \<open>auto simp: quieter_def coord_segment_defs Let_def case_prod_beta
      list_update_append split: option.split\<close>)
qed

lemma dormant_run:
  assumes "(coord_step_in (- {StartCall, WakeCall}) u env tm)\<^sup>*\<^sup>* w w'" and "dormant w"
  shows "quieter w w' \<and> dormant w'"
  using assms
proof induction
  case base
  then show ?case by (simp add: quieter_def dormant_def)
next
  case (step w1 w2)
  then have "quieter w1 w2" "lifecycle_ok w2"
    by (auto intro: dormant_step lifecycle_step coord_step_mono simp: dormant_def)
  then show ?case using step by (auto simp: quieter_def dormant_def)
qed

lemma at_most_one_checked:
  assumes "coord_reachable u env tm w"
  shows "count_tasks is_checked (tasks w) \<le> 1"
proof -
  have "is_refresh t" if "is_checked t" for t
    using that by (cases t rule: is_checked.cases) simp_all
  then have "count_tasks is_checked ts \<le> count_tasks is_refresh ts" for ts
    by (induction ts) auto
  then show ?thesis using one_refresh_loop [OF assms] le_trans by blast
qed

text \<open>
  A coordinator that is not wanted stays quiet. From a suspended, disabled or outdated world with no
  wake in flight it stays in these states and captures nothing until it is started or woken; at most
  one publish still leaves, the one that had passed its last check.
\<close>

lemma dormant_world:
  assumes "coord_reachable u env tm w" and "coord_state (w_inner w) \<in> {Disabled, Suspended, UpdateRequired}"
    and "\<forall>h. WakeJoin h \<notin> set (tasks w)"
  shows "dormant w"
proof -
  have "\<not> is_wake t" if "t \<in> set (tasks w)" for t
    using that assms(3) by (cases t rule: is_wake.cases) auto
  then show ?thesis
    using lifecycle_reachable [OF assms(1)] assms(2)
    by (auto simp: dormant_def dormant_states_def count_tasks_def filter_empty_conv)
qed

lemma dormant_world_quiet:
  assumes "coord_reachable u env tm w" and "dormant w"
    and "(coord_step_in (- {StartCall, WakeCall}) u env tm)\<^sup>*\<^sup>* w w'"
  shows "coord_state (w_inner w') \<in> {Disabled, Suspended, UpdateRequired} \<and> captures w' = captures w \<and>
    publishes w' \<le> publishes w + count_tasks is_checked (tasks w) \<and> count_tasks is_checked (tasks w) \<le> 1"
  using dormant_run [OF assms(3,2)] at_most_one_checked [OF assms(1)] by (auto simp: quieter_def dormant_states_def)

section \<open>Negotiations that Live Desk forbids\<close>

text \<open>
  While every connection that a negotiation reads has Live Desk disabled (or there is none), no
  negotiation passes its gate: a coordinator that is not publishing may be started and woken, and
  falls back to \<open>Disabled\<close>.
\<close>

definition enabled_reads :: "coord_call set" where
  "enabled_reads = {GateRead (Some c) | c. live_desk_enabled c}"

fun past_gate :: "task \<Rightarrow> nat option" where
  "past_gate (Configure gen (CfgToken _)) = Some gen"
| "past_gate (Configure gen (CfgCapabilities _ _ _)) = Some gen"
| "past_gate _ = None"

definition unlit_states :: "runtime_state set" where
  "unlit_states = {Disabled, Suspended, UpdateRequired, Connecting}"

definition unlit :: "world \<Rightarrow> bool" where
  "unlit w \<longleftrightarrow> lifecycle_ok w \<and> coord_state (w_inner w) \<in> unlit_states \<and>
     list_all (\<lambda>t. past_gate t \<noteq> Some (generation (w_inner w))) (tasks w)"

text \<open>What a step of an unlit world keeps, besides the tasks' consistency with the state.\<close>

definition dimmer :: "world \<Rightarrow> world \<Rightarrow> bool" where
  "dimmer w w' \<longleftrightarrow>
     coord_state (w_inner w') \<in> unlit_states \<and>
     list_all (\<lambda>t. past_gate t \<noteq> Some (generation (w_inner w'))) (tasks w') \<and> captures w' = captures w \<and>
     publishes w' + count_tasks is_checked (tasks w') \<le> publishes w + count_tasks is_checked (tasks w)"

lemma no_future_gate:
  assumes "lifecycle_ok w"
  shows "list_all (\<lambda>t. past_gate t \<noteq> Some (Suc (generation (w_inner w)))) (tasks w)"
proof -
  have "past_gate t \<noteq> Some (Suc g)" if "task_ok g st t" for t g st
    using that by (cases t rule: past_gate.cases) auto
  then show ?thesis using assms by (auto simp: lifecycle_ok_def list_all_iff)
qed

text \<open>The program points before the read of the connection.\<close>

fun before_gate :: "task \<Rightarrow> bool" where
  "before_gate (Configure _ CfgEntry) \<longleftrightarrow> True"
| "before_gate (Configure _ CfgGate) \<longleftrightarrow> True"
| "before_gate _ \<longleftrightarrow> False"

lemma unlit_not_current:
  assumes "unlit w" and "i < length (tasks w)" and "\<not> before_gate (tasks w ! i)" and "task_generation (tasks w ! i) = Some g"
  shows "g \<noteq> generation (w_inner w)"
proof -
  have ok: "task_ok (generation (w_inner w)) (coord_state (w_inner w)) (tasks w ! i)"
    "past_gate (tasks w ! i) \<noteq> Some (generation (w_inner w))"
    using assms(1,2) by (auto simp: unlit_def list_all_length intro: lifecycle_task)
  have "coord_state (w_inner w) \<noteq> Active" "coord_state (w_inner w) \<noteq> Degraded"
    "coord_state (w_inner w) \<noteq> ServerFeatureUnavailable"
    using assms(1) by (auto simp: unlit_def unlit_states_def)
  then show ?thesis using ok assms(3,4) by (cases "tasks w ! i" rule: before_gate.cases) auto
qed

lemma unlit_step:
  assumes "coord_step_in (- enabled_reads) u env tm w w'" and unlit: "unlit w"
  shows "dimmer w w'"
proof -
  have st: "coord_state (w_inner w) \<in> unlit_states" and life: "lifecycle_ok w"
    and gate: "list_all (\<lambda>t. past_gate t \<noteq> Some (generation (w_inner w))) (tasks w)"
    using unlit by (simp_all add: unlit_def)
  have inactive: "coord_state (w_inner w) \<noteq> Active" "coord_state (w_inner w) \<noteq> Degraded"
    using st by (auto simp: unlit_states_def)
  note stale = unlit_not_current [OF unlit] and future = no_future_gate [OF life]
  have set: "Disabled \<in> unlit_states" "Suspended \<in> unlit_states" "Connecting \<in> unlit_states"
    by (simp_all add: unlit_states_def)
  from assms(1) show ?thesis
  proof cases
    case (StepSend i gen c s l)
    then show ?thesis
      using st gate count_tasks_pos [of i "tasks w" is_checked]
      by (auto simp: dimmer_def refresh_send_def intro: list_all_update)
  next
    case (StepConfigureGate i gen conn)
    then show ?thesis
      using st gate set by (auto simp: dimmer_def configure_gate_def enabled_reads_def list_all_update split: option.splits)
  next
    case (StepConfigureCapabilities i gen c t url r)
    then have "gen \<noteq> generation (w_inner w)" using stale [of i] by auto
    then have "w' = goto i Finished w" using StepConfigureCapabilities by (simp add: configure_capabilities_def)
    then show ?thesis using st gate StepConfigureCapabilities by (simp add: dimmer_def list_all_update)
  qed (use st inactive set gate stale future in \<open>auto simp: dimmer_def coord_segment_defs coord_helper_simps Let_def
      case_prod_beta list_update_append list_all_update split: option.split\<close>)
qed

lemma unlit_run:
  assumes "(coord_step_in (- enabled_reads) u env tm)\<^sup>*\<^sup>* w w'" and "unlit w"
  shows "dimmer w w' \<and> unlit w'"
  using assms
proof induction
  case base
  then show ?case by (simp add: dimmer_def unlit_def)
next
  case (step w1 w2)
  then have "dimmer w1 w2" "lifecycle_ok w2"
    by (auto intro: unlit_step lifecycle_step coord_step_mono simp: unlit_def)
  then show ?case using step by (auto simp: dimmer_def unlit_def)
qed

text \<open>A coordinator at rest is unlit: it has no negotiation of the current generation.\<close>

lemma resting_unlit:
  assumes "coord_reachable u env tm w" and "coord_state (w_inner w) \<in> {Disabled, Suspended, UpdateRequired}"
  shows "unlit w"
proof -
  have life: "lifecycle_ok w" by (rule lifecycle_reachable [OF assms(1)])
  have "past_gate t \<noteq> Some g" if "task_generation t \<noteq> Some g" for t g
    using that by (cases t rule: past_gate.cases) auto
  moreover have "task_generation t \<noteq> Some (generation (w_inner w))" if t: "t \<in> set (tasks w)" for t
  proof -
    have "task_ok (generation (w_inner w)) (coord_state (w_inner w)) t"
      using life t by (simp add: lifecycle_ok_def list_all_iff)
    from task_ok_quiet [OF this] show ?thesis using assms(2) by blast
  qed
  ultimately have "list_all (\<lambda>t. past_gate t \<noteq> Some (generation (w_inner w))) (tasks w)"
    by (simp add: list_all_iff)
  then show ?thesis using life assms(2) by (auto simp: unlit_def unlit_states_def)
qed

lemma unlit_world_dark:
  assumes "coord_reachable u env tm w" and "unlit w" and "(coord_step_in (- enabled_reads) u env tm)\<^sup>*\<^sup>* w w'"
  shows "coord_state (w_inner w') \<in> {Disabled, Suspended, UpdateRequired, Connecting} \<and>
    captures w' = captures w \<and> publishes w' \<le> publishes w + count_tasks is_checked (tasks w) \<and> count_tasks is_checked (tasks w) \<le> 1"
  using unlit_run [OF assms(3,2)] at_most_one_checked [OF assms(1)] by (auto simp: dimmer_def unlit_states_def)

section \<open>What is published\<close>

text \<open>The snapshot of a publish that has passed its last check, and the snapshots published so far.\<close>

fun carried :: "task \<Rightarrow> sanitized_snapshot option" where
  "carried (Refresh _ (RSend _ s _)) = Some s"
| "carried _ = None"

fun snapshots_of :: "event list \<Rightarrow> sanitized_snapshot list" where
  "snapshots_of [] = []"
| "snapshots_of (PublishSent _ s _ # es) = s # snapshots_of es"
| "snapshots_of (_ # es) = snapshots_of es"

lemma snapshots_of_append: "snapshots_of (xs @ ys) = snapshots_of xs @ snapshots_of ys"
  by (induction xs rule: snapshots_of.induct) simp_all

definition published :: "world \<Rightarrow> sanitized_snapshot list" where
  "published w = snapshots_of (w_log w)"

definition in_flight :: "world \<Rightarrow> sanitized_snapshot set" where
  "in_flight w = {s. \<exists>t \<in> set (tasks w). carried t = Some s}"

definition answered :: "coord_call set \<Rightarrow> sanitized_snapshot set" where
  "answered calls = {s. \<exists>m. CaptureResult m s \<in> calls}"

lemma published_simps [simp]:
  "published (on_inner f w) = published w" "published (goto i t w) = published w"
  "published (snd (spawn t w)) = published w" "published (abort h w) = published w"
  "published (snd (spawn_clear_best_effort cl r d w)) = published w"
  "published (log_event e w) = published w @ snapshots_of [e]"
  "published (w\<lparr>w_clock := x\<rparr>) = published w" "published (w\<lparr>w_arcs := n\<rparr>) = published w"
  by (simp_all add: published_def on_inner_def goto_def spawn_def abort_def spawn_clear_best_effort_def log_event_def
      snapshots_of_append split: option.split)

lemma published_state [simp]:
  "published (set_state_locked st w) = published w" "published (begin_new_generation_locked st w) = published w"
  "published (start_locked w) = published w" "published (trigger_refresh_locked g w) = published w"
  "published (schedule_retry_locked g d w) = published w" "published (spawn_heartbeat_locked g p w) = published w"
  "published (build_client c token url conf w) = published w"
  by (simp_all add: set_state_locked_def begin_new_generation_locked_def start_locked_def trigger_refresh_locked_def
      schedule_retry_locked_def spawn_heartbeat_locked_def build_client_def Let_def case_prod_beta)

text \<open>What a step adds to the snapshots that are published or on their way.\<close>

definition carrying :: "sanitized_snapshot set \<Rightarrow> task list \<Rightarrow> bool" where
  "carrying X ts \<longleftrightarrow> list_all (\<lambda>t. set_option (carried t) \<subseteq> X) ts"

lemma carrying_simps [simp]:
  "carrying X [] \<longleftrightarrow> True" "carrying X (t # ts) \<longleftrightarrow> set_option (carried t) \<subseteq> X \<and> carrying X ts"
  "carrying X (xs @ ys) \<longleftrightarrow> carrying X xs \<and> carrying X ys"
  by (simp_all add: carrying_def)

lemma carrying_update: "carrying X ts \<Longrightarrow> set_option (carried t) \<subseteq> X \<Longrightarrow> carrying X (ts[i := t])"
  by (simp add: carrying_def list_all_update)

lemma carrying_in_flight: "carrying X (tasks w) \<longleftrightarrow> in_flight w \<subseteq> X"
  by (force simp: carrying_def in_flight_def list_all_iff)

lemma carrying_nth: "carrying X ts \<Longrightarrow> i < length ts \<Longrightarrow> carried (ts ! i) = Some s \<Longrightarrow> s \<in> X"
  by (fastforce simp: carrying_def list_all_length)

lemma publishes_only_step:
  assumes "coord_step_in calls u env tm w w'" and here: "carrying X (tasks w)" and new: "answered calls \<subseteq> X"
  shows "carrying X (tasks w') \<and> (\<exists>new. published w' = published w @ new \<and> set new \<subseteq> X)"
  using assms(1)
proof cases
  case (StepCaptured i gen c media snapshot)
  then have "snapshot \<in> X" using new by (auto simp: answered_def)
  then show ?thesis
    using StepCaptured here by (simp add: refresh_captured_def refresh_exit_def carrying_update)
next
  case (StepSend i gen c snapshot lease)
  then have "snapshot \<in> X" using carrying_nth [OF here] by simp
  then show ?thesis using StepSend here by (simp add: refresh_send_def carrying_update)
next
  case (StepConfigureCapabilities i gen c t url r)
  then show ?thesis
    using here by (simp add: configure_capabilities_def degrade_and_retry_def go_active_def trigger_refresh_simps Let_def
        carrying_update split: sum.split presence_negotiation.split)
qed (use here in \<open>auto simp: coord_segment_defs coord_helper_simps Let_def
      case_prod_beta list_update_append carrying_update split: option.split sum.split\<close>)

lemma publishes_only_run:
  assumes "(coord_step_in calls u env tm)\<^sup>*\<^sup>* w w'"
  shows "\<exists>new. published w' = published w @ new \<and> set new \<union> in_flight w' \<subseteq> in_flight w \<union> answered calls"
proof -
  let ?X = "in_flight w \<union> answered calls"
  have "carrying ?X (tasks w)" by (simp add: carrying_in_flight)
  with assms have "carrying ?X (tasks w') \<and> (\<exists>new. published w' = published w @ new \<and> set new \<subseteq> ?X)"
  proof induction
    case (step w1 w2)
    from publishes_only_step [OF step.hyps(2), of ?X] step show ?case by fastforce
  qed simp
  then show ?thesis by (auto simp: carrying_in_flight)
qed

text \<open>At most one snapshot is on its way.\<close>

lemma one_in_flight:
  assumes "coord_reachable u env tm w"
  shows "\<exists>late. in_flight w \<subseteq> {late}"
proof -
  have checked: "is_checked t" if "carried t = Some s" for t s
    using that by (cases t rule: carried.cases) simp_all
  have "length (filter is_checked (tasks w)) \<le> 1"
    using at_most_one_checked [OF assms] by (simp add: count_tasks_def)
  then obtain t where "set (filter is_checked (tasks w)) \<subseteq> {t}"
    by (cases "filter is_checked (tasks w)") auto
  then have "in_flight w \<subseteq> {the (carried t)}"
    using checked by (fastforce simp: in_flight_def)
  then show ?thesis by blast
qed

section \<open>A lost lock\<close>

text \<open>
  A second lock can be lost. While an unlock still waits for the clear of the lock before it, the
  state is \<open>Suspended\<close>, so another lock is taken for a repetition and changes nothing; the waiting
  unlock then starts the coordinator, which publishes although the session is locked.
\<close>

theorem relock_is_lost:
  "\<exists>u env tm c w w'. coord_reachable u env tm w \<and> coord_state (w_inner w) = Active \<and>
     (coord_step_in {GateRead (Some c)} u env tm)\<^sup>*\<^sup>*
       (handle_sleep_or_lock tm (handle_wake_or_unlock (handle_sleep_or_lock tm w))) w' \<and>
     coord_state (w_inner w') = Active \<and> refresh_requested (w_inner w') \<and> coord_client (w_inner w') \<noteq> None"
proof -
  obtain w0 w2 w4 c h where w0: "reach w0" "coord_state (w_inner w0) = Active"
    and w2: "w2 = handle_wake_or_unlock (handle_sleep_or_lock default_timings w0)"
      "coord_state (w_inner w2) = Suspended" "task_step\<^sup>*\<^sup>* w2 w4"
    and r4: "reach w4" and t4: "tasks w4 = [Finished, HeartbeatTimer 1 h, Refresh 1 RHead,
      ClearRequest c CSleep, Finished, Finished, Configure 3 CfgEntry]"
    and i4: "generation (w_inner w4) = 3" "coord_state (w_inner w4) = Connecting"
    by (rule sleep_wake_run)
  obtain w5 where w5: "task_step\<^sup>*\<^sup>* w4 w5" "coord_state (w_inner w5) = Active" "refresh_requested (w_inner w5)"
    "coord_client (w_inner w5) \<noteq> None"
    by (rule negotiation_run [OF r4, of 6 3]) (simp_all add: t4 i4)
  have "handle_sleep_or_lock default_timings w2 = w2" by (simp add: handle_sleep_or_lock_def w2(2))
  then show ?thesis using w0 w2 w5 by (metis rtranclp_trans)
qed

end
