(* ===== verification/Service_Calls.thy ===== *)
theory Service_Calls
  imports App Coordinator_Calls
begin

text \<open>
  What the operations of the service do to the coordinator. Each operation moves the coordinator
  only through its public calls, whatever runs between its segments, as long as that does the same.
  The calls an operation makes are the contract here: a client proves a guarantee over the calls
  once, and every operation inherits it.
\<close>

section \<open>Guarantees\<close>

definition moving :: "(world \<Rightarrow> world \<Rightarrow> bool) \<Rightarrow> ('l, 'a) svc \<Rightarrow> bool" where
  "moving R m \<longleftrightarrow> (\<forall>s r s'. m s = Some (r, s') \<longrightarrow> R (sv_world s) (sv_world s'))"

definition others_moving :: "(world \<Rightarrow> world \<Rightarrow> bool) \<Rightarrow> 'l others \<Rightarrow> bool" where
  "others_moving R others \<longleftrightarrow> (\<forall>k s. R (sv_world s) (sv_world (others k s)))"

lemma others_moving_from: "others_moving R others \<Longrightarrow> others_moving R (from_point n others)"
  by (simp add: others_moving_def from_point_def)

locale guarantee =
  fixes R :: "world \<Rightarrow> world \<Rightarrow> bool"
  assumes refl: "R w w"
    and trans: "R w w' \<Longrightarrow> R w' w'' \<Longrightarrow> R w w''"
begin

lemma moving_bind: "moving R m \<Longrightarrow> (\<And>x. moving R (f x)) \<Longrightarrow> moving R (sv_bind m f)"
  unfolding moving_def sv_bind_Some by (metis trans)

lemma moving_modify: "(\<And>s. R (sv_world s) (sv_world (h s))) \<Longrightarrow> moving R (sv_modify h)"
  by (simp add: moving_def sv_ends)

lemma moving_simple: "moving R (sv_return x)" "moving R (sv_fail e)" "moving R (sv_read h)"
  by (simp_all add: moving_def sv_ends refl)

lemma moving_act: "moving R (act a)"
  unfolding act_def by (rule moving_modify) (simp add: refl)

lemma moving_interfere: "others_moving R others \<Longrightarrow> moving R (interfere (others k))"
  unfolding interfere_def by (rule moving_modify) (simp add: others_moving_def)

lemma moving_world: "(\<And>w. R w (f w)) \<Longrightarrow> moving R (on_world f)"
  unfolding on_world_def by (rule moving_modify) simp

lemma moving_update: "moving R (sv_update env flt f)"
  unfolding moving_def
proof (intro allI impI)
  fix s r s'
  assume "sv_update env flt f s = Some (r, s')"
  then show "R (sv_world s) (sv_world s')" by (rule sv_update_ends) (simp_all add: refl)
qed

lemma moving_if: "(b \<Longrightarrow> moving R m) \<Longrightarrow> (\<not> b \<Longrightarrow> moving R n) \<Longrightarrow> moving R (if b then m else n)"
  by simp

lemma moving_ask: "moving R (ask_gate c p)" and moving_fingerprint: "moving R (read_fingerprint env)"
  by (auto simp: moving_def ask_gate_ends read_fingerprint_ends refl)

lemma moving_gate: "moving R (sv_modify (\<lambda>s. s\<lparr>sv_gate := g s\<rparr>))"
    "moving R (sv_modify (\<lambda>s. s\<lparr>sv_preview := p s\<rparr>))" "moving R (sv_modify (\<lambda>s. s\<lparr>sv_telemetry := t s\<rparr>))"
  by (rule moving_modify, simp add: refl)+

lemma moving_require: "moving R (require_non_empty vs)"
  unfolding require_non_empty_def by (intro moving_if moving_simple)

lemma moving_remove_sequence: "moving R (remove_sequence p flt dev)"
  by (auto simp: moving_def remove_sequence_def act_ends refl split: prod.splits sum.splits)

lemmas moving_parts =
  moving_bind moving_simple moving_act moving_interfere moving_update moving_if moving_ask moving_fingerprint
  moving_gate moving_require moving_remove_sequence others_moving_from

lemma moving_refresh: "others_moving R others \<Longrightarrow> moving R (refresh_preview others snap)"
  unfolding refresh_preview_def Let_def by (intro moving_parts)

lemma moving_reject: "others_moving R others \<Longrightarrow> moving R (reject_with_fresh_basis others snap)"
  unfolding reject_with_fresh_basis_def by (intro moving_parts moving_refresh)

lemma moving_published: "moving R (on_published now)"
  unfolding on_published_def by (intro moving_parts)

end

text \<open>Operations that ask for snapshots, shut the coordinator down and discard its authority.\<close>

locale stopping_calls = guarantee +
  assumes fresh: "R w (request_fresh_snapshot w)"
    and shut: "R w (shutdown reason w)"
    and discard: "R w (discard_authority w)"
begin

lemma moving_stop: "others_moving R others \<Longrightarrow> moving R (stop_coordinator reason (others k))"
  unfolding stop_coordinator_def by (intro moving_parts moving_world shut)

lemma moving_drop: "moving R drop_authority"
  unfolding drop_authority_def by (intro moving_parts moving_world discard)

lemmas stopping_parts = moving_parts moving_refresh moving_reject moving_stop moving_drop

lemma moving_policy_check: "others_moving R others \<Longrightarrow> moving R (policy_maybe_changed env others)"
  unfolding policy_maybe_changed_def by (intro stopping_parts moving_world fresh)

lemma moving_change: "others_moving R others \<Longrightarrow> moving R (change_privacy env others flt f)"
  unfolding change_privacy_def by (intro stopping_parts moving_policy_check)

lemma moving_disable: "others_moving R others \<Longrightarrow> moving R (disable_live_desk env others flt)"
  unfolding disable_live_desk_def by (intro stopping_parts)

lemma moving_pair: "others_moving R others \<Longrightarrow> moving R (pair env others store claimed token_set flt snap)"
  unfolding pair_def by (auto intro!: stopping_parts split: sum.split)

lemma moving_unpair: "others_moving R others \<Longrightarrow> moving R (unpair env others flt1 deleted p flt2 flt3)"
  unfolding unpair_def unpair_connected_def unpair_forget_def by (auto intro!: stopping_parts split: option.split)

lemma moving_command:
  "others_moving R others \<Longrightarrow> \<forall>inp ui. c \<noteq> Confirm inp ui \<Longrightarrow> moving R (command_with env others c)"
  by (cases c)
    (auto simp: set_sources_def set_privacy_def upsert_rule_def delete_rule_def set_mappings_def cmd_request_preview_def
      intro!: moving_bind moving_change moving_require moving_simple moving_refresh moving_pair moving_unpair moving_disable)

lemma moving_shutdown: "others_moving R others \<Longrightarrow> moving R (service_shutdown (others k))"
  unfolding service_shutdown_def by (rule moving_stop)

end

locale starting_calls = stopping_calls +
  assumes start: "R w (coord_start w)"
begin

lemma moving_start: "moving R start_coordinator"
  unfolding start_coordinator_def by (intro moving_parts moving_world start)

lemma moving_confirm: "others_moving R others \<Longrightarrow> moving R (cmd_confirm_consent env others inp ui)"
proof -
  assume o: "others_moving R others"
  have roll: "moving R (roll_back env (from_point 7 others) inp)"
    unfolding roll_back_def using o by (intro stopping_parts)
  have "moving R (confirm_persisted env others inp ui c)" for c
    unfolding confirm_persisted_def using o roll by (auto intro!: stopping_parts moving_start)
  then show ?thesis
    unfolding cmd_confirm_consent_def confirm_consent_def Let_def using o
    by (auto intro!: stopping_parts split: option.split)
qed

lemma moving_service_start: "others_moving R others \<Longrightarrow> moving R (service_start (others k))"
  unfolding service_start_def by (auto intro!: stopping_parts moving_start split: option.split)

lemma moving_any_command: "others_moving R others \<Longrightarrow> moving R (command_with env others c)"
  by (cases "\<forall>inp ui. c \<noteq> Confirm inp ui") (auto intro: moving_command moving_confirm)

end

text \<open>
  The coordinator's own steps, with any calls that include the ones the operations make.
\<close>

abbreviation runs_with :: "coord_call set \<Rightarrow> unicode \<Rightarrow> surroundings \<Rightarrow> timings \<Rightarrow> world \<Rightarrow> world \<Rightarrow> bool" where
  "runs_with calls u env tm \<equiv> (coord_step_in calls u env tm)\<^sup>*\<^sup>*"

interpretation stops: stopping_calls "runs_with (calls \<union> {FreshCall, ShutdownCall, DiscardCall}) u env tm"
  for calls u env tm
  by unfold_locales (auto intro: r_into_rtranclp coord_step_in.intros)

interpretation starts: starting_calls "runs_with (calls \<union> {FreshCall, ShutdownCall, DiscardCall, StartCall}) u env tm"
  for calls u env tm
  by unfold_locales (auto intro: r_into_rtranclp coord_step_in.intros)

text \<open>A command moves the coordinator by the calls that are allowed, if they include its own.\<close>

lemma command_runs:
  assumes others: "others_moving (runs_with calls u net tm) others"
    and calls: "{FreshCall, ShutdownCall, DiscardCall} \<subseteq> calls"
    and confirm: "\<And>inp ui. c = Confirm inp ui \<Longrightarrow> StartCall \<in> calls"
    and run: "command_with env others c s = Some (r, s')"
  shows "runs_with calls u net tm (sv_world s) (sv_world s')"
proof (cases "\<exists>inp ui. c = Confirm inp ui")
  case True
  then have same: "calls \<union> {FreshCall, ShutdownCall, DiscardCall, StartCall} = calls"
    using calls confirm by auto
  show ?thesis
    using starts.moving_any_command [of calls u net tm others env c] others run unfolding same moving_def by blast
next
  case False
  have same: "calls \<union> {FreshCall, ShutdownCall, DiscardCall} = calls" using calls by auto
  show ?thesis
    using stops.moving_command [of calls u net tm others c env] others run False unfolding same moving_def by blast
qed

lemma shutdown_runs:
  assumes "others_moving (runs_with calls u net tm) (\<lambda>_. other)" and "ShutdownCall \<in> calls"
    and "service_shutdown other s = Some (r, s')"
  shows "runs_with calls u net tm (sv_world s) (sv_world s')"
proof -
  let ?t = "s\<lparr>sv_world := shutdown CShutdown (sv_world s), sv_actions := sv_actions s @ [CoordinatorShutdown CShutdown]\<rparr>"
  have "runs_with calls u net tm (sv_world s) (sv_world ?t)"
    using assms(2) by (auto intro: coord_step_in.CallShutdown)
  moreover have "runs_with calls u net tm (sv_world ?t) (sv_world (other ?t))"
    using assms(1) unfolding others_moving_def by blast
  moreover have "sv_world s' = sv_world (other ?t)"
    using assms(3) by (auto simp: service_shutdown_def stop_coordinator_def segment_ends)
  ultimately show ?thesis using rtranclp_trans by metis
qed

section \<open>A lost confirmation\<close>

text \<open>
  A confirmation can be accepted without effect. While the shutdown of an earlier disable still waits
  for its clear, a confirmation of a fresh preview succeeds and persists Live Desk as enabled, but the
  coordinator ignores the start: until something starts or wakes it, it captures nothing.
\<close>

theorem confirmation_lost_in_shutdown:
  "\<exists>(s :: unit service) s'. reach (sv_world s) \<and>
     confirm_consent sample_service_env (\<lambda>_ s. s) (sample_inputs sample_snapshot) (capture_fingerprint sample_service_env s) s =
       Some (Inr (), s') \<and>
     map_option live_desk_enabled (connection (the_config s')) = Some True \<and>
     (\<forall>w'. runs_with (- {StartCall, WakeCall}) ascii_unicode sample_env default_timings (sv_world s') w' \<longrightarrow>
        coord_state (w_inner w') \<in> {Disabled, Suspended, UpdateRequired} \<and> captures w' = captures (sv_world s'))"
proof -
  obtain w h where w: "reach w" "tasks w = [Finished, HeartbeatTimer 1 h, Refresh 1 RHead]" "\<not> stopping (w_inner w)"
    by (rule active_run)
  let ?w = "shutdown CPaused w"
  have r: "reach ?w" by (rule coord_reachable.Step [OF w(1) CallShutdown [OF UNIV_I]])
  have "coord_state (w_inner ?w) \<in> {Disabled, Suspended, UpdateRequired}" "\<forall>h. WakeJoin h \<notin> set (tasks ?w)"
    and stop: "stopping (w_inner ?w)"
    by (auto simp: shutdown_def w Let_def)
  then have d: "dormant ?w" by (intro dormant_world [OF r])
  have p: "previewing sample_service_env (sample_service ?w) (projection_of sample_snapshot)" by (rule sample_previewing)
  obtain t where t: "sv_world t = ?w" "the_config t = set_live_desk True (the_config (sample_service ?w))"
    and run: "confirm_consent sample_service_env (\<lambda>_ s. s) (sample_inputs sample_snapshot)
        (capture_fingerprint sample_service_env (sample_service ?w)) (sample_service ?w) =
      sv_bind start_coordinator (\<lambda>_. act Changed) t"
    using confirm_second_check [OF p, of "sample_inputs sample_snapshot"] sample_projection_eq
    by (auto simp: sample_inputs_def sample_service_facts)
  obtain s' where s': "sv_bind start_coordinator (\<lambda>_. act Changed) t = Some (Inr (), s')" "sv_world s' = ?w"
    "the_config s' = set_live_desk True (the_config (sample_service ?w))"
    using stop by (simp add: sv_bind_def start_coordinator_def on_world_def act_def sv_modify_def coord_start_def
        start_locked_def t)
  have on: "map_option live_desk_enabled (connection (the_config s')) = Some True"
    using p by (auto simp: s'(3) previewing_def)
  show ?thesis
  proof (rule exI [of _ "sample_service ?w"], rule exI [of _ s'], intro conjI on allI impI)
    show "reach (sv_world (sample_service ?w))" using r by (simp add: sample_service_facts)
    show "confirm_consent sample_service_env (\<lambda>_ s. s) (sample_inputs sample_snapshot)
        (capture_fingerprint sample_service_env (sample_service ?w)) (sample_service ?w) = Some (Inr (), s')"
      unfolding run by (rule s'(1))
    fix w'
    assume "runs_with (- {StartCall, WakeCall}) ascii_unicode sample_env default_timings (sv_world s') w'"
    note quiet = dormant_world_quiet [OF r d this [unfolded s'(2)]]
    show "coord_state (w_inner w') \<in> {Disabled, Suspended, UpdateRequired}" by (rule conjunct1 [OF quiet])
    show "captures w' = captures (sv_world s')" unfolding s'(2) by (rule conjunct1 [OF conjunct2 [OF quiet]])
  qed
qed

end
