(* ===== verification/Service_Store.thy ===== *)
theory Service_Store
  imports App
begin

text \<open>
  What the operations of the service do to the stored configuration. Everything they write goes through
  \<open>config.update\<close>, so a predicate on the store that the permitted changes keep is kept by every operation,
  also when other operations that keep it run in between. No command but the confirmation of a preview
  can enable Live Desk.
\<close>

section \<open>Invariants of the store\<close>

definition others_keep :: "('l service \<Rightarrow> bool) \<Rightarrow> 'l others \<Rightarrow> bool" where
  "others_keep P others \<longleftrightarrow> (\<forall>k s. P s \<longrightarrow> P (others k s))"

lemma others_keep_from: "others_keep P others \<Longrightarrow> others_keep P (from_point n others)"
  by (simp add: others_keep_def from_point_def)

text \<open>A predicate on the stored configuration and the lock of the store, and nothing else of the service.\<close>

locale stored =
  fixes P :: "'l service \<Rightarrow> bool"
  assumes same_store: "sv_store s' = sv_store s \<Longrightarrow> P s \<Longrightarrow> P s'"
begin

lemma kept_modify: "(\<And>s. sv_store (h s) = sv_store s) \<Longrightarrow> keeps P (sv_modify h)"
  by (rule keeps_modify) (rule same_store)

lemma kept_act: "keeps P (act a)" and kept_world: "keeps P (on_world f)"
  unfolding act_def on_world_def by (rule kept_modify, simp)+

lemma kept_interfere: "others_keep P others \<Longrightarrow> keeps P (interfere (others k))"
  unfolding interfere_def
  by (rule keeps_modify) (auto simp: others_keep_def intro: same_store [of "_\<lparr>sv_actions := _\<rparr>"])

lemma kept_ask: "keeps P (ask_gate c p)" and kept_fingerprint: "keeps P (read_fingerprint env)"
  by (auto simp: keeps_def ask_gate_ends read_fingerprint_ends intro: same_store [of "_\<lparr>sv_actions := _\<rparr>"])

lemma kept_gate: "keeps P (sv_modify (\<lambda>s. s\<lparr>sv_gate := g s\<rparr>))"
    "keeps P (sv_modify (\<lambda>s. s\<lparr>sv_preview := p s\<rparr>))" "keeps P (sv_modify (\<lambda>s. s\<lparr>sv_telemetry := t s\<rparr>))"
  by (rule kept_modify, simp)+

lemma kept_remove_sequence: "keeps P (remove_sequence p flt dev)"
  by (auto simp: keeps_def remove_sequence_def act_ends split: prod.splits sum.splits
      elim!: same_store [rotated])

lemma kept_require: "keeps P (require_non_empty vs)"
  unfolding require_non_empty_def by (simp add: keeps_simple)

lemmas stored_parts =
  keeps_bind keeps_simple kept_act kept_world kept_interfere kept_ask kept_fingerprint kept_gate
  kept_remove_sequence kept_require others_keep_from

lemma kept_refresh: "others_keep P others \<Longrightarrow> keeps P (refresh_preview others snap)"
  unfolding refresh_preview_def Let_def by (intro stored_parts)

lemma kept_reject: "others_keep P others \<Longrightarrow> keeps P (reject_with_fresh_basis others snap)"
  unfolding reject_with_fresh_basis_def by (intro stored_parts kept_refresh)

lemma kept_stop: "others_keep P others \<Longrightarrow> keeps P (stop_coordinator reason (others k))"
  and kept_start: "keeps P start_coordinator" and kept_drop: "keeps P drop_authority"
  unfolding stop_coordinator_def start_coordinator_def drop_authority_def by (intro stored_parts; assumption?)+

lemma kept_policy_check: "others_keep P others \<Longrightarrow> keeps P (policy_maybe_changed env others)"
  unfolding policy_maybe_changed_def by (intro stored_parts keeps_if)

lemma kept_published: "keeps P (on_published now)"
  unfolding on_published_def by (intro stored_parts)

lemma kept_service_start: "others_keep P others \<Longrightarrow> keeps P (service_start (others k))"
  unfolding service_start_def by (auto intro!: stored_parts kept_start split: option.split)

lemma kept_shutdown: "others_keep P others \<Longrightarrow> keeps P (service_shutdown (others k))"
  unfolding service_shutdown_def by (rule kept_stop)

end

text \<open>A predicate that every permitted change keeps; all commands but the confirmation make only such changes.\<close>

locale kept_store = stored +
  fixes permitted :: "(core_config \<Rightarrow> core_config) \<Rightarrow> bool"
  assumes updates: "permitted f \<Longrightarrow> P s \<Longrightarrow> sv_update env flt f s = Some (r, s') \<Longrightarrow> P s'"
    and policy: "permitted (\<lambda>c. c\<lparr>privacy := g (privacy c)\<rparr>)"
    and disabling: "permitted (set_live_desk False)"
    and unpairing: "permitted (\<lambda>c. c\<lparr>connection := None\<rparr>)"
    and pairing: "permitted (\<lambda>c. c\<lparr>cred_backend := Some b, connection := Some (connection_of x)\<rparr>)"
begin

lemma kept_update: "permitted f \<Longrightarrow> keeps P (sv_update env flt f)"
  by (auto simp: keeps_def intro: updates)

lemmas kept_parts = stored_parts kept_update policy disabling unpairing pairing

lemma kept_change: "others_keep P others \<Longrightarrow> keeps P (change_privacy env others flt f)"
  unfolding change_privacy_def by (intro kept_parts kept_policy_check)

lemma kept_disable: "others_keep P others \<Longrightarrow> keeps P (disable_live_desk env others flt)"
  unfolding disable_live_desk_def by (intro kept_parts kept_stop)

lemma kept_pair: "others_keep P others \<Longrightarrow> keeps P (pair env others store claimed token_set flt snap)"
  unfolding pair_def by (auto intro!: kept_parts kept_stop kept_drop kept_refresh split: sum.split)

lemma kept_unpair: "others_keep P others \<Longrightarrow> keeps P (unpair env others flt1 deleted p flt2 flt3)"
  unfolding unpair_def unpair_connected_def unpair_forget_def
  by (auto intro!: kept_parts kept_stop kept_drop split: option.split)

lemma kept_command:
  "others_keep P others \<Longrightarrow> \<forall>inp ui. c \<noteq> Confirm inp ui \<Longrightarrow> keeps P (command_with env others c)"
  by (cases c)
    (auto simp: set_sources_def set_privacy_def upsert_rule_def delete_rule_def set_mappings_def cmd_request_preview_def
      intro!: keeps_bind kept_change kept_require keeps_simple kept_refresh kept_pair kept_unpair kept_disable)

end

text \<open>A predicate that the confirmation keeps too.\<close>

locale confirmed_store = kept_store +
  assumes enabling: "permitted (set_live_desk True)"
begin

lemma kept_confirm: "others_keep P others \<Longrightarrow> keeps P (cmd_confirm_consent env others inp ui)"
proof -
  assume o: "others_keep P others"
  have roll: "keeps P (roll_back env (from_point 7 others) inp)"
    unfolding roll_back_def using o by (intro kept_parts kept_reject)
  have "keeps P (confirm_persisted env others inp ui c)" for c
    unfolding confirm_persisted_def using o roll by (auto intro!: kept_parts kept_start enabling)
  then show ?thesis
    unfolding cmd_confirm_consent_def confirm_consent_def Let_def using o
    by (auto intro!: kept_parts kept_reject split: option.split)
qed

lemma kept_any_command: "others_keep P others \<Longrightarrow> keeps P (command_with env others c)"
  by (cases "\<forall>inp ui. c \<noteq> Confirm inp ui") (auto intro: kept_command kept_confirm)

end

section \<open>The store of the application\<close>

text \<open>
  The application registers no listener with the store, so no operation finds it locked, and the
  configuration in force is always a valid one; while Live Desk is off, only a confirmation turns it on.
\<close>

definition live_desk_on :: "core_config \<Rightarrow> bool" where
  "live_desk_on c \<longleftrightarrow> (case connection c of Some x \<Rightarrow> live_desk_enabled x | None \<Rightarrow> False)"

definition desk_off :: "'l service \<Rightarrow> bool" where
  "desk_off s \<longleftrightarrow> quiet s \<and> \<not> live_desk_on (the_config s)"

definition policy_in :: "privacy_config set \<Rightarrow> 'l service \<Rightarrow> bool" where
  "policy_in policies s \<longleftrightarrow> privacy (the_config s) \<in> policies"

definition leaves_off :: "(core_config \<Rightarrow> core_config) \<Rightarrow> bool" where
  "leaves_off f \<longleftrightarrow> (\<forall>c. \<not> live_desk_on c \<longrightarrow> \<not> live_desk_on (f c))"

definition store_ok :: "'l service \<Rightarrow> bool" where
  "store_ok s \<longleftrightarrow> quiet s \<and> config_valid (the_config s)"

lemma persisted_valid:
  assumes "quiet s" and "sv_update env flt f s = Some (r, s')" and "config_valid (the_config s)"
  shows "config_valid (the_config s')"
  using assms(1)
  by (cases rule: quiet_update_ends [of s env flt f]) (use assms(2,3) in auto)

interpretation policy_store: stored "policy_in policies :: 'l service \<Rightarrow> bool" for policies
  by unfold_locales (simp add: policy_in_def the_config_def)

interpretation sound_store: confirmed_store "store_ok :: 'l service \<Rightarrow> bool" "\<lambda>_. True"
proof unfold_locales
  fix env :: "'l service_env" and f flt r and s s' :: "'l service"
  assume s: "store_ok s" and run: "sv_update env flt f s = Some (r, s')"
  from s have q: "quiet s" "config_valid (the_config s)" by (simp_all add: store_ok_def)
  show "store_ok s'"
    using conjunct1 [OF sv_update_sound [OF q(1) run]] persisted_valid [OF q(1) run q(2)] by (simp add: store_ok_def)
qed (simp_all add: store_ok_def quiet_def the_config_def)

interpretation off_store: kept_store "desk_off :: 'l service \<Rightarrow> bool" leaves_off
proof unfold_locales
  fix env :: "'l service_env" and f flt r and s s' :: "'l service"
  assume "leaves_off f" "desk_off s" "sv_update env flt f s = Some (r, s')"
  then show "desk_off s'" using sv_update_sound [of s env flt f r s']
    unfolding desk_off_def leaves_off_def by (elim conjE) metis
qed (auto simp: desk_off_def leaves_off_def live_desk_on_def set_live_desk_def connection_of_def the_config_def
    quiet_def split: option.splits)

end
