(* ===== verification/Change_Detection.thy ===== *)
theory Change_Detection
  imports Prelude
begin

text \<open>
  What the foreground watcher, the media provider and the session events share: a state remembers
  the last key it was shown, and an observation fires exactly when its key differs. The contract
  is the locale \<open>change_detector\<close>; its clients fire on the successive distinct keys.
\<close>

fun observe_all :: "('a \<Rightarrow> 's \<Rightarrow> bool \<times> 's) \<Rightarrow> 'a list \<Rightarrow> 's \<Rightarrow> 'a list \<times> 's" where
  "observe_all observe [] s = ([], s)"
| "observe_all observe (x # xs) s =
     (case observe x s of
        (fired, s1) \<Rightarrow>
          case observe_all observe xs s1 of
            (ys, s2) \<Rightarrow> (if fired then x # ys else ys, s2))"

locale change_detector =
  fixes known :: "'s \<Rightarrow> 'k"
    and key :: "'a \<Rightarrow> 'k"
    and observe :: "'a \<Rightarrow> 's \<Rightarrow> bool \<times> 's"
  assumes fires_iff: "fst (observe x s) \<longleftrightarrow> known s \<noteq> key x"
    and remembers: "known (snd (observe x s)) = key x"
begin

lemma fired_keys: "map key (fst (observe_all observe xs s)) = tl (remdups_adj (known s # map key xs))"
proof (induction xs arbitrary: s)
  case (Cons x xs)
  obtain fired s1 where o: "observe x s = (fired, s1)" by force
  have "fired \<longleftrightarrow> known s \<noteq> key x" "known s1 = key x"
    using fires_iff [of x s] remembers [of x s] o by auto
  with Cons.IH [of s1] o show ?case by (auto split: prod.splits)
qed simp

lemma known_after: "known (snd (observe_all observe xs s)) = last (known s # map key xs)"
proof (induction xs arbitrary: s)
  case (Cons x xs)
  obtain fired s1 where o: "observe x s = (fired, s1)" by force
  have "known s1 = key x" using remembers [of x s] o by auto
  with Cons.IH [of s1] o show ?case by (auto split: prod.splits)
qed simp

lemma no_repeat: "distinct_adj (known s # map key (fst (observe_all observe xs s)))"
proof -
  have "known s # tl (remdups_adj (known s # map key xs)) = remdups_adj (known s # map key xs)"
    by (cases "remdups_adj (known s # map key xs)") (auto dest: arg_cong [where f = hd])
  then show ?thesis unfolding fired_keys by simp
qed

end

end
