(* ===== verification/Foreground.thy ===== *)
theory Foreground
  imports Capture_Service Change_Detection
begin

text \<open>
  The foreground watcher (\<open>core/src/capture/foreground.rs\<close>): one Win32 sample, display names with
  their cache, the stale fallback of \<open>current\<close>, and change detection with its debounced delivery.
  What Win32, the file system and the version resource answer are arguments. A slice that is not
  at a character boundary panics: \<open>None\<close>.
\<close>

section \<open>Sampling\<close>

fun from_utf16_lossy :: "nat list \<Rightarrow> rstr" where
  "from_utf16_lossy [] = []"
| "from_utf16_lossy (u # us) =
     (if 55296 \<le> u \<and> u < 56320 then
        (case us of
           v # vs \<Rightarrow>
             if 56320 \<le> v \<and> v < 57344
             then (65536 + ((u - 55296) * 1024 + (v - 56320))) # from_utf16_lossy vs
             else 65533 # from_utf16_lossy us
         | [] \<Rightarrow> [65533])
      else if 56320 \<le> u \<and> u < 57344 then 65533 # from_utf16_lossy us
      else u # from_utf16_lossy us)"

text \<open>
  What one sample meets: the window handle, the units of the title, the process id, whether the
  process opens with a valid handle, and the units of its image name.
\<close>

record win32_sample =
  w32_window :: bool
  w32_title :: "nat list"
  w32_pid :: nat
  w32_handle :: bool
  w32_image :: "nat list option"

record raw_foreground_sample =
  rf_window_title :: "rstr option"
  rf_process_id :: "nat option"
  rf_exe_path :: "rstr option"

definition sample_foreground :: "win32_sample \<Rightarrow> raw_foreground_sample option" where
  "sample_foreground w =
     (if \<not> w32_window w then None
      else
        let window_title = (if w32_title w \<noteq> [] then Some (from_utf16_lossy (w32_title w)) else None);
            process_id = (if w32_pid w > 0 then Some (w32_pid w) else None);
            exe_path =
              (case process_id of
                 None \<Rightarrow> None
               | Some _ \<Rightarrow>
                   if w32_handle w then
                     (case w32_image w of
                        Some units \<Rightarrow> if units \<noteq> [] then Some (from_utf16_lossy units) else None
                      | None \<Rightarrow> None)
                   else None)
        in Some \<lparr>rf_window_title = window_title, rf_process_id = process_id, rf_exe_path = exe_path\<rparr>)"

definition is_path_separator :: "scalar \<Rightarrow> bool" where
  "is_path_separator c \<longleftrightarrow> c = 92 \<or> c = 47"

definition win_basename :: "rstr \<Rightarrow> rstr" where
  "win_basename p = rev (takeWhile (\<lambda>c. \<not> is_path_separator c) (rev p))"

section \<open>Display names\<close>

text \<open>\<open>(&s[..n], &s[n..])\<close>: \<open>None\<close> when the byte offset \<open>n\<close> is not a character boundary.\<close>

fun split_at_byte :: "nat \<Rightarrow> rstr \<Rightarrow> (rstr \<times> rstr) option" where
  "split_at_byte n [] = (if n = 0 then Some ([], []) else None)"
| "split_at_byte n (c # s) =
     (if n = 0 then Some ([], c # s)
      else if n < length (utf8 c) then None
      else map_option (\<lambda>(a, b). (c # a, b)) (split_at_byte (n - length (utf8 c)) s))"

definition ends_exe :: "rstr \<Rightarrow> bool" where
  "ends_exe s \<longleftrightarrow> eq_ignore_ascii_case (str_bytes s) (str_bytes (lit ''.exe''))"

text \<open>\<open>upper\<close> is \<open>char::to_uppercase\<close>.\<close>

definition capitalized :: "(scalar \<Rightarrow> rstr) \<Rightarrow> rstr \<Rightarrow> rstr" where
  "capitalized upper stem = (case stem of [] \<Rightarrow> [] | c # s \<Rightarrow> upper c @ s)"

definition exe_stem_display_name :: "(scalar \<Rightarrow> rstr) \<Rightarrow> rstr \<Rightarrow> rstr option" where
  "exe_stem_display_name upper input =
     (let base = win_basename input;
          len = length (str_bytes base)
      in Option.bind
           (if 4 \<le> len
            then map_option (\<lambda>(a, b). if ends_exe b then a else base) (split_at_byte (len - 4) base)
            else Some base)
           (\<lambda>stem. Some (if stem = [] then input else capitalized upper stem)))"

text \<open>The names already resolved and the keys being resolved.\<close>

record display_names =
  dn_cache :: "rstr \<Rightarrow> rstr option"
  dn_pending :: "rstr set"

text \<open>\<open>mtime\<close> is the formatted modification time, \<open>None\<close> for a file that cannot be examined.\<close>

definition display_name_cache_key :: "unicode \<Rightarrow> (rstr \<Rightarrow> rstr option) \<Rightarrow> rstr \<Rightarrow> rstr option" where
  "display_name_cache_key u mtime exe_path =
     map_option (\<lambda>t. lowercase u exe_path @ lit ''|'' @ t) (mtime exe_path)"

text \<open>A resolver that is started: its key, the path it reads and the fallback it would cache.\<close>

type_synonym resolver = "rstr \<times> rstr \<times> rstr"

definition display_name_for ::
  "unicode \<Rightarrow> (scalar \<Rightarrow> rstr) \<Rightarrow> (rstr \<Rightarrow> rstr option) \<Rightarrow> rstr option \<Rightarrow> rstr \<Rightarrow> display_names \<Rightarrow>
   (rstr \<times> display_names \<times> resolver option) option" where
  "display_name_for u upper mtime exe_path app names =
     Option.bind (exe_stem_display_name upper app) (\<lambda>fallback.
       case Option.bind exe_path (display_name_cache_key u mtime) of
         None \<Rightarrow> Some (fallback, names, None)
       | Some key \<Rightarrow>
           (case dn_cache names key of
              Some cached \<Rightarrow> Some (cached, names, None)
            | None \<Rightarrow>
                if key \<in> dn_pending names then Some (fallback, names, None)
                else Some (fallback, names\<lparr>dn_pending := insert key (dn_pending names)\<rparr>,
                           Some (key, the exe_path, fallback))))"

text \<open>What \<open>read_file_description\<close> gives: the candidates are tried in order, blank values skipped.\<close>

definition translation_candidates :: "(nat \<times> nat) option \<Rightarrow> (nat \<times> nat) list" where
  "translation_candidates first_pair =
     (let start = (case first_pair of Some x \<Rightarrow> [x] | None \<Rightarrow> [])
      in fold (\<lambda>x xs. if x \<in> set xs then xs else xs @ [x])
           [(1033, 1200), (1033, 1252), (1033, 0)] start)"

fun first_description :: "((nat \<times> nat) \<Rightarrow> nat list option) \<Rightarrow> (rstr \<Rightarrow> rstr) \<Rightarrow> (nat \<times> nat) list \<Rightarrow> rstr option" where
  "first_description query trim [] = None"
| "first_description query trim (x # xs) =
     (case query x of
        Some units \<Rightarrow>
          if trim (from_utf16_lossy (takeWhile (\<lambda>v. v \<noteq> 0) units)) \<noteq> []
          then Some (trim (from_utf16_lossy (takeWhile (\<lambda>v. v \<noteq> 0) units)))
          else first_description query trim xs
      | None \<Rightarrow> first_description query trim xs)"

datatype version_info = NoResource | QueryFailed | Resource "(nat \<times> nat) option" "(nat \<times> nat) \<Rightarrow> nat list option"

fun read_file_description :: "(rstr \<Rightarrow> rstr) \<Rightarrow> version_info \<Rightarrow> unit + rstr option" where
  "read_file_description trim NoResource = Inr None"
| "read_file_description trim QueryFailed = Inl ()"
| "read_file_description trim (Resource first_pair query) =
     Inr (first_description query trim (translation_candidates first_pair))"

text \<open>
  The result of a resolver enters the cache; the flag says whether it calls back (a re-poll). Its
  key stops being pending only after that.
\<close>

definition resolver_result :: "resolver \<Rightarrow> unit + rstr option \<Rightarrow> display_names \<Rightarrow> bool \<times> display_names" where
  "resolver_result r result names =
     (case r of (key, _, fallback) \<Rightarrow>
        case result of
          Inr (Some description) \<Rightarrow> (True, names\<lparr>dn_cache := (dn_cache names)(key \<mapsto> description)\<rparr>)
        | _ \<Rightarrow> (False, names\<lparr>dn_cache := (dn_cache names)(key \<mapsto> fallback)\<rparr>))"

section \<open>Change detection\<close>

fun change_key :: "foreground_info option \<Rightarrow> rstr" where
  "change_key None = []"
| "change_key (Some info) =
     fg_app_id info @ [92, 48] @ (case fg_window_title info of Some t \<Rightarrow> t | None \<Rightarrow> [])"

record watch_state =
  last_key :: "rstr option"
  last_info :: "foreground_info option"
  debounce_generation :: nat

definition register_change_key :: "watch_state \<Rightarrow> rstr \<Rightarrow> bool \<times> watch_state" where
  "register_change_key st key =
     (if last_key st = Some key then (False, st)
      else (True, st\<lparr>last_key := Some key, debounce_generation := debounce_generation st + 1\<rparr>))"

interpretation watch_keys: change_detector last_key Some "\<lambda>key st. register_change_key st key"
  by unfold_locales (auto simp: register_change_key_def)

text \<open>
  The watcher: its state, the display names, the resolvers in flight, the debounce threads that
  still sleep (the generation they were scheduled in and the info they carry), those that have
  passed their check and are about to call the listeners, and what the listeners have received.
\<close>

type_synonym change = "nat \<times> foreground_info option"

record watcher =
  wt_state :: watch_state
  wt_names :: display_names
  wt_resolvers :: "resolver list"
  wt_pending :: "change list"
  wt_firing :: "change list"
  wt_delivered :: "change list"

definition watcher_new :: watcher where
  "watcher_new =
     \<lparr>wt_state = \<lparr>last_key = None, last_info = None, debounce_generation = 0\<rparr>,
      wt_names = \<lparr>dn_cache = (\<lambda>_. None), dn_pending = {}\<rparr>, wt_resolvers = [], wt_pending = [],
      wt_firing = [], wt_delivered = []\<rparr>"

definition without :: "nat \<Rightarrow> 'a list \<Rightarrow> 'a list" where
  "without i xs = take i xs @ drop (Suc i) xs"

text \<open>The Unicode tables and the file system a sample is taken with.\<close>

record watch_env =
  we_unicode :: unicode
  we_upper :: "scalar \<Rightarrow> rstr"
  we_mtime :: "rstr \<Rightarrow> rstr option"

definition current_shared ::
  "watch_env \<Rightarrow> raw_foreground_sample option \<Rightarrow> watcher \<Rightarrow> (foreground_info option \<times> watcher) option" where
  "current_shared env raw w =
     (case raw of
        None \<Rightarrow> Some (last_info (wt_state w), w)
      | Some r \<Rightarrow>
          (case rf_exe_path r of
             None \<Rightarrow> Some (last_info (wt_state w), w)
           | Some exe_path \<Rightarrow>
               let app = lowercase (we_unicode env) (win_basename exe_path)
               in if app = [] then Some (last_info (wt_state w), w)
                  else
                    Option.bind
                      (display_name_for (we_unicode env) (we_upper env) (we_mtime env) (Some exe_path) app (wt_names w))
                      (\<lambda>(name, names, started).
                         let info = \<lparr>fg_app_id = app, fg_exe_path = Some exe_path, fg_display_name = name,
                                     fg_window_title = rf_window_title r\<rparr>
                         in Some (Some info,
                              w\<lparr>wt_names := names,
                                wt_resolvers := (case started of None \<Rightarrow> wt_resolvers w | Some x \<Rightarrow> wt_resolvers w @ [x]),
                                wt_state := (wt_state w)\<lparr>last_info := Some info\<rparr>\<rparr>))))"

text \<open>A poll samples first; registering the key is a second locked segment.\<close>

definition register_poll :: "foreground_info option \<Rightarrow> watcher \<Rightarrow> watcher" where
  "register_poll info w =
     (case register_change_key (wt_state w) (change_key info) of
        (False, _) \<Rightarrow> w
      | (True, st) \<Rightarrow> w\<lparr>wt_state := st, wt_pending := wt_pending w @ [(debounce_generation st, info)]\<rparr>)"

definition poll_once :: "watch_env \<Rightarrow> raw_foreground_sample option \<Rightarrow> watcher \<Rightarrow> watcher option" where
  "poll_once env raw w = map_option (\<lambda>(info, w1). register_poll info w1) (current_shared env raw w)"

text \<open>A debounce thread wakes up and checks its generation; then it calls the listeners.\<close>

definition debounce_ends :: "nat \<Rightarrow> watcher \<Rightarrow> watcher" where
  "debounce_ends i w =
     (case wt_pending w ! i of (gen, info) \<Rightarrow>
        let w1 = w\<lparr>wt_pending := without i (wt_pending w)\<rparr>
        in if debounce_generation (wt_state w) \<noteq> gen then w1
           else w1\<lparr>wt_firing := wt_firing w @ [(gen, info)]\<rparr>)"

definition fire :: "nat \<Rightarrow> watcher \<Rightarrow> watcher" where
  "fire i w =
     w\<lparr>wt_firing := without i (wt_firing w), wt_delivered := wt_delivered w @ [wt_firing w ! i]\<rparr>"

text \<open>The end of \<open>stop\<close>: the pending delivery is cancelled, the key forgotten, the info kept.\<close>

definition watcher_stop :: "watcher \<Rightarrow> watcher" where
  "watcher_stop w =
     w\<lparr>wt_state := (wt_state w)\<lparr>debounce_generation := debounce_generation (wt_state w) + 1, last_key := None\<rparr>\<rparr>"

text \<open>A resolver ends; when it found a description it polls again.\<close>

definition resolver_ends ::
  "watch_env \<Rightarrow> nat \<Rightarrow> unit + rstr option \<Rightarrow> raw_foreground_sample option \<Rightarrow> watcher \<Rightarrow> watcher option" where
  "resolver_ends env i result raw w =
     (let r = wt_resolvers w ! i
      in case resolver_result r result (wt_names w) of
           (again, names) \<Rightarrow>
             let w1 = w\<lparr>wt_names := names, wt_resolvers := without i (wt_resolvers w)\<rparr>
             in map_option (\<lambda>w2. w2\<lparr>wt_names := (wt_names w2)\<lparr>dn_pending := dn_pending (wt_names w2) - {fst r}\<rparr>\<rparr>)
                  (if again then poll_once env raw w1 else Some w1))"

text \<open>
  Between the two segments of a poll, other threads may run: \<open>Sample\<close> and \<open>Register\<close> are steps of
  their own, and an info that was sampled may be registered at any later time.
\<close>

inductive watch_step :: "watch_env \<Rightarrow> watcher \<Rightarrow> watcher \<Rightarrow> bool" for env where
  Sample: "current_shared env raw w = Some (info, w') \<Longrightarrow> watch_step env w w'"
| Register: "watch_step env w (register_poll info w)"
| Debounce: "i < length (wt_pending w) \<Longrightarrow> watch_step env w (debounce_ends i w)"
| Fire: "i < length (wt_firing w) \<Longrightarrow> watch_step env w (fire i w)"
| Resolve: "i < length (wt_resolvers w) \<Longrightarrow> resolver_ends env i result raw w = Some w' \<Longrightarrow> watch_step env w w'"
| Stop: "watch_step env w (watcher_stop w)"

inductive watch_reachable :: "watch_env \<Rightarrow> watcher \<Rightarrow> bool" for env where
  Start: "watch_reachable env watcher_new"
| Step: "watch_reachable env w \<Longrightarrow> watch_step env w w' \<Longrightarrow> watch_reachable env w'"

section \<open>Lemmas on names\<close>

lemma from_utf16_lossy_utf16:
  assumes "is_scalar c"
  shows "from_utf16_lossy (utf16 c @ us) = c # from_utf16_lossy us"
proof (cases "c < 65536")
  case True
  then show ?thesis using assms by (auto simp: utf16_def is_scalar_def)
next
  case False
  let ?hi = "(c - 65536) div 1024" and ?lo = "(c - 65536) mod 1024"
  have "?hi < 1024" using assms False by (auto simp: is_scalar_def)
  moreover have "?lo < 1024" by simp
  moreover have "65536 + (?hi * 1024 + ?lo) = c" using False by simp
  ultimately show ?thesis using False by (simp add: utf16_def)
qed

lemma from_utf16_lossy_exact: "wf_str s \<Longrightarrow> from_utf16_lossy (utf16_units s) = s"
  by (induction s) (auto simp: wf_str_def from_utf16_lossy_utf16)

lemma from_utf16_lossy_wf: "\<forall>u \<in> set us. u < 65536 \<Longrightarrow> wf_str (from_utf16_lossy us)"
  by (induction us rule: from_utf16_lossy.induct)
    (auto simp: wf_str_def is_scalar_def split: list.splits)

lemma split_at_byte_0 [simp]: "split_at_byte 0 s = Some ([], s)"
  by (cases s) simp_all

lemma split_at_byte_append: "split_at_byte (length (str_bytes s)) (s @ t) = Some (s, t)"
  by (induction s) auto

lemma split_at_byte_Some:
  "split_at_byte n s = Some (a, b) \<longleftrightarrow> s = a @ b \<and> n = length (str_bytes a)"
proof (induction s arbitrary: n a)
  case (Cons c s)
  show ?case
    by (cases a) (auto simp: Cons.IH)
qed auto

text \<open>A name panics exactly when four bytes from its end is no character boundary.\<close>

lemma exe_stem_panics_iff:
  "exe_stem_display_name upper i = None \<longleftrightarrow>
     4 \<le> length (str_bytes (win_basename i)) \<and>
     \<not> (\<exists>a b. win_basename i = a @ b \<and> length (str_bytes b) = 4)"
proof -
  let ?base = "win_basename i" and ?len = "length (str_bytes (win_basename i))"
  have "split_at_byte (?len - 4) ?base = None \<longleftrightarrow> (\<forall>a b. ?base = a @ b \<longrightarrow> length (str_bytes b) \<noteq> 4)"
    if "4 \<le> ?len"
  proof -
    have "split_at_byte (?len - 4) ?base = None \<longleftrightarrow> (\<forall>a b. \<not> (?base = a @ b \<and> ?len - 4 = length (str_bytes a)))"
      by (cases "split_at_byte (?len - 4) ?base") (auto simp flip: split_at_byte_Some)
    also have "\<dots> \<longleftrightarrow> (\<forall>a b. ?base = a @ b \<longrightarrow> length (str_bytes b) \<noteq> 4)"
    proof -
      have "?len - 4 = length (str_bytes a) \<longleftrightarrow> length (str_bytes b) = 4" if "?base = a @ b" for a b
      proof -
        have "?len = length (str_bytes a) + length (str_bytes b)" using that by (simp add: str_bytes_append)
        then show ?thesis using \<open>4 \<le> ?len\<close> by linarith
      qed
      then show ?thesis by blast
    qed
    finally show ?thesis .
  qed
  then show ?thesis
    by (auto simp: exe_stem_display_name_def Let_def bind_eq_None_conv split: if_splits)
qed

section \<open>The invariant of the watcher\<close>

definition change_list :: "watcher \<Rightarrow> change list" where
  "change_list w = wt_pending w @ wt_firing w @ wt_delivered w"

definition watch_ok :: "watcher \<Rightarrow> bool" where
  "watch_ok w \<longleftrightarrow>
     distinct (map fst (change_list w)) \<and>
     (\<forall>g info. (g, info) \<in> set (change_list w) \<longrightarrow> g \<le> debounce_generation (wt_state w)) \<and>
     (\<forall>info. (debounce_generation (wt_state w), info) \<in> set (wt_pending w) \<longrightarrow>
        last_key (wt_state w) = Some (change_key info))"

lemma watch_ok_le: "watch_ok w \<Longrightarrow> c \<in> set (change_list w) \<Longrightarrow> fst c \<le> debounce_generation (wt_state w)"
  unfolding watch_ok_def by (metis prod.collapse)

lemma current_shared_keeps:
  assumes "current_shared env raw w = Some (info, w')"
  shows "last_key (wt_state w') = last_key (wt_state w) \<and>
    debounce_generation (wt_state w') = debounce_generation (wt_state w) \<and>
    wt_pending w' = wt_pending w \<and> wt_firing w' = wt_firing w \<and> wt_delivered w' = wt_delivered w"
  using assms by (auto simp: current_shared_def Let_def bind_eq_Some_conv split: option.splits if_splits)

lemma watch_ok_cong:
  assumes "watch_ok w" and "last_key (wt_state w') = last_key (wt_state w)"
    and "debounce_generation (wt_state w') = debounce_generation (wt_state w)"
    and "wt_pending w' = wt_pending w" and "wt_firing w' = wt_firing w" and "wt_delivered w' = wt_delivered w"
  shows "watch_ok w'"
  using assms by (simp add: watch_ok_def change_list_def)

lemma register_poll_ok:
  assumes "watch_ok w"
  shows "watch_ok (register_poll info w)"
proof (cases "last_key (wt_state w) = Some (change_key info)")
  case True
  then show ?thesis using assms by (simp add: register_poll_def register_change_key_def)
next
  case False
  let ?g = "debounce_generation (wt_state w)"
  have le: "g \<le> ?g" if "(g, i) \<in> set (change_list w)" for g i
    using that assms by (auto simp: watch_ok_def)
  have new: "Suc ?g \<notin> fst ` set (change_list w)" using le by force
  have "distinct (map fst (wt_pending w @ (Suc ?g, info) # wt_firing w @ wt_delivered w))"
    using assms new by (auto simp: watch_ok_def change_list_def)
  moreover have "g \<le> Suc ?g" if "(g, i) \<in> set (change_list w)" for g i
    using le [OF that] by simp
  moreover have "(Suc ?g, i) \<notin> set (wt_pending w)" for i
    using le [of "Suc ?g" i] by (auto simp: change_list_def)
  ultimately show ?thesis
    using False by (auto simp: register_poll_def register_change_key_def watch_ok_def change_list_def)
qed

lemma without_split: "i < length xs \<Longrightarrow> xs = take i xs @ xs ! i # drop (Suc i) xs"
  by (rule id_take_nth_drop)

lemma without_set: "set (without i xs) \<subseteq> set xs"
  by (auto simp: without_def dest: in_set_takeD in_set_dropD)

lemma distinct_move:
  assumes "i < length xs" and "distinct (map f (xs @ ys))"
  shows "distinct (map f (without i xs @ ys))" and "distinct (map f (without i xs @ ys @ [xs ! i]))"
proof -
  have "mset (without i xs @ ys @ [xs ! i]) = mset (xs @ ys)"
    by (subst (2) without_split [OF assms(1)]) (simp add: without_def)
  then have "mset (map f (without i xs @ ys @ [xs ! i])) = mset (map f (xs @ ys))"
    by (metis mset_map)
  then show d: "distinct (map f (without i xs @ ys @ [xs ! i]))"
    using assms(2) mset_eq_imp_distinct_iff by blast
  then show "distinct (map f (without i xs @ ys))" by simp
qed

lemma debounce_ends_ok:
  assumes "watch_ok w" and "i < length (wt_pending w)"
  shows "watch_ok (debounce_ends i w)"
proof -
  obtain gen info where c: "wt_pending w ! i = (gen, info)" by force
  note m = distinct_move [OF assms(2), of fst "wt_firing w @ wt_delivered w"]
  have d: "distinct (map fst (wt_pending w @ wt_firing w @ wt_delivered w))"
    using assms(1) by (simp add: watch_ok_def change_list_def)
  have sub: "set (without i (wt_pending w)) \<subseteq> set (wt_pending w)" by (rule without_set)
  have gen: "(gen, info) \<in> set (wt_pending w)" using c nth_mem [OF assms(2)] by simp
  show ?thesis
  proof (cases "debounce_generation (wt_state w) = gen")
    case True
    have "set (change_list (debounce_ends i w)) \<subseteq> set (change_list w)"
      using sub gen by (auto simp: change_list_def debounce_ends_def c Let_def)
    moreover have "mset (change_list (debounce_ends i w)) =
        mset (without i (wt_pending w) @ (wt_firing w @ wt_delivered w) @ [wt_pending w ! i])"
      using True by (simp add: change_list_def debounce_ends_def c Let_def)
    then have "distinct (map fst (change_list (debounce_ends i w)))"
      using m(2) [OF d] by (metis mset_eq_imp_distinct_iff mset_map)
    ultimately show ?thesis
      using assms(1) sub True by (fastforce simp: watch_ok_def debounce_ends_def c Let_def)
  next
    case False
    then have "change_list (debounce_ends i w) = without i (wt_pending w) @ wt_firing w @ wt_delivered w"
      by (simp add: change_list_def debounce_ends_def c Let_def)
    then show ?thesis
      using m(1) [OF d] assms(1) sub False
      by (auto simp: watch_ok_def debounce_ends_def c Let_def) (auto simp: change_list_def)
  qed
qed

lemma fire_ok:
  assumes "watch_ok w" and "i < length (wt_firing w)"
  shows "watch_ok (fire i w)"
proof -
  have "mset (without i (wt_firing w) @ [wt_firing w ! i]) = mset (wt_firing w)"
    by (subst (3) without_split [OF assms(2)]) (simp add: without_def)
  then have m: "mset (change_list (fire i w)) = mset (change_list w)"
    by (simp add: change_list_def fire_def)
  then have "distinct (map fst (change_list (fire i w))) = distinct (map fst (change_list w))"
    by (metis mset_eq_imp_distinct_iff mset_map)
  moreover have "set (change_list (fire i w)) = set (change_list w)" using m by (metis set_mset_mset)
  ultimately show ?thesis using assms(1) by (simp add: watch_ok_def fire_def)
qed

lemma watcher_stop_ok:
  assumes "watch_ok w"
  shows "watch_ok (watcher_stop w)"
proof -
  have le: "g \<le> debounce_generation (wt_state w)" if "(g, i) \<in> set (change_list w)" for g i
    using that assms by (auto simp: watch_ok_def)
  have "(Suc (debounce_generation (wt_state w)), i) \<notin> set (wt_pending w)" for i
    using le [of "Suc (debounce_generation (wt_state w))" i] by (auto simp: change_list_def)
  then show ?thesis
    using assms le by (auto simp: watch_ok_def watcher_stop_def change_list_def intro: le_SucI)
qed

lemma current_shared_ok:
  assumes "watch_ok w" and "current_shared env raw w = Some (info, w')"
  shows "watch_ok w'"
  by (rule watch_ok_cong [OF assms(1)]) (use current_shared_keeps [OF assms(2)] in simp_all)

lemma poll_once_ok:
  assumes "watch_ok w" and "poll_once env raw w = Some w'"
  shows "watch_ok w'"
proof -
  obtain info w1 where "current_shared env raw w = Some (info, w1)" "w' = register_poll info w1"
    using assms(2) by (auto simp: poll_once_def)
  then show ?thesis using register_poll_ok current_shared_ok [OF assms(1)] by blast
qed

lemma watch_ok_names:
  "watch_ok (w\<lparr>wt_names := n\<rparr>) = watch_ok w" "watch_ok (w\<lparr>wt_names := n, wt_resolvers := rs\<rparr>) = watch_ok w"
  by (simp_all add: watch_ok_def change_list_def)

lemma resolver_ends_ok:
  assumes "watch_ok w" and "resolver_ends env i result raw w = Some w'"
  shows "watch_ok w'"
proof -
  obtain again names where r: "resolver_result (wt_resolvers w ! i) result (wt_names w) = (again, names)" by force
  let ?w1 = "w\<lparr>wt_names := names, wt_resolvers := without i (wt_resolvers w)\<rparr>"
  have ok1: "watch_ok ?w1" using assms(1) by (simp add: watch_ok_names)
  from assms(2) r obtain w2 where "(if again then poll_once env raw ?w1 else Some ?w1) = Some w2"
    and w': "w' = w2\<lparr>wt_names := (wt_names w2)\<lparr>dn_pending := dn_pending (wt_names w2) - {fst (wt_resolvers w ! i)}\<rparr>\<rparr>"
    by (auto simp: resolver_ends_def Let_def)
  then have "watch_ok w2" using ok1 poll_once_ok [OF ok1] by (auto split: if_splits)
  then show ?thesis by (simp add: w' watch_ok_names)
qed

lemma watch_step_ok: "watch_step env w w' \<Longrightarrow> watch_ok w \<Longrightarrow> watch_ok w'"
  by (induction rule: watch_step.induct)
    (auto intro: register_poll_ok debounce_ends_ok fire_ok watcher_stop_ok resolver_ends_ok current_shared_ok)

lemma watch_reachable_ok: "watch_reachable env w \<Longrightarrow> watch_ok w"
proof (induction rule: watch_reachable.induct)
  case Start
  show ?case by (simp add: watch_ok_def watcher_new_def change_list_def)
qed (rule watch_step_ok)

section \<open>Properties\<close>

text \<open>
  C30: the debounce delivers the latest change, once. In every reachable state of the watcher, no
  change is waiting, being fired or delivered twice; a debounce thread that passes its check
  carries an info whose key is the last one registered, so every change before it has been
  superseded; and the infos that still wait are older and will be dropped.
\<close>

theorem debounce_delivers_latest:
  assumes "watch_reachable env w" and "i < length (wt_pending w)"
  shows "distinct (map fst (wt_pending w @ wt_firing w @ wt_delivered w)) \<and>
    (wt_firing (debounce_ends i w) = wt_firing w \<or>
     wt_firing (debounce_ends i w) = wt_firing w @ [wt_pending w ! i] \<and>
     last_key (wt_state w) = Some (change_key (snd (wt_pending w ! i))) \<and>
     (\<forall>c \<in> set (wt_pending (debounce_ends i w)). fst c < debounce_generation (wt_state w)))"
proof -
  obtain gen info where c: "wt_pending w ! i = (gen, info)" by force
  have ok: "watch_ok w" using assms(1) by (rule watch_reachable_ok)
  then have d: "distinct (map fst (wt_pending w @ wt_firing w @ wt_delivered w))"
    by (simp add: watch_ok_def change_list_def)
  show ?thesis
  proof (cases "gen = debounce_generation (wt_state w)")
    case True
    have "fst x < debounce_generation (wt_state w)" if x: "x \<in> set (without i (wt_pending w))" for x
    proof -
      have "x \<in> set (wt_pending w)" using x without_set [of i "wt_pending w"] by auto
      then have "fst x \<le> debounce_generation (wt_state w)"
        using watch_ok_le [OF ok, of x] by (simp add: change_list_def)
      moreover have "distinct (map fst (without i (wt_pending w) @ [wt_pending w ! i]))"
        using distinct_move(2) [OF assms(2), of fst "[]"] d by simp
      then have "gen \<notin> fst ` set (without i (wt_pending w))" using c by simp
      then have "fst x \<noteq> gen" using x by blast
      ultimately show ?thesis using True by simp
    qed
    moreover have "(gen, info) \<in> set (wt_pending w)" using c nth_mem [OF assms(2)] by simp
    then have "last_key (wt_state w) = Some (change_key info)" using ok True by (simp add: watch_ok_def)
    ultimately show ?thesis using d True c by (simp add: debounce_ends_def Let_def)
  next
    case False
    then show ?thesis using d c by (simp add: debounce_ends_def Let_def)
  qed
qed

text \<open>A concrete watcher.\<close>

definition sample_watch_env :: watch_env where
  "sample_watch_env = \<lparr>we_unicode = ascii_unicode, we_upper = (\<lambda>c. [c]), we_mtime = (\<lambda>_. Some (lit ''1''))\<rparr>"

definition sample_raw :: raw_foreground_sample where
  "sample_raw = \<lparr>rf_window_title = None, rf_process_id = Some 7, rf_exe_path = Some (lit ''a.exe'')\<rparr>"

definition named_info :: "rstr \<Rightarrow> foreground_info" where
  "named_info name = \<lparr>fg_app_id = lit ''a.exe'', fg_exe_path = Some (lit ''a.exe''), fg_display_name = name,
     fg_window_title = None\<rparr>"

definition sample_watcher :: "watch_state \<Rightarrow> display_names \<Rightarrow> resolver list \<Rightarrow> change list \<Rightarrow> change list \<Rightarrow> change list \<Rightarrow> watcher" where
  "sample_watcher st names rs pending firing delivered =
     \<lparr>wt_state = st, wt_names = names, wt_resolvers = rs, wt_pending = pending, wt_firing = firing, wt_delivered = delivered\<rparr>"

lemma sample_names:
  "win_basename (lit ''a.exe'') = lit ''a.exe''" "lowercase ascii_unicode (lit ''a.exe'') = lit ''a.exe''"
  "exe_stem_display_name (\<lambda>c. [c]) (lit ''a.exe'') = Some (lit ''a'')"
  "display_name_cache_key ascii_unicode (\<lambda>_. Some (lit ''1'')) (lit ''a.exe'') = Some (lit ''a.exe|1'')"
  by (simp_all add: win_basename_def is_path_separator_def ascii_unicode_def ascii_lower_char_def lit_def
      exe_stem_display_name_def utf8_def ends_exe_def eq_ignore_ascii_case_def capitalized_def
      display_name_cache_key_def Let_def lower_byte_def)

lemmas run_watcher =
  sample_watcher_def current_shared_def display_name_for_def register_poll_def register_change_key_def
  debounce_ends_def fire_def without_def sample_raw_def named_info_def Let_def

lemma sample_env_fields [simp]:
  "we_unicode sample_watch_env = ascii_unicode" "we_upper sample_watch_env = (\<lambda>c. [c])"
  "we_mtime sample_watch_env = (\<lambda>_. Some (lit ''1''))"
  by (simp_all add: sample_watch_env_def)

abbreviation sample_key :: rstr where
  "sample_key \<equiv> change_key (Some (named_info (lit ''a'')))"

lemma sample_sampled:
  "current_shared sample_watch_env (Some sample_raw) watcher_new = Some (Some (named_info (lit ''a'')),
     sample_watcher \<lparr>last_key = None, last_info = Some (named_info (lit ''a'')), debounce_generation = 0\<rparr>
       \<lparr>dn_cache = (\<lambda>_. None), dn_pending = {lit ''a.exe|1''}\<rparr> [(lit ''a.exe|1'', lit ''a.exe'', lit ''a'')] [] [] [])"
  using sample_names(1,2,3,4) by (simp add: run_watcher watcher_new_def lit_def)

lemma sample_registered:
  "register_poll (Some (named_info (lit ''a'')))
     (sample_watcher \<lparr>last_key = None, last_info = i, debounce_generation = g\<rparr> n rs [] [] ds) =
   sample_watcher \<lparr>last_key = Some sample_key, last_info = i, debounce_generation = g + 1\<rparr> n rs
     [(g + 1, Some (named_info (lit ''a'')))] [] ds"
  by (simp add: run_watcher)

lemma sample_delivered:
  "fire 0 (debounce_ends 0 (sample_watcher \<lparr>last_key = k, last_info = i, debounce_generation = g\<rparr> n rs [(g, info)] [] ds)) =
   sample_watcher \<lparr>last_key = k, last_info = i, debounce_generation = g\<rparr> n rs [] [] (ds @ [(g, info)])"
  by (simp add: run_watcher)

text \<open>The watcher that has delivered its first change while the resolver is still running.\<close>

definition first_change :: watcher where
  "first_change =
     sample_watcher \<lparr>last_key = Some sample_key, last_info = Some (named_info (lit ''a'')), debounce_generation = 1\<rparr>
       \<lparr>dn_cache = (\<lambda>_. None), dn_pending = {lit ''a.exe|1''}\<rparr> [(lit ''a.exe|1'', lit ''a.exe'', lit ''a'')] [] []
       [(1, Some (named_info (lit ''a'')))]"

definition waiting_change :: watcher where
  "waiting_change =
     sample_watcher \<lparr>last_key = Some sample_key, last_info = Some (named_info (lit ''a'')), debounce_generation = 1\<rparr>
       \<lparr>dn_cache = (\<lambda>_. None), dn_pending = {lit ''a.exe|1''}\<rparr> [(lit ''a.exe|1'', lit ''a.exe'', lit ''a'')]
       [(1, Some (named_info (lit ''a'')))] [] []"

lemma waiting_change_reachable: "watch_reachable sample_watch_env waiting_change"
proof -
  let ?w1 = "sample_watcher \<lparr>last_key = None, last_info = Some (named_info (lit ''a'')), debounce_generation = 0\<rparr>
       \<lparr>dn_cache = (\<lambda>_. None), dn_pending = {lit ''a.exe|1''}\<rparr> [(lit ''a.exe|1'', lit ''a.exe'', lit ''a'')] [] [] []"
  have "watch_reachable sample_watch_env ?w1"
    by (rule watch_reachable.Step [OF watch_reachable.Start Sample]) (rule sample_sampled)
  then have "watch_reachable sample_watch_env (register_poll (Some (named_info (lit ''a''))) ?w1)"
    by (rule watch_reachable.Step) (rule Register)
  then show ?thesis unfolding sample_registered by (simp add: waiting_change_def)
qed

lemma first_change_reachable: "watch_reachable sample_watch_env first_change"
proof -
  have "watch_reachable sample_watch_env (debounce_ends 0 waiting_change)"
    by (rule watch_reachable.Step [OF waiting_change_reachable Debounce]) (simp add: waiting_change_def sample_watcher_def)
  then have "watch_reachable sample_watch_env (fire 0 (debounce_ends 0 waiting_change))"
    by (rule watch_reachable.Step) (rule Fire, simp add: waiting_change_def run_watcher)
  then show ?thesis
    unfolding waiting_change_def sample_delivered by (simp add: first_change_def)
qed

lemma debounce_delivers_latest_witness:
  "wt_firing (debounce_ends 0 waiting_change) = [(1, Some (named_info (lit ''a'')))] \<and>
   last_key (wt_state waiting_change) = Some (change_key (snd (wt_pending waiting_change ! 0)))"
proof -
  have n: "0 < length (wt_pending waiting_change)" by (simp add: waiting_change_def sample_watcher_def)
  have "wt_firing (debounce_ends 0 waiting_change) = [(1, Some (named_info (lit ''a'')))]"
    and "wt_firing waiting_change = []"
    by (simp_all add: waiting_change_def run_watcher)
  then show ?thesis
    using debounce_delivers_latest [OF waiting_change_reachable n] by simp
qed

text \<open>
  The listeners may hear after a stop. Stopping cancels the pending delivery and forgets the
  key, but a name resolver that is still running polls again when it ends: the watcher then
  registers a key and delivers a change, the same one once more, although it has been stopped.
\<close>

theorem delivery_after_stop:
  "\<exists>w. watch_reachable sample_watch_env first_change \<and>
     resolver_ends sample_watch_env 0 (Inr (Some (lit ''App''))) (Some sample_raw) (watcher_stop first_change) = Some w \<and>
     last_key (wt_state w) = last_key (wt_state first_change) \<and>
     wt_delivered (fire 0 (debounce_ends 0 w)) =
       wt_delivered (watcher_stop first_change) @ [(3, Some (named_info (lit ''App'')))]"
proof -
  let ?k = "lit ''a.exe|1''"
  define w1 where "w1 = sample_watcher \<lparr>last_key = None, last_info = Some (named_info (lit ''a'')), debounce_generation = 2\<rparr>
     \<lparr>dn_cache = [?k \<mapsto> lit ''App''], dn_pending = {?k}\<rparr> [] [] [] [(1, Some (named_info (lit ''a'')))]"
  have poll: "poll_once sample_watch_env (Some sample_raw) w1 = Some (sample_watcher
     \<lparr>last_key = Some sample_key, last_info = Some (named_info (lit ''App'')), debounce_generation = 3\<rparr>
     \<lparr>dn_cache = [?k \<mapsto> lit ''App''], dn_pending = {?k}\<rparr> [] [(3, Some (named_info (lit ''App'')))] []
     [(1, Some (named_info (lit ''a'')))])"
    using sample_names by (simp add: poll_once_def run_watcher w1_def lit_def)
  have "resolver_ends sample_watch_env 0 (Inr (Some (lit ''App''))) (Some sample_raw) (watcher_stop first_change) =
     map_option (\<lambda>w2. w2\<lparr>wt_names := (wt_names w2)\<lparr>dn_pending := dn_pending (wt_names w2) - {?k}\<rparr>\<rparr>)
       (poll_once sample_watch_env (Some sample_raw) w1)"
    by (simp add: resolver_ends_def watcher_stop_def first_change_def sample_watcher_def resolver_result_def
        without_def w1_def Let_def eval_nat_numeral)
  then show ?thesis
    unfolding poll using first_change_reachable
    by (simp add: watcher_stop_def first_change_def run_watcher)
qed

lemma exe_suffix_never_panics: "win_basename i = q @ x \<Longrightarrow> ends_exe x \<Longrightarrow> exe_stem_display_name upper i \<noteq> None"
proof -
  assume b: "win_basename i = q @ x" and "ends_exe x"
  then have "length (str_bytes x) = length (str_bytes (lit ''.exe''))"
    unfolding ends_exe_def eq_ignore_ascii_case_def by (metis length_map)
  also have "\<dots> = 4" by (simp add: lit_def utf8_def)
  finally show ?thesis using b exe_stem_panics_iff by blast
qed

text \<open>
  A name that is not an executable name can panic. A sample panics exactly when the base name
  has at least four bytes and its last four do not start at a character boundary; with it the poll
  and every capture that samples the foreground end. A process image with a three-byte character
  before a one-letter extension is such a name.
\<close>

theorem display_name_panics:
  "(exe_stem_display_name (we_upper env) i = None \<longleftrightarrow>
      4 \<le> length (str_bytes (win_basename i)) \<and>
      \<not> (\<exists>a b. win_basename i = a @ b \<and> length (str_bytes b) = 4)) \<and>
   current_shared sample_watch_env (Some \<lparr>rf_window_title = t, rf_process_id = pid,
      rf_exe_path = Some (lit ''C:'' @ [92, 35486, 46, 97])\<rparr>) w = None"
proof -
  have b: "win_basename (lit ''C:'' @ [92, 35486, 46, 97]) = [35486, 46, 97]" "win_basename [35486, 46, 97] = [35486, 46, 97]"
    by (simp_all add: win_basename_def is_path_separator_def lit_def)
  have l: "lowercase ascii_unicode [35486, 46, 97] = [35486, 46, 97]"
    by (simp add: ascii_unicode_def ascii_lower_char_def)
  have p: "exe_stem_display_name (\<lambda>c. [c]) [35486, 46, 97] = None"
    by (simp add: exe_stem_display_name_def b utf8_def Let_def)
  have "current_shared sample_watch_env (Some \<lparr>rf_window_title = t, rf_process_id = pid,
      rf_exe_path = Some (lit ''C:'' @ [92, 35486, 46, 97])\<rparr>) w = None"
    by (simp add: current_shared_def b l display_name_for_def Let_def p)
  then show ?thesis using exe_stem_panics_iff [of "we_upper env" i] by (intro conjI)
qed

end
