(* ===== verification/Runtime.thy ===== *)
theory Runtime
  imports Change_Detection Datamodel
begin

text \<open>
  The runtime helpers (\<open>core/src/runtime/logger.rs\<close>, \<open>suspend_detector.rs\<close>) and the session and
  power events (\<open>core/src/capture/system_events.rs\<close>). The clock, the Win32 calls and the threads'
  schedules are arguments.
\<close>

section \<open>Logger\<close>

datatype log_level = Debug | Info | Warn | Error

fun log_level_as_str :: "log_level \<Rightarrow> rstr" where
  "log_level_as_str Debug = lit ''debug''"
| "log_level_as_str Info = lit ''info''"
| "log_level_as_str Warn = lit ''warn''"
| "log_level_as_str Error = lit ''error''"

fun level_rank :: "log_level \<Rightarrow> nat" where
  "level_rank Debug = 0"
| "level_rank Info = 1"
| "level_rank Warn = 2"
| "level_rank Error = 3"

instantiation log_level :: linorder
begin

definition less_eq_log_level :: "log_level \<Rightarrow> log_level \<Rightarrow> bool" where
  "less_eq_log_level a b \<longleftrightarrow> level_rank a \<le> level_rank b"

definition less_log_level :: "log_level \<Rightarrow> log_level \<Rightarrow> bool" where
  "less_log_level a b \<longleftrightarrow> level_rank a < level_rank b"

instance
proof
  fix a b :: log_level
  show "a \<le> b \<Longrightarrow> b \<le> a \<Longrightarrow> a = b"
    by (cases a; cases b) (simp_all add: less_eq_log_level_def)
qed (auto simp: less_eq_log_level_def less_log_level_def)

end

definition RING_LIMIT :: nat where
  "RING_LIMIT = 200"

record logger_state =
  lg_minimum :: log_level
  lg_ring :: "rstr list"

definition logger_new :: logger_state where
  "logger_new = \<lparr>lg_minimum = Info, lg_ring = []\<rparr>"

definition format_line :: "log_level \<Rightarrow> rstr \<Rightarrow> rstr \<Rightarrow> rstr \<Rightarrow> rstr" where
  "format_line level scope message timestamp =
     timestamp @ lit '' ['' @ log_level_as_str level @ lit ''] '' @ scope @ lit '': '' @ message"

definition append_line ::
  "log_level \<Rightarrow> rstr \<Rightarrow> rstr \<Rightarrow> rstr \<Rightarrow> logger_state \<Rightarrow> rstr option \<times> logger_state" where
  "append_line level scope message now st =
     (if level < lg_minimum st then (None, st)
      else
        let line = format_line level scope message now;
            ring = lg_ring st @ [line]
        in (Some line, st\<lparr>lg_ring := (if length ring > RING_LIMIT then tl ring else ring)\<rparr>))"

definition set_log_level :: "log_level \<Rightarrow> logger_state \<Rightarrow> logger_state" where
  "set_log_level level st = st\<lparr>lg_minimum := level\<rparr>"

datatype stream = Stdout | Stderr

definition log :: "log_level \<Rightarrow> rstr \<Rightarrow> rstr \<Rightarrow> rstr \<Rightarrow> logger_state \<Rightarrow> (stream \<times> rstr) option \<times> logger_state" where
  "log level scope message now st =
     (case append_line level scope message now st of
        (None, st') \<Rightarrow> (None, st')
      | (Some line, st') \<Rightarrow> (Some (if level = Warn \<or> level = Error then Stderr else Stdout, line), st'))"

text \<open>A run of the logger: calls with their time stamps and level changes.\<close>

datatype log_call = LogLine log_level rstr rstr rstr | SetLevel log_level

fun run_call :: "log_call \<Rightarrow> logger_state \<Rightarrow> (stream \<times> rstr) option \<times> logger_state" where
  "run_call (LogLine level scope message now) st = log level scope message now st"
| "run_call (SetLevel level) st = (None, set_log_level level st)"

fun log_run :: "log_call list \<Rightarrow> logger_state \<Rightarrow> (stream \<times> rstr) list \<times> logger_state" where
  "log_run [] st = ([], st)"
| "log_run (c # cs) st =
     (case run_call c st of
        (out, st1) \<Rightarrow>
          case log_run cs st1 of
            (outs, st2) \<Rightarrow> ((case out of None \<Rightarrow> outs | Some x \<Rightarrow> x # outs), st2))"

text \<open>\<open>recent_log_lines\<close>\<close>

definition recent_log_lines :: "logger_state \<Rightarrow> rstr list" where
  "recent_log_lines st = lg_ring st"

definition last_n :: "nat \<Rightarrow> 'a list \<Rightarrow> 'a list" where
  "last_n n xs = drop (length xs - n) xs"

lemma last_n_append: "last_n n (last_n n xs @ ys) = last_n n (xs @ ys)"
proof (cases "n \<le> length xs")
  case True
  then show ?thesis by (simp add: last_n_def add.commute)
qed (simp add: last_n_def)

lemma last_n_id: "length xs \<le> n \<Longrightarrow> last_n n xs = xs"
  by (simp add: last_n_def)

lemma last_n_length: "length (last_n n xs) \<le> n"
  by (simp add: last_n_def)

lemma last_n_push: "length xs \<le> n \<Longrightarrow> (if length (xs @ [x]) > n then tl (xs @ [x]) else xs @ [x]) = last_n n (xs @ [x])"
proof (cases "length xs = n")
  case True
  then show ?thesis by (simp add: last_n_def drop_Suc del: drop_append)
qed (simp add: last_n_def)

definition out_lines :: "rstr option \<Rightarrow> rstr list" where
  "out_lines r = (case r of None \<Rightarrow> [] | Some l \<Rightarrow> [l])"

lemma append_line_ring:
  assumes "length (lg_ring st) \<le> RING_LIMIT" and "append_line level scope message now st = (r, st')"
  shows "lg_ring st' = last_n RING_LIMIT (lg_ring st @ out_lines r)"
  using assms last_n_push [OF assms(1)] last_n_id [OF assms(1)]
  by (auto simp: append_line_def Let_def out_lines_def split: if_splits)

lemma run_call_ring:
  assumes "length (lg_ring st) \<le> RING_LIMIT" and "run_call c st = (out, st')"
  shows "lg_ring st' = last_n RING_LIMIT (lg_ring st @ out_lines (map_option snd out))"
proof (cases c)
  case (LogLine level scope message now)
  obtain r st1 where a: "append_line level scope message now st = (r, st1)" by force
  then have "st' = st1 \<and> map_option snd out = r"
    using assms(2) LogLine by (auto simp: log_def split: option.splits)
  then show ?thesis using append_line_ring [OF assms(1) a] by simp
next
  case (SetLevel level)
  then show ?thesis using assms(2) last_n_id [OF assms(1)] by (auto simp: set_log_level_def out_lines_def)
qed

lemma log_run_ring:
  assumes "length (lg_ring st) \<le> RING_LIMIT" and "log_run cs st = (outs, st')"
  shows "lg_ring st' = last_n RING_LIMIT (lg_ring st @ map snd outs)"
  using assms
proof (induction cs arbitrary: st outs)
  case Nil
  then show ?case by (simp add: last_n_id)
next
  case (Cons c cs)
  obtain out st1 where c: "run_call c st = (out, st1)" by force
  obtain outs' where r: "log_run cs st1 = (outs', st')" "outs = (case out of None \<Rightarrow> outs' | Some x \<Rightarrow> x # outs')"
    using Cons.prems c by (auto split: prod.splits)
  have s1: "lg_ring st1 = last_n RING_LIMIT (lg_ring st @ out_lines (map_option snd out))"
    using run_call_ring [OF Cons.prems(1) c] .
  have "length (lg_ring st1) \<le> RING_LIMIT" unfolding s1 by (rule last_n_length)
  then have "lg_ring st' = last_n RING_LIMIT (lg_ring st1 @ map snd outs')"
    using Cons.IH r(1) by blast
  then show ?case using s1 r(2)
    by (simp add: last_n_append out_lines_def split: option.splits)
qed

section \<open>Polling loops\<close>

text \<open>
  \<open>Control\<close> of the suspend detector and \<open>PollControl\<close> of the foreground watcher: a running flag,
  an epoch, and the join handle of the current thread. A thread is the epoch it was started with;
  it goes on only while the flag is set and the epoch is its own.
\<close>

record loop_control =
  lc_running :: bool
  lc_epoch :: nat
  lc_join :: "nat option"
  lc_threads :: "nat list"

definition loop_new :: loop_control where
  "loop_new = \<lparr>lc_running = False, lc_epoch = 0, lc_join = None, lc_threads = []\<rparr>"

definition loop_start :: "loop_control \<Rightarrow> loop_control" where
  "loop_start c =
     (if lc_join c \<noteq> None then c
      else let e = lc_epoch c + 1
           in c\<lparr>lc_running := True, lc_epoch := e, lc_join := Some e, lc_threads := lc_threads c @ [e]\<rparr>)"

text \<open>The locked part of \<open>stop\<close>; the join that follows waits for the thread.\<close>

definition loop_stop :: "loop_control \<Rightarrow> loop_control" where
  "loop_stop c = c\<lparr>lc_running := False, lc_join := None\<rparr>"

definition loop_goes_on :: "loop_control \<Rightarrow> nat \<Rightarrow> bool" where
  "loop_goes_on c e \<longleftrightarrow> lc_running c \<and> lc_epoch c = e"

definition loop_exit :: "nat \<Rightarrow> loop_control \<Rightarrow> loop_control" where
  "loop_exit e c = (if loop_goes_on c e then c else c\<lparr>lc_threads := filter (\<lambda>x. x \<noteq> e) (lc_threads c)\<rparr>)"

inductive loop_reachable :: "loop_control \<Rightarrow> bool" where
  LoopNew: "loop_reachable loop_new"
| LoopStart: "loop_reachable c \<Longrightarrow> loop_reachable (loop_start c)"
| LoopStop: "loop_reachable c \<Longrightarrow> loop_reachable (loop_stop c)"
| LoopExit: "loop_reachable c \<Longrightarrow> e \<in> set (lc_threads c) \<Longrightarrow> loop_reachable (loop_exit e c)"

definition loop_ok :: "loop_control \<Rightarrow> bool" where
  "loop_ok c \<longleftrightarrow> distinct (lc_threads c) \<and> (\<forall>e \<in> set (lc_threads c). e \<le> lc_epoch c) \<and>
     (lc_running c \<longleftrightarrow> lc_join c \<noteq> None) \<and>
     (lc_running c \<longrightarrow> lc_join c = Some (lc_epoch c) \<and> lc_epoch c \<in> set (lc_threads c))"

lemma loop_reachable_ok: "loop_reachable c \<Longrightarrow> loop_ok c"
proof (induction rule: loop_reachable.induct)
  case LoopNew
  show ?case by (simp add: loop_ok_def loop_new_def)
next
  case (LoopStart c)
  then show ?case by (fastforce simp: loop_ok_def loop_start_def Let_def)
next
  case (LoopStop c)
  then show ?case by (simp add: loop_ok_def loop_stop_def)
next
  case (LoopExit c e)
  then show ?case by (auto simp: loop_ok_def loop_exit_def loop_goes_on_def)
qed

text \<open>
  At most one polling loop works. However starts and stops of the suspend detector or of the
  foreground watcher interleave, while it is running exactly one of its threads goes on, and while
  it is stopped none does: an older loop can only exit.
\<close>

theorem one_polling_loop:
  assumes "loop_reachable c"
  shows "length (filter (loop_goes_on c) (lc_threads c)) = (if lc_running c then 1 else 0)"
proof (cases "lc_running c")
  case True
  have ok: "loop_ok c" using assms by (rule loop_reachable_ok)
  have "filter (loop_goes_on c) (lc_threads c) = filter (\<lambda>e. e = lc_epoch c) (lc_threads c)"
    using True by (intro filter_cong) (auto simp: loop_goes_on_def)
  moreover have "length (filter (\<lambda>e. e = lc_epoch c) (lc_threads c)) = 1"
    using ok True by (simp add: loop_ok_def distinct_length_filter Int_insert_left insert_absorb)
  ultimately show ?thesis using True by simp
qed (simp add: loop_goes_on_def)

lemma one_polling_loop_witness:
  "length (filter (loop_goes_on (loop_start (loop_stop (loop_start loop_new))))
     (lc_threads (loop_start (loop_stop (loop_start loop_new))))) = 1"
proof -
  have "loop_reachable (loop_start (loop_stop (loop_start loop_new)))"
    by (intro loop_reachable.intros)
  from one_polling_loop [OF this] show ?thesis
    by (simp add: loop_start_def loop_stop_def loop_new_def Let_def)
qed

section \<open>Suspend detector\<close>

definition DEFAULT_GAP_THRESHOLD_MS :: nat where
  "DEFAULT_GAP_THRESHOLD_MS = 15000"

text \<open>\<open>gap_ms > threshold_ms as i64\<close>: the cast wraps.\<close>

definition gap_exceeds :: "int \<Rightarrow> nat \<Rightarrow> bool" where
  "gap_exceeds gap threshold =
     (gap > (if threshold < 2 ^ 63 then int threshold else int threshold - 2 ^ 64))"

text \<open>One turn of \<open>sample_loop\<close>: whether the callback runs, and the new last tick.\<close>

definition sample_turn :: "nat \<Rightarrow> epoch_ms \<Rightarrow> epoch_ms \<Rightarrow> bool \<times> epoch_ms" where
  "sample_turn threshold now last_tick = (gap_exceeds (now - last_tick) threshold, now)"

text \<open>The instants at which the callback runs.\<close>

definition detected_gaps :: "nat \<Rightarrow> epoch_ms list \<Rightarrow> epoch_ms \<Rightarrow> epoch_ms list" where
  "detected_gaps threshold samples seed = fst (observe_all (sample_turn threshold) samples seed)"

lemma detected_gaps_zip:
  "detected_gaps threshold samples seed =
     map fst (filter (\<lambda>(now, before). gap_exceeds (now - before) threshold) (zip samples (seed # samples)))"
  unfolding detected_gaps_def
  by (induction samples arbitrary: seed) (simp_all add: sample_turn_def case_prod_beta)

section \<open>Session and power events\<close>

datatype event_kind = LockOrSleep | UnlockOrResume

definition wts_wparam_transition :: "nat \<Rightarrow> bool option" where
  "wts_wparam_transition wparam =
     (if wparam = 7 then Some True else if wparam = 8 then Some False else None)"

definition power_wparam_transition :: "nat \<Rightarrow> bool option" where
  "power_wparam_transition wparam =
     (if wparam = 4 \<or> wparam = 5 then Some True
      else if wparam = 6 \<or> wparam = 7 \<or> wparam = 8 then Some False
      else None)"

definition dedupe_transition :: "bool \<Rightarrow> bool \<Rightarrow> bool \<times> bool" where
  "dedupe_transition to_suspended suspended =
     (if to_suspended then (if suspended then (False, suspended) else (True, True))
      else (if \<not> suspended then (False, suspended) else (True, False)))"

interpretation dedupe: change_detector "\<lambda>suspended. suspended" "\<lambda>to. to" dedupe_transition
  by unfold_locales (auto simp: dedupe_transition_def)

text \<open>
  The shared state. \<open>ss_tx\<close> is the sender while started, \<open>ss_channel\<close> the events the dispatcher has
  not received yet, \<open>ss_called\<close> the listeners it has called, \<open>ss_window\<close> says whether the hidden
  window exists and \<open>ss_running\<close> whether its handles are held.
\<close>

record 'l sys_shared =
  ss_suspended :: bool
  ss_lock_listeners :: "(nat \<times> 'l) list"
  ss_resume_listeners :: "(nat \<times> 'l) list"
  ss_next_listener :: nat
  ss_tx :: bool
  ss_channel :: "event_kind list"
  ss_called :: "(event_kind \<times> 'l) list"
  ss_window :: bool
  ss_running :: bool

definition sys_new :: "'l sys_shared" where
  "sys_new =
     \<lparr>ss_suspended = False, ss_lock_listeners = [], ss_resume_listeners = [], ss_next_listener = 1,
      ss_tx = False, ss_channel = [], ss_called = [], ss_window = False,
      ss_running = False\<rparr>"

fun kind_of :: "bool \<Rightarrow> event_kind" where
  "kind_of True = LockOrSleep"
| "kind_of False = UnlockOrResume"

definition transition :: "bool \<Rightarrow> 'l sys_shared \<Rightarrow> 'l sys_shared" where
  "transition to_suspended s =
     (case dedupe_transition to_suspended (ss_suspended s) of
        (fired, suspended) \<Rightarrow>
          let s1 = s\<lparr>ss_suspended := suspended\<rparr>
          in if \<not> fired then s1
             else if ss_tx s1 then s1\<lparr>ss_channel := ss_channel s1 @ [kind_of to_suspended]\<rparr>
             else s1)"

text \<open>The window messages the subclass procedure handles itself.\<close>

datatype window_message = WtsSessionChange nat | PowerBroadcast nat | CloseWindow

definition wndproc :: "window_message \<Rightarrow> 'l sys_shared \<Rightarrow> int \<times> 'l sys_shared" where
  "wndproc msg s =
     (case msg of
        WtsSessionChange w \<Rightarrow>
          (0, case wts_wparam_transition w of Some b \<Rightarrow> transition b s | None \<Rightarrow> s)
      | PowerBroadcast w \<Rightarrow>
          (1, case power_wparam_transition w of Some b \<Rightarrow> transition b s | None \<Rightarrow> s)
      | CloseWindow \<Rightarrow> (0, s\<lparr>ss_window := False\<rparr>))"

text \<open>\<open>created\<close> says whether the window thread came up.\<close>

definition sys_start :: "bool \<Rightarrow> 'l sys_shared \<Rightarrow> bool \<times> 'l sys_shared" where
  "sys_start created s =
     (if ss_running s then (True, s)
      else if created then (True, s\<lparr>ss_tx := True, ss_channel := [], ss_window := True, ss_running := True\<rparr>)
      else (False, s\<lparr>ss_tx := False, ss_channel := []\<rparr>))"

fun listener_set :: "event_kind \<Rightarrow> 'l sys_shared \<Rightarrow> (nat \<times> 'l) list" where
  "listener_set LockOrSleep s = ss_lock_listeners s"
| "listener_set UnlockOrResume s = ss_resume_listeners s"

text \<open>The dispatcher receives one event and calls the listeners of that moment, in order.\<close>

definition dispatch_one :: "'l sys_shared \<Rightarrow> 'l sys_shared" where
  "dispatch_one s =
     (case ss_channel s of
        [] \<Rightarrow> s
      | k # ks \<Rightarrow>
          s\<lparr>ss_channel := ks, ss_called := ss_called s @ map (\<lambda>(_, l). (k, l)) (listener_set k s)\<rparr>)"

text \<open>Dropping the sender lets the dispatcher drain what is queued.\<close>

fun drain :: "event_kind list \<Rightarrow> 'l sys_shared \<Rightarrow> 'l sys_shared" where
  "drain [] s = s"
| "drain (k # ks) s = drain ks (dispatch_one s)"

definition sys_stop :: "'l sys_shared \<Rightarrow> 'l sys_shared" where
  "sys_stop s =
     (if \<not> ss_running s then s
      else let s1 = (snd (wndproc CloseWindow s))\<lparr>ss_tx := False, ss_running := False\<rparr> in drain (ss_channel s1) s1)"

definition register_listener :: "event_kind \<Rightarrow> 'l \<Rightarrow> 'l sys_shared \<Rightarrow> nat \<times> 'l sys_shared" where
  "register_listener k l s =
     (let i = ss_next_listener s; s1 = s\<lparr>ss_next_listener := i + 1\<rparr>
      in (i, case k of
               LockOrSleep \<Rightarrow> s1\<lparr>ss_lock_listeners := ss_lock_listeners s @ [(i, l)]\<rparr>
             | UnlockOrResume \<Rightarrow> s1\<lparr>ss_resume_listeners := ss_resume_listeners s @ [(i, l)]\<rparr>))"

definition unregister_listener :: "event_kind \<Rightarrow> nat \<Rightarrow> 'l sys_shared \<Rightarrow> 'l sys_shared" where
  "unregister_listener k i s =
     (case k of
        LockOrSleep \<Rightarrow> s\<lparr>ss_lock_listeners := filter (\<lambda>(j, _). j \<noteq> i) (ss_lock_listeners s)\<rparr>
      | UnlockOrResume \<Rightarrow> s\<lparr>ss_resume_listeners := filter (\<lambda>(j, _). j \<noteq> i) (ss_resume_listeners s)\<rparr>)"

section \<open>What the events tell\<close>

fun target_of :: "window_message \<Rightarrow> bool option" where
  "target_of (WtsSessionChange w) = wts_wparam_transition w"
| "target_of (PowerBroadcast w) = power_wparam_transition w"
| "target_of CloseWindow = None"

definition deliver_messages :: "window_message list \<Rightarrow> 'l sys_shared \<Rightarrow> 'l sys_shared" where
  "deliver_messages ms s = fold (\<lambda>m s. snd (wndproc m s)) ms s"

lemma transition_fields [simp]: "ss_tx (transition b s) = ss_tx s"
  by (simp add: transition_def Let_def split: prod.split)

lemma wndproc_target:
  "snd (wndproc m s) = (case target_of m of Some b \<Rightarrow> transition b s | None \<Rightarrow>
     (if m = CloseWindow then s\<lparr>ss_window := False\<rparr> else s))"
  by (cases m) (simp_all add: wndproc_def split: option.split)

lemma wndproc_channel:
  "ss_channel (snd (wndproc m s)) = ss_channel s @
     (case target_of m of None \<Rightarrow> [] | Some b \<Rightarrow>
        if ss_tx s \<and> fst (dedupe_transition b (ss_suspended s)) then [kind_of b] else [])"
  "ss_suspended (snd (wndproc m s)) =
     (case target_of m of None \<Rightarrow> ss_suspended s | Some b \<Rightarrow> snd (dedupe_transition b (ss_suspended s)))"
  "ss_tx (snd (wndproc m s)) = ss_tx s"
  by (auto simp: wndproc_target transition_def Let_def split: option.split prod.split)

text \<open>
  C36: locks and sleeps collapse into alternating transitions. Over any sequence of window
  messages, while started, the queued events are exactly the successive distinct states of the
  mapped messages after the state known before: they alternate, a resume without a prior lock or
  sleep is swallowed, and the flag is the last mapped state.
\<close>

theorem session_events_alternate:
  assumes "ss_tx s"
  shows "ss_channel (deliver_messages ms s) =
      ss_channel s @ map kind_of (tl (remdups_adj (ss_suspended s # List.map_filter target_of ms))) \<and>
    ss_suspended (deliver_messages ms s) = last (ss_suspended s # List.map_filter target_of ms)"
proof -
  have "ss_channel (deliver_messages ms s) =
      ss_channel s @ map kind_of (fst (observe_all dedupe_transition (List.map_filter target_of ms) (ss_suspended s))) \<and>
    ss_suspended (deliver_messages ms s) = snd (observe_all dedupe_transition (List.map_filter target_of ms) (ss_suspended s))"
    using assms
  proof (induction ms arbitrary: s)
    case (Cons m ms)
    have "ss_tx (snd (wndproc m s))" using Cons.prems by (simp add: wndproc_channel)
    from Cons.IH [OF this] Cons.prems show ?case
      by (auto simp: deliver_messages_def wndproc_channel map_filter_simps split: option.splits prod.splits)
  qed (simp add: deliver_messages_def map_filter_simps)
  then show ?thesis
    using dedupe.fired_keys [of "List.map_filter target_of ms" "ss_suspended s"]
      dedupe.known_after [of "List.map_filter target_of ms" "ss_suspended s"] by simp
qed

lemma session_events_alternate_witness:
  "ss_channel (deliver_messages [PowerBroadcast 18, WtsSessionChange 7, PowerBroadcast 4, PowerBroadcast 7, WtsSessionChange 8]
     (snd (sys_start True (sys_new :: unit sys_shared)))) = [LockOrSleep, UnlockOrResume]"
proof -
  have tx: "ss_tx (snd (sys_start True (sys_new :: unit sys_shared)))" by (simp add: sys_start_def sys_new_def)
  show ?thesis
    unfolding session_events_alternate [OF tx, THEN conjunct1]
    by (simp add: sys_start_def sys_new_def map_filter_simps wts_wparam_transition_def power_wparam_transition_def)
qed

text \<open>
  The ring holds the newest lines. After any run of log calls and level changes, the ring is
  exactly the last 200 lines that passed the level in force, in their order, and those lines are
  what was printed.
\<close>

theorem ring_holds_newest:
  assumes "log_run cs logger_new = (outs, st)"
  shows "recent_log_lines st = last_n RING_LIMIT (map snd outs) \<and> length (recent_log_lines st) \<le> 200"
  using log_run_ring [OF _ assms] last_n_length [of RING_LIMIT "map snd outs"]
  by (simp add: recent_log_lines_def logger_new_def RING_LIMIT_def)

lemma ring_holds_newest_witness:
  "recent_log_lines (snd (log_run [LogLine Debug (lit ''a'') (lit ''x'') [], LogLine Warn (lit ''b'') (lit ''y'') []] logger_new)) =
     [lit '' [warn] b: y'']"
proof -
  obtain outs st where r: "log_run [LogLine Debug (lit ''a'') (lit ''x'') [], LogLine Warn (lit ''b'') (lit ''y'') []] logger_new = (outs, st)"
    by force
  then have "outs = [(Stderr, lit '' [warn] b: y'')]"
    by (auto simp: log_def append_line_def logger_new_def less_log_level_def RING_LIMIT_def format_line_def lit_def Let_def)
  then show ?thesis
    using ring_holds_newest [OF r] r by (simp add: last_n_def RING_LIMIT_def)
qed

end
