(* ===== verification/App_System.thy ===== *)
theory App_System
  imports Service_Calls Service_Store Foreground Runtime Sequence_Store
begin

text \<open>
  The application as \<open>init\<close> of \<open>src/state.rs\<close> wires it: the stores are opened, the watcher, the
  system events and the service are built, and their callbacks reach the coordinator. A step of the
  system is a step of one part together with the callbacks it runs. \<open>App_Safety\<close> carries the
  behaviour of the coordinator to the whole application.
\<close>

section \<open>State\<close>

text \<open>The two listeners registered with the system events.\<close>

datatype session_listener = SleepListener | WakeListener

text \<open>
  The capture of the refresh loop reads the privacy configuration after its media await and again before
  its application branch, and returns later; the loop's last check comes after that. The flag says whether
  media was asked for.
\<close>

datatype capture_phase =
  MediaRead bool privacy_config
| CaptureReturned bool privacy_config privacy_config sanitized_snapshot

record 'l system =
  sy_app :: "'l app"
  sy_watcher :: watcher
  sy_events :: "session_listener sys_shared"
  sy_sequence_path :: path
  sy_started :: bool
  sy_gap :: gap_phase
  sy_capture :: "(nat \<times> capture_phase) option"

text \<open>
  What the construction meets: the data directory, whether each store could create it, whether the
  backup of a damaged configuration was written, the media provider that was selected with its
  health, what the watcher has done by the end (it polls from the beginning, and a change it delivers
  before its listener is registered is heard by nobody), and whether the window of the system events
  came up.
\<close>

record init_inputs =
  in_data_dir :: "config_store_error + path"
  in_config_created :: bool
  in_sequence_created :: bool
  in_copy_ok :: bool
  in_media :: "bool option"
  in_watcher :: watcher
  in_window :: bool

datatype init_error = ConfigFailed config_store_error | SequenceFailed io_error

definition app_new :: "bool option \<Rightarrow> 'l service \<Rightarrow> 'l app" where
  "app_new media s =
     \<lparr>app_service = s, app_credentials = None, app_media = media, app_recent = [], app_exiting = False\<rparr>"

text \<open>\<open>on_lock_or_sleep\<close>, \<open>on_unlock_or_resume\<close>, then \<open>start\<close>, whose failure is ignored.\<close>

definition init_events :: "bool \<Rightarrow> session_listener sys_shared" where
  "init_events window =
     snd (sys_start window
       (snd (register_listener UnlockOrResume WakeListener (snd (register_listener LockOrSleep SleepListener sys_new)))))"

definition init_system :: "'l service_env \<Rightarrow> init_inputs \<Rightarrow> disk \<Rightarrow> (init_error + 'l system) \<times> disk" where
  "init_system env inp d =
     (case config_store_new (in_copy_ok inp) None (in_data_dir inp) (in_config_created inp) d of
        Inl e \<Rightarrow> (Inl (ConfigFailed e), d)
      | Inr (store, d') \<Rightarrow>
          (case fss_new None (in_data_dir inp) (in_sequence_created inp) of
             Inl e \<Rightarrow> (Inl (SequenceFailed e), d')
           | Inr seq_path \<Rightarrow>
               (Inr \<lparr>sy_app = app_new (in_media inp) (service_new env store d'), sy_watcher = in_watcher inp,
                     sy_events = init_events (in_window inp), sy_sequence_path = seq_path, sy_started = False,
                     sy_gap = GapIdle, sy_capture = None\<rparr>, d')))"

text \<open>The last call of \<open>init\<close>; the callbacks are live by then, so other steps may come before it.\<close>

definition start_service :: "('l service \<Rightarrow> 'l service) \<Rightarrow> 'l system \<Rightarrow> 'l system" where
  "start_service other sy =
     sy\<lparr>sy_app := (sy_app sy)\<lparr>app_service := snd (the (service_start other (app_service (sy_app sy))))\<rparr>,
        sy_started := True\<rparr>"

section \<open>Callbacks\<close>

definition on_coordinator :: "(world \<Rightarrow> world) \<Rightarrow> 'l system \<Rightarrow> 'l system" where
  "on_coordinator f sy =
     (let s = app_service (sy_app sy)
      in sy\<lparr>sy_app := (sy_app sy)\<lparr>app_service := s\<lparr>sv_world := f (sv_world s)\<rparr>\<rparr>\<rparr>)"

definition coordinator_of :: "'l system \<Rightarrow> world" where
  "coordinator_of sy = sv_world (app_service (sy_app sy))"

text \<open>The gap callback takes its next step.\<close>

definition gap_turn :: "'l system \<Rightarrow> 'l system" where
  "gap_turn sy = (case gap_step (sy_gap sy) (sy_app sy) of (g, a) \<Rightarrow> sy\<lparr>sy_gap := g, sy_app := a\<rparr>)"

text \<open>What a negotiation reads, and the policy that a capture reads at the moment.\<close>

definition stored_choice :: "'l system \<Rightarrow> stored_connection option" where
  "stored_choice sy = connection (the_config (app_service (sy_app sy)))"

definition policy_in_force :: "'l system \<Rightarrow> privacy_config" where
  "policy_in_force sy = privacy (the_config (app_service (sy_app sy)))"

text \<open>
  A snapshot that a capture gives whose second read has found \<open>p2\<close> and whose third \<open>p3\<close>. What it observes
  besides is arbitrary.
\<close>

definition captured_under ::
  "unicode \<Rightarrow> privacy_config \<Rightarrow> privacy_config \<Rightarrow> bool \<Rightarrow> sanitized_snapshot \<Rightarrow> bool" where
  "captured_under u p2 p3 media snap \<longleftrightarrow>
     (\<exists>dl t t'. capture_for_delivery u dl media t = (snap, t') \<and> dl_config2 dl = p2 \<and> dl_config3 dl = p3)"

text \<open>
  The capture under way: the refresh loop waits for it. Captures are counted by their entries in the
  coordinator's log, so that the reads of one are never taken for those of the next.
\<close>

fun capture_flag :: "task \<Rightarrow> bool option" where
  "capture_flag (Refresh _ (RCapture _ media)) = Some media"
| "capture_flag _ = None"

definition waits_for_capture :: "bool \<Rightarrow> world \<Rightarrow> bool" where
  "waits_for_capture media w \<longleftrightarrow> list_ex (\<lambda>t. capture_flag t = Some media) (tasks w)"

definition capture_number :: "'l system \<Rightarrow> nat" where
  "capture_number sy = length (captures (coordinator_of sy))"

definition capture_now :: "'l system \<Rightarrow> capture_phase option" where
  "capture_now sy =
     (case sy_capture sy of
        Some (n, phase) \<Rightarrow>
          if n = capture_number sy \<and> (waits_for_capture True (coordinator_of sy) \<or> waits_for_capture False (coordinator_of sy))
          then Some phase else None
      | None \<Rightarrow> None)"

definition read_for_media :: "bool \<Rightarrow> 'l system \<Rightarrow> 'l system" where
  "read_for_media media sy = sy\<lparr>sy_capture := Some (capture_number sy, MediaRead media (policy_in_force sy))\<rparr>"

definition read_for_application :: "bool \<Rightarrow> privacy_config \<Rightarrow> sanitized_snapshot \<Rightarrow> 'l system \<Rightarrow> 'l system" where
  "read_for_application media p2 snap sy =
     sy\<lparr>sy_capture := Some (capture_number sy, CaptureReturned media p2 (policy_in_force sy) snap)\<rparr>"

text \<open>
  What the rest of the program answers the coordinator's tasks: a negotiation reads the connection in
  force, a capture gives what it has returned with, also when the policy has changed since.
\<close>

fun returned_result :: "capture_phase option \<Rightarrow> coord_call set" where
  "returned_result (Some (CaptureReturned media p2 p3 snap)) = {CaptureResult media snap}"
| "returned_result _ = {}"

definition answers :: "'l system \<Rightarrow> coord_call set" where
  "answers sy = insert (GateRead (stored_choice sy)) (returned_result (capture_now sy))"

text \<open>A debounced change is delivered: the listener of \<open>init\<close> runs.\<close>

definition foreground_fires :: "nat \<Rightarrow> 'l system \<Rightarrow> 'l system" where
  "foreground_fires i sy =
     sy\<lparr>sy_watcher := fire i (sy_watcher sy),
        sy_app := on_foreground_change (snd (wt_firing (sy_watcher sy) ! i)) (sy_app sy)\<rparr>"

fun run_session_listener :: "timings \<Rightarrow> session_listener \<Rightarrow> world \<Rightarrow> world" where
  "run_session_listener tm SleepListener w = handle_sleep_or_lock tm w"
| "run_session_listener tm WakeListener w = handle_wake_or_unlock w"

text \<open>The dispatcher receives one event; the listeners of its kind run in their order.\<close>

definition dispatch_event :: "timings \<Rightarrow> 'l system \<Rightarrow> 'l system" where
  "dispatch_event tm sy =
     (case ss_channel (sy_events sy) of
        [] \<Rightarrow> sy
      | k # _ \<Rightarrow>
          on_coordinator (fold (run_session_listener tm) (map snd (listener_set k (sy_events sy))))
            (sy\<lparr>sy_events := dispatch_one (sy_events sy)\<rparr>))"

text \<open>
  \<open>shutdown_blocking\<close>: the watcher stops and the coordinator shuts down; when the budget allows it, the
  system events stop too and the dispatcher drains its queue.
\<close>

fun drain_events :: "nat \<Rightarrow> timings \<Rightarrow> 'l system \<Rightarrow> 'l system" where
  "drain_events 0 tm sy = sy"
| "drain_events (Suc n) tm sy = drain_events n tm (dispatch_event tm sy)"

definition close_events :: "timings \<Rightarrow> 'l system \<Rightarrow> 'l system" where
  "close_events tm sy =
     (if \<not> ss_running (sy_events sy) then sy
      else
        let sy1 = sy\<lparr>sy_events := (snd (wndproc CloseWindow (sy_events sy)))\<lparr>ss_tx := False, ss_running := False\<rparr>\<rparr>
        in drain_events (length (ss_channel (sy_events sy1))) tm sy1)"

definition exit_system :: "timings \<Rightarrow> ('l service \<Rightarrow> 'l service) \<Rightarrow> bool \<Rightarrow> 'l system \<Rightarrow> 'l system" where
  "exit_system tm other in_budget sy =
     (if app_exiting (sy_app sy) then sy
      else
        let sy1 = sy\<lparr>sy_watcher := watcher_stop (sy_watcher sy), sy_app := shutdown_blocking other (sy_app sy)\<rparr>
        in if in_budget then close_events tm sy1 else sy1)"

section \<open>Steps\<close>

text \<open>
  The steps of a system in which only the calls \<open>calls\<close> of the coordinator are made, previews are
  confirmed only if \<open>consents\<close>, and the policy stays one of \<open>policies\<close>. A window message is handled at
  once and dispatched later; the gap callback, the capture and the refresh loop that waits for it take their
  steps separately; a negotiation reads the stored connection and a capture, twice, the policy in force;
  while a command, the start or the exit runs, other segments move the coordinator by the same calls, register no listener with the store and keep it valid, keep the policy one of
  \<open>policies\<close>, and leave Live Desk off unless they may confirm.
\<close>

inductive system_step_in ::
  "bool \<Rightarrow> privacy_config set \<Rightarrow> coord_call set \<Rightarrow> unicode \<Rightarrow> surroundings \<Rightarrow> timings \<Rightarrow> 'l service_env \<Rightarrow> watch_env \<Rightarrow>
   'l system \<Rightarrow> 'l system \<Rightarrow> bool"
  for consents policies calls u net tm env wenv
where
  ServiceStarts: "\<not> sy_started sy \<Longrightarrow>
    others_moving ((coord_step_in calls u net tm)\<^sup>*\<^sup>*) (\<lambda>_. other) \<Longrightarrow> others_keep store_ok (\<lambda>_. other) \<Longrightarrow>
    consents \<or> others_keep desk_off (\<lambda>_. other) \<Longrightarrow> others_keep (policy_in policies) (\<lambda>_. other) \<Longrightarrow>
    system_step_in consents policies calls u net tm env wenv sy (start_service other sy)"
| CaptureReadsMedia: "waits_for_capture media (coordinator_of sy) \<Longrightarrow> capture_now sy = None \<Longrightarrow>
    system_step_in consents policies calls u net tm env wenv sy (read_for_media media sy)"
| CaptureReturns: "capture_now sy = Some (MediaRead media p2) \<Longrightarrow>
    captured_under u p2 (policy_in_force sy) media snap \<Longrightarrow>
    system_step_in consents policies calls u net tm env wenv sy (read_for_application media p2 snap sy)"
| CoordinatorSteps: "coord_step_in (answers sy) u net tm (coordinator_of sy) w \<Longrightarrow>
    system_step_in consents policies calls u net tm env wenv sy (on_coordinator (\<lambda>_. w) sy)"
| WatcherSteps: "watch_step wenv (sy_watcher sy) wt \<Longrightarrow> wt_delivered wt = wt_delivered (sy_watcher sy) \<Longrightarrow>
    system_step_in consents policies calls u net tm env wenv sy (sy\<lparr>sy_watcher := wt\<rparr>)"
| ForegroundFires: "FreshCall \<in> calls \<Longrightarrow> i < length (wt_firing (sy_watcher sy)) \<Longrightarrow>
    system_step_in consents policies calls u net tm env wenv sy (foreground_fires i sy)"
| MediaChanges: "FreshCall \<in> calls \<Longrightarrow> system_step_in consents policies calls u net tm env wenv sy (on_coordinator request_fresh_snapshot sy)"
| Message: "target_of m = Some False \<Longrightarrow> WakeCall \<in> calls \<Longrightarrow>
    system_step_in consents policies calls u net tm env wenv sy (sy\<lparr>sy_events := snd (wndproc m (sy_events sy))\<rparr>)"
| QuietMessage: "target_of m \<noteq> Some False \<Longrightarrow>
    system_step_in consents policies calls u net tm env wenv sy (sy\<lparr>sy_events := snd (wndproc m (sy_events sy))\<rparr>)"
| Dispatch: "system_step_in consents policies calls u net tm env wenv sy (dispatch_event tm sy)"
| Gap: "system_step_in consents policies calls u net tm env wenv sy (gap_turn sy)"
| PublishHook: "on_published now (app_service (sy_app sy)) = Some (r, s) \<Longrightarrow>
    system_step_in consents policies calls u net tm env wenv sy (sy\<lparr>sy_app := (sy_app sy)\<lparr>app_service := s\<rparr>\<rparr>)"
| Command: "(\<And>inp ui. c = Confirm inp ui \<Longrightarrow> consents \<and> StartCall \<in> calls) \<Longrightarrow>
    others_moving ((coord_step_in calls u net tm)\<^sup>*\<^sup>*) others \<Longrightarrow> others_keep store_ok others \<Longrightarrow>
    consents \<or> others_keep desk_off others \<Longrightarrow> others_keep (policy_in policies) others \<Longrightarrow> policy_in policies s \<Longrightarrow>
    command_with env others c (app_service (sy_app sy)) = Some (r, s) \<Longrightarrow>
    system_step_in consents policies calls u net tm env wenv sy (sy\<lparr>sy_app := (sy_app sy)\<lparr>app_service := s\<rparr>\<rparr>)"
| Exit: "others_moving ((coord_step_in calls u net tm)\<^sup>*\<^sup>*) (\<lambda>_. other) \<Longrightarrow>
    others_keep store_ok (\<lambda>_. other) \<Longrightarrow> consents \<or> others_keep desk_off (\<lambda>_. other) \<Longrightarrow>
    others_keep (policy_in policies) (\<lambda>_. other) \<Longrightarrow>
    system_step_in consents policies calls u net tm env wenv sy (exit_system tm other in_budget sy)"

text \<open>The systems the application reaches after a successful \<open>init\<close>.\<close>

inductive system_reachable ::
  "unicode \<Rightarrow> surroundings \<Rightarrow> timings \<Rightarrow> 'l service_env \<Rightarrow> watch_env \<Rightarrow> 'l system \<Rightarrow> bool"
  for u net tm env wenv
where
  Started: "init_system env inp d = (Inr sy, d') \<Longrightarrow> watch_reachable wenv (in_watcher inp) \<Longrightarrow>
    system_reachable u net tm env wenv sy"
| Stepped: "system_reachable u net tm env wenv sy \<Longrightarrow> system_step_in True UNIV UNIV u net tm env wenv sy sy' \<Longrightarrow>
    system_reachable u net tm env wenv sy'"

section \<open>The parts of a reachable system\<close>

lemma on_coordinator_simps [simp]:
  "coordinator_of (on_coordinator f sy) = f (coordinator_of sy)"
  "sy_watcher (on_coordinator f sy) = sy_watcher sy" "sy_events (on_coordinator f sy) = sy_events sy"
  "app_recent (sy_app (on_coordinator f sy)) = app_recent (sy_app sy)"
  "stored_choice (on_coordinator f sy) = stored_choice sy"
  by (simp_all add: on_coordinator_def coordinator_of_def stored_choice_def the_config_def Let_def)

lemma coordinator_of_simps [simp]:
  "coordinator_of (sy\<lparr>sy_watcher := wt\<rparr>) = coordinator_of sy"
  "coordinator_of (sy\<lparr>sy_events := ev\<rparr>) = coordinator_of sy"
  "coordinator_of (sy\<lparr>sy_capture := cap\<rparr>) = coordinator_of sy"
  "coordinator_of (sy\<lparr>sy_app := a\<rparr>) = sv_world (app_service a)"
  by (simp_all add: coordinator_of_def)

lemma coordinator_of_app: "sv_world (app_service (sy_app sy)) = coordinator_of sy"
  by (simp add: coordinator_of_def)

definition listeners_wired :: "session_listener sys_shared \<Rightarrow> bool" where
  "listeners_wired ev \<longleftrightarrow>
     map snd (ss_lock_listeners ev) = [SleepListener] \<and> map snd (ss_resume_listeners ev) = [WakeListener]"

lemma wndproc_listeners [simp]: "listeners_wired (snd (wndproc m ev)) = listeners_wired ev"
  by (simp add: listeners_wired_def wndproc_target transition_def Let_def split: option.split prod.split)

lemma listeners_wired_tx [simp]: "listeners_wired (ev\<lparr>ss_tx := b, ss_running := r\<rparr>) = listeners_wired ev"
  by (simp add: listeners_wired_def)

lemma dispatch_listeners [simp]: "listeners_wired (dispatch_one ev) = listeners_wired ev"
  by (simp add: listeners_wired_def dispatch_one_def split: list.split)

lemma init_events_wired: "listeners_wired (init_events window)"
  by (simp add: listeners_wired_def init_events_def register_listener_def sys_start_def sys_new_def Let_def)

text \<open>What one dispatched event does to the coordinator.\<close>

fun session_call :: "timings \<Rightarrow> event_kind \<Rightarrow> world \<Rightarrow> world" where
  "session_call tm LockOrSleep w = handle_sleep_or_lock tm w"
| "session_call tm UnlockOrResume w = handle_wake_or_unlock w"

lemma dispatch_event_simps:
  assumes "listeners_wired (sy_events sy)"
  shows "coordinator_of (dispatch_event tm sy) =
      (case ss_channel (sy_events sy) of [] \<Rightarrow> coordinator_of sy | k # _ \<Rightarrow> session_call tm k (coordinator_of sy))"
    and "ss_channel (sy_events (dispatch_event tm sy)) = tl (ss_channel (sy_events sy))"
    and "listeners_wired (sy_events (dispatch_event tm sy))"
    and "sy_watcher (dispatch_event tm sy) = sy_watcher sy"
    and "app_recent (sy_app (dispatch_event tm sy)) = app_recent (sy_app sy)"
proof -
  have "map snd (listener_set k (sy_events sy)) = (case k of LockOrSleep \<Rightarrow> [SleepListener] | UnlockOrResume \<Rightarrow> [WakeListener])" for k
    using assms by (cases k) (simp_all add: listeners_wired_def)
  then show "coordinator_of (dispatch_event tm sy) =
      (case ss_channel (sy_events sy) of [] \<Rightarrow> coordinator_of sy | k # _ \<Rightarrow> session_call tm k (coordinator_of sy))"
    by (auto simp: dispatch_event_def split: list.split event_kind.split)
qed (use assms in \<open>auto simp: dispatch_event_def dispatch_one_def listeners_wired_def split: list.split\<close>)

section \<open>A system moves its coordinator by its calls\<close>

text \<open>The events the dispatcher still holds lead to allowed calls.\<close>

fun event_call :: "event_kind \<Rightarrow> coord_call" where
  "event_call LockOrSleep = SleepCall"
| "event_call UnlockOrResume = WakeCall"

definition queue_allowed :: "coord_call set \<Rightarrow> session_listener sys_shared \<Rightarrow> bool" where
  "queue_allowed calls ev \<longleftrightarrow> event_call ` set (ss_channel ev) \<subseteq> calls"

lemma session_call_step: "event_call k \<in> calls \<Longrightarrow> coord_step_in calls u net tm w (session_call tm k w)"
  by (cases k) (auto intro: coord_step_in.intros)

lemma dispatch_runs:
  assumes "listeners_wired (sy_events sy)" and "queue_allowed calls (sy_events sy)"
  shows "runs_with calls u net tm (coordinator_of sy) (coordinator_of (dispatch_event tm sy)) \<and>
    queue_allowed calls (sy_events (dispatch_event tm sy))"
  using assms session_call_step [of _ calls u net tm]
  by (auto simp: dispatch_event_simps queue_allowed_def split: list.splits dest: list.set_sel(2))

lemma drain_runs:
  assumes "listeners_wired (sy_events sy)" and "queue_allowed calls (sy_events sy)"
  shows "runs_with calls u net tm (coordinator_of sy) (coordinator_of (drain_events n tm sy)) \<and>
    queue_allowed calls (sy_events (drain_events n tm sy)) \<and> listeners_wired (sy_events (drain_events n tm sy)) \<and>
    sy_watcher (drain_events n tm sy) = sy_watcher sy \<and>
    app_recent (sy_app (drain_events n tm sy)) = app_recent (sy_app sy)"
  using assms
proof (induction n arbitrary: sy)
  case (Suc n)
  note d = dispatch_runs [OF Suc.prems, of u net tm]
  from Suc.IH [OF dispatch_event_simps(3) [OF Suc.prems(1)] conjunct2 [OF d]] d Suc.prems(1) show ?case
    by (auto simp: dispatch_event_simps intro: rtranclp_trans)
qed simp

text \<open>What every step keeps: the wiring, the queue, the short list, and the watcher's own reachability.\<close>

definition parts_ok :: "watch_env \<Rightarrow> 'l system \<Rightarrow> bool" where
  "parts_ok wenv sy \<longleftrightarrow> watch_reachable wenv (sy_watcher sy) \<and> listeners_wired (sy_events sy) \<and>
     distinct (app_recent (sy_app sy)) \<and> length (app_recent (sy_app sy)) \<le> RECENT_APP_IDS_MAX"

lemma remember_app_ok: "distinct xs \<Longrightarrow> distinct (remember_app i xs) \<and> length (remember_app i xs) \<le> RECENT_APP_IDS_MAX"
  by (simp add: remember_app_def)

lemma event_call_kind [simp]: "event_call (kind_of b) = (if b then SleepCall else WakeCall)"
  by (cases b) simp_all

lemma wndproc_queue:
  "queue_allowed calls ev \<Longrightarrow> (target_of m = Some False \<Longrightarrow> WakeCall \<in> calls) \<Longrightarrow>
    (target_of m = Some True \<Longrightarrow> SleepCall \<in> calls) \<Longrightarrow> queue_allowed calls (snd (wndproc m ev))"
  by (cases "target_of m") (auto simp: queue_allowed_def wndproc_channel split: bool.splits)

lemma exit_moves:
  assumes parts: "parts_ok wenv sy" "queue_allowed calls (sy_events sy)" and calls: "ShutdownCall \<in> calls"
    and other: "others_moving (runs_with calls u net tm) (\<lambda>_. other)"
  shows "runs_with calls u net tm (coordinator_of sy) (coordinator_of (exit_system tm other in_budget sy)) \<and>
    parts_ok wenv (exit_system tm other in_budget sy) \<and>
    queue_allowed calls (sy_events (exit_system tm other in_budget sy))"
proof (cases "app_exiting (sy_app sy)")
  case False
  let ?sy1 = "sy\<lparr>sy_watcher := watcher_stop (sy_watcher sy), sy_app := shutdown_blocking other (sy_app sy)\<rparr>"
  obtain r s where s: "service_shutdown other (app_service (sy_app sy)) = Some (r, s)"
    by (auto simp: service_shutdown_def stop_coordinator_def segment_ends)
  have run1: "runs_with calls u net tm (coordinator_of sy) (coordinator_of ?sy1)"
    using shutdown_runs [OF other calls s] s False by (simp add: shutdown_blocking_def coordinator_of_app)
  have p1: "parts_ok wenv ?sy1" "queue_allowed calls (sy_events ?sy1)"
    using parts False by (auto simp: parts_ok_def shutdown_blocking_def intro: watch_reachable.Step watch_step.Stop)
  show ?thesis
  proof (cases "in_budget \<and> ss_running (sy_events ?sy1)")
    case True
    let ?sy2 = "?sy1\<lparr>sy_events := (snd (wndproc CloseWindow (sy_events ?sy1)))\<lparr>ss_tx := False, ss_running := False\<rparr>\<rparr>"
    have "listeners_wired (sy_events ?sy2)" "queue_allowed calls (sy_events ?sy2)"
      using p1 by (auto simp: parts_ok_def queue_allowed_def wndproc_channel)
    from drain_runs [OF this, of u net tm "length (ss_channel (sy_events ?sy2))"] run1 p1 False True show ?thesis
      by (auto simp: exit_system_def close_events_def Let_def parts_ok_def intro: rtranclp_trans)
  qed (use run1 p1 False in \<open>auto simp: exit_system_def close_events_def Let_def\<close>)
qed (use parts in \<open>simp add: exit_system_def\<close>)

text \<open>
  A settled system has neither its first start nor a restart after a gap before it: the gap callback
  starts the coordinator when it has seen it publish, also when that is no longer so.
\<close>

definition settled :: "'l system \<Rightarrow> bool" where
  "settled sy \<longleftrightarrow> sy_started sy \<and> sy_gap sy \<noteq> GapLive"

lemma gap_turn_simps [simp]:
  "sy_events (gap_turn sy) = sy_events sy" "sy_watcher (gap_turn sy) = sy_watcher sy"
  "app_recent (sy_app (gap_turn sy)) = app_recent (sy_app sy)" "sy_started (gap_turn sy) = sy_started sy"
  "sv_store (app_service (sy_app (gap_turn sy))) = sv_store (app_service (sy_app sy))"
  "sy_capture (gap_turn sy) = sy_capture sy"
  by (cases "sy_gap sy"; simp add: gap_turn_def Let_def)+

lemma gap_turn_coordinator:
  "coordinator_of (gap_turn sy) = (if sy_gap sy = GapLive then coord_start (coordinator_of sy) else coordinator_of sy)"
  by (cases "sy_gap sy") (simp_all add: gap_turn_def coordinator_of_def Let_def)

lemma gap_turn_dormant:
  "coord_state (w_inner (coordinator_of sy)) \<in> dormant_states \<Longrightarrow> sy_gap (gap_turn sy) \<noteq> GapLive"
  by (cases "sy_gap sy")
    (auto simp: gap_turn_def coordinator_of_def Let_def current_state_def dormant_states_def)

lemma gap_runs:
  "StartCall \<in> calls \<or> settled sy \<Longrightarrow> runs_with calls u net tm (coordinator_of sy) (coordinator_of (gap_turn sy))"
  by (auto simp: gap_turn_coordinator settled_def intro: coord_step_in.CallStart)

text \<open>The start of the service always ends.\<close>

lemma start_service_result:
  obtains r s where "service_start other (app_service (sy_app sy)) = Some (r, s)"
    and "start_service other sy = sy\<lparr>sy_app := (sy_app sy)\<lparr>app_service := s\<rparr>, sy_started := True\<rparr>"
proof -
  have "service_start other s \<noteq> None" for s :: "'a service"
    by (simp add: service_start_def start_coordinator_def sv_bind_def on_world_def sv_modify_def act_def sv_return_def
        sv_read_def interfere_def split: option.split)
  then obtain r s where "service_start other (app_service (sy_app sy)) = Some (r, s)" by fastforce
  then show ?thesis by (intro that) (simp_all add: start_service_def)
qed

lemma start_service_runs:
  assumes "StartCall \<in> calls" and "{FreshCall, ShutdownCall, DiscardCall} \<subseteq> calls"
    and "others_moving (runs_with calls u net tm) (\<lambda>_. other)"
  shows "runs_with calls u net tm (coordinator_of sy) (coordinator_of (start_service other sy))"
proof -
  have same: "calls \<union> {FreshCall, ShutdownCall, DiscardCall, StartCall} = calls" using assms(1,2) by auto
  obtain r s where s: "service_start other (app_service (sy_app sy)) = Some (r, s)"
    "start_service other sy = sy\<lparr>sy_app := (sy_app sy)\<lparr>app_service := s\<rparr>, sy_started := True\<rparr>"
    by (rule start_service_result)
  have "moving (runs_with calls u net tm) (service_start other)"
    using starts.moving_service_start [of calls u net tm "\<lambda>_. other"] assms(3) unfolding same by simp
  then show ?thesis using s unfolding moving_def by (auto simp: coordinator_of_def)
qed

lemma foreground_runs:
  assumes "FreshCall \<in> calls"
  shows "runs_with calls u net tm (coordinator_of sy) (coordinator_of (foreground_fires i sy))"
proof -
  have "coordinator_of (foreground_fires i sy) = request_fresh_snapshot (coordinator_of sy)"
    by (simp add: foreground_fires_def on_foreground_change_def Let_def coordinator_of_app split: option.split)
  then show ?thesis using assms by (auto intro: coord_step_in.CallFresh)
qed

lemma system_step_runs:
  assumes step: "system_step_in consents policies calls u net tm env wenv sy sy'"
    and calls: "{FreshCall, SleepCall, ShutdownCall, DiscardCall} \<subseteq> calls"
    and parts: "parts_ok wenv sy" "queue_allowed calls (sy_events sy)"
    and reads: "answers sy \<subseteq> calls"
    and gap: "StartCall \<in> calls \<or> settled sy"
  shows "runs_with calls u net tm (coordinator_of sy) (coordinator_of sy') \<and> parts_ok wenv sy' \<and>
    queue_allowed calls (sy_events sy')"
  using step
proof cases
  case (ServiceStarts other)
  have "StartCall \<in> calls" using gap ServiceStarts by (simp add: settled_def)
  then show ?thesis
    using ServiceStarts calls parts start_service_runs [of calls u net tm other sy]
    by (simp add: parts_ok_def start_service_def)
next
  case (CaptureReadsMedia media)
  then show ?thesis using parts by (simp add: parts_ok_def read_for_media_def)
next
  case (CaptureReturns media p2 snap)
  then show ?thesis using parts by (simp add: parts_ok_def read_for_application_def)
next
  case (CoordinatorSteps w)
  then show ?thesis using parts coord_step_mono [of "answers sy" u net tm _ w calls] reads by (auto simp: parts_ok_def)
next
  case (WatcherSteps wt)
  then show ?thesis using parts by (auto simp: parts_ok_def intro: watch_reachable.Step)
next
  case (ForegroundFires i)
  have "watch_reachable wenv (fire i (sy_watcher sy))"
    using parts ForegroundFires by (auto simp: parts_ok_def intro: watch_reachable.Step watch_step.Fire)
  then have "parts_ok wenv sy'" "sy_events sy' = sy_events sy"
    using parts ForegroundFires remember_app_ok
    by (auto simp: parts_ok_def foreground_fires_def on_foreground_change_def Let_def split: option.split)
  then show ?thesis using foreground_runs ForegroundFires parts by simp
next
  case MediaChanges
  then show ?thesis using parts by (auto simp: parts_ok_def intro: coord_step_in.CallFresh)
next
  case (Message m)
  then show ?thesis using parts calls wndproc_queue [of calls "sy_events sy" m] by (auto simp: parts_ok_def)
next
  case (QuietMessage m)
  then show ?thesis using parts calls wndproc_queue [of calls "sy_events sy" m] by (auto simp: parts_ok_def)
next
  case Dispatch
  have w: "listeners_wired (sy_events sy)" using parts by (simp add: parts_ok_def)
  show ?thesis
    using Dispatch dispatch_runs [OF w parts(2), of u net tm] parts dispatch_event_simps [OF w, of tm]
    by (simp add: parts_ok_def)
next
  case Gap
  then show ?thesis using parts gap_runs [OF gap, of u net tm] by (simp add: parts_ok_def)
next
  case (PublishHook now r s)
  then show ?thesis using parts by (auto simp: parts_ok_def on_published_def segment_ends coordinator_of_def)
next
  case (Command c others s r)
  then show ?thesis
    using parts command_runs [of calls u net tm others c env "app_service (sy_app sy)" r s] calls
    by (simp add: parts_ok_def coordinator_of_def)
next
  case (Exit other in_budget)
  then show ?thesis using exit_moves [OF parts, of u net tm other in_budget] calls by simp
qed

section \<open>The start, the gap callback and the capture\<close>

text \<open>What is set only by the start, the gap callback and the capture.\<close>

lemma control_simps [simp]:
  "sy_started (on_coordinator f sy) = sy_started sy" "sy_gap (on_coordinator f sy) = sy_gap sy"
  "sy_capture (on_coordinator f sy) = sy_capture sy"
  "sy_started (dispatch_event tm sy) = sy_started sy" "sy_gap (dispatch_event tm sy) = sy_gap sy"
  "sy_capture (dispatch_event tm sy) = sy_capture sy"
  by (simp_all add: on_coordinator_def dispatch_event_def Let_def split: list.split)

lemma control_drain [simp]:
  "sy_started (drain_events n tm sy) = sy_started sy" "sy_gap (drain_events n tm sy) = sy_gap sy"
  "sy_capture (drain_events n tm sy) = sy_capture sy"
  by (induction n arbitrary: sy) simp_all

lemma control_exit [simp]:
  "sy_started (exit_system tm other b sy) = sy_started sy" "sy_gap (exit_system tm other b sy) = sy_gap sy"
  "sy_capture (exit_system tm other b sy) = sy_capture sy"
  by (simp_all add: exit_system_def close_events_def Let_def)

section \<open>The capture under way\<close>

text \<open>A step of the coordinator starts a new capture or lets none begin to be waited for.\<close>

lemma list_ex_update: "list_ex P (xs[i := x]) \<Longrightarrow> P x \<or> list_ex P xs"
  by (metis list_ex_iff set_update_subset_insert insert_iff subsetD)

lemma waits_step:
  assumes "coord_step_in calls u net tm w w'" and "captures w' = captures w" and "waits_for_capture m w'"
  shows "waits_for_capture m w"
  using assms(1)
proof cases
  case (StepStamp i gen)
  then show ?thesis
    using assms(2,3) by (auto simp: waits_for_capture_def refresh_stamp_def refresh_exit_def captures_def
        split: if_splits option.splits dest: list_ex_update)
next
  case (StepConfigureCapabilities i gen c t url r)
  then show ?thesis
    using assms(3) by (auto simp: waits_for_capture_def configure_capabilities_def degrade_and_retry_def go_active_def
        trigger_refresh_simps Let_def split: sum.splits presence_negotiation.splits if_splits dest!: list_ex_update)
qed (use assms(3) in \<open>auto simp: waits_for_capture_def coord_segment_defs coord_helper_simps Let_def case_prod_beta
    list_update_append split: option.splits sum.splits if_splits dest!: list_ex_update\<close>)

lemma captures_run:
  assumes "runs_with calls u net tm w w'"
  shows "length (captures w) \<le> length (captures w') \<and>
    (length (captures w) = length (captures w') \<longrightarrow> captures w = captures w' \<and>
       (\<forall>m. waits_for_capture m w' \<longrightarrow> waits_for_capture m w))"
  using assms
proof induction
  case (step w1 w2)
  from step.hyps(2) have s: "coord_step u net tm w1 w2" by (rule coord_step_mono) simp
  show ?case
  proof (cases "captures w2 = captures w1")
    case True
    then show ?thesis using step.IH waits_step [OF step.hyps(2)] by simp
  next
    case False
    from captures_step [OF s False] have "length (captures w1) < length (captures w2)" by force
    then show ?thesis using step.IH by linarith
  qed
qed simp

text \<open>What the capture under way has read, and what it returned with is a capture under that.\<close>

fun phase_policies :: "capture_phase \<Rightarrow> privacy_config set" where
  "phase_policies (MediaRead _ p2) = {p2}"
| "phase_policies (CaptureReturned _ p2 p3 _) = {p2, p3}"

definition read_policies :: "'l system \<Rightarrow> privacy_config set" where
  "read_policies sy = (case capture_now sy of Some phase \<Rightarrow> phase_policies phase | None \<Rightarrow> {})"

fun phase_ok :: "unicode \<Rightarrow> capture_phase \<Rightarrow> bool" where
  "phase_ok u (MediaRead _ _) \<longleftrightarrow> True"
| "phase_ok u (CaptureReturned media p2 p3 snap) \<longleftrightarrow> captured_under u p2 p3 media snap"

definition capture_ok :: "unicode \<Rightarrow> 'l system \<Rightarrow> bool" where
  "capture_ok u sy \<longleftrightarrow>
     (case sy_capture sy of Some (n, phase) \<Rightarrow> n \<le> capture_number sy \<and> phase_ok u phase | None \<Rightarrow> True)"

lemma capture_kept:
  assumes "runs_with calls u net tm (coordinator_of sy) (coordinator_of sy')" and "sy_capture sy' = sy_capture sy"
    and "capture_ok u sy"
  shows "capture_ok u sy' \<and> read_policies sy' \<subseteq> read_policies sy"
proof (cases "capture_number sy = capture_number sy'")
  case True
  then have "capture_now sy' = capture_now sy \<or> capture_now sy' = None"
    using captures_run [OF assms(1)] assms(2) by (auto simp: capture_now_def capture_number_def split: option.split)
  then have "read_policies sy' \<subseteq> read_policies sy" by (auto simp: read_policies_def)
  then show ?thesis using True assms(2,3) by (auto simp: capture_ok_def split: option.splits)
next
  case False
  then have less: "capture_number sy < capture_number sy'"
    using captures_run [OF assms(1)] by (simp add: capture_number_def)
  then have "capture_now sy' = None"
    using assms(2,3) by (auto simp: capture_now_def capture_ok_def split: option.splits)
  then show ?thesis
    using less assms(2,3) by (auto simp: read_policies_def capture_ok_def split: option.splits)
qed

text \<open>Only its own reads add to what the capture has read, and they read the policy in force.\<close>

lemma capture_step_ok:
  assumes step: "system_step_in consents policies calls u net tm env wenv sy sy'"
    and run: "runs_with calls u net tm (coordinator_of sy) (coordinator_of sy')" and ok: "capture_ok u sy"
  shows "capture_ok u sy' \<and> read_policies sy' \<subseteq> insert (policy_in_force sy) (read_policies sy)"
  using step
proof cases
  case (CaptureReadsMedia media)
  then show ?thesis
    by (auto simp: capture_ok_def read_policies_def capture_now_def read_for_media_def capture_number_def split: if_splits)
next
  case (CaptureReturns media p2 snap)
  then show ?thesis
    by (auto simp: capture_ok_def read_policies_def capture_now_def read_for_application_def capture_number_def
        split: if_splits option.splits)
qed (use capture_kept [OF run _ ok] in \<open>auto simp: start_service_def foreground_fires_def\<close>)

section \<open>A system keeps its store\<close>

lemma store_simps [simp]:
  "sv_store (app_service (sy_app (on_coordinator f sy))) = sv_store (app_service (sy_app sy))"
  "sv_store (app_service (sy_app (dispatch_event tm sy))) = sv_store (app_service (sy_app sy))"
  "sv_store (app_service (sy_app (foreground_fires i sy))) = sv_store (app_service (sy_app sy))"
  by (simp_all add: on_coordinator_def dispatch_event_def foreground_fires_def
      on_foreground_change_def Let_def split: list.split option.split)

lemma drain_store [simp]: "sv_store (app_service (sy_app (drain_events n tm sy))) = sv_store (app_service (sy_app sy))"
  by (induction n arbitrary: sy) simp_all

lemma close_store [simp]: "sv_store (app_service (sy_app (close_events tm sy))) = sv_store (app_service (sy_app sy))"
  by (simp add: close_events_def Let_def)

lemma settled_step:
  assumes "system_step_in consents policies calls u net tm env wenv sy sy'" and "settled sy"
    and "coord_state (w_inner (coordinator_of sy)) \<in> dormant_states"
  shows "settled sy'"
  using assms(1)
proof cases
  case Gap
  then show ?thesis using assms(2) gap_turn_dormant [OF assms(3)] by (simp add: settled_def)
qed (use assms(2) in \<open>auto simp: settled_def read_for_media_def read_for_application_def foreground_fires_def\<close>)

context stored
begin

lemma kept_result: "keeps P m \<Longrightarrow> P s \<Longrightarrow> m s = Some (r, s') \<Longrightarrow> P s'"
  unfolding keeps_def by blast

lemma kept_exit:
  assumes "P (app_service (sy_app sy))" and "others_keep P (\<lambda>_. other)"
  shows "P (app_service (sy_app (exit_system tm other in_budget sy)))"
proof -
  obtain r s where s: "service_shutdown other (app_service (sy_app sy)) = Some (r, s)"
    by (auto simp: service_shutdown_def stop_coordinator_def segment_ends)
  have "P s" by (rule kept_result [OF kept_shutdown [OF assms(2)] assms(1) s])
  then have "P (app_service (sy_app (exit_system tm other in_budget sy)))" if "\<not> app_exiting (sy_app sy)"
    using that s by (auto simp: exit_system_def shutdown_blocking_def Let_def intro: same_store [rotated])
  then show ?thesis using assms(1) by (cases "app_exiting (sy_app sy)") (auto simp: exit_system_def)
qed

lemma kept_system_step:
  assumes step: "system_step_in consents policies calls u net tm env wenv sy sy'" and P: "P (app_service (sy_app sy))"
    and others: "\<And>others. others_keep store_ok others \<Longrightarrow> consents \<or> others_keep desk_off others \<Longrightarrow>
      others_keep (policy_in policies) others \<Longrightarrow> others_keep P others"
    and command: "\<And>c others r s. others_keep P others \<Longrightarrow> (\<And>inp ui. c = Confirm inp ui \<Longrightarrow> consents) \<Longrightarrow>
      policy_in policies s \<Longrightarrow> command_with env others c (app_service (sy_app sy)) = Some (r, s) \<Longrightarrow> P s"
  shows "P (app_service (sy_app sy'))"
  using step
proof cases
  case (ServiceStarts other)
  have o: "others_keep P (\<lambda>_. other)" by (rule others) (use ServiceStarts in simp_all)
  obtain r s where s: "service_start other (app_service (sy_app sy)) = Some (r, s)"
    "start_service other sy = sy\<lparr>sy_app := (sy_app sy)\<lparr>app_service := s\<rparr>, sy_started := True\<rparr>"
    by (rule start_service_result)
  show ?thesis using kept_result [OF kept_service_start [OF o] P s(1)] ServiceStarts s(2) by simp
next
  case (PublishHook now r s)
  then show ?thesis using kept_result [OF kept_published P] by simp
next
  case (Command c others s r)
  have o: "others_keep P others" by (rule others) (use Command in simp_all)
  have "P s" by (rule command [OF o]) (use Command in simp_all)
  then show ?thesis using Command by simp
next
  case (Exit other in_budget)
  then show ?thesis using kept_exit [OF P others] by simp
qed (auto simp: read_for_media_def read_for_application_def intro: same_store [OF _ P])

end

end
