(* ===== verification/App_Safety.thy ===== *)
theory App_Safety
  imports App_System
begin

text \<open>
  What holds of the whole application: the parts of every reachable system, and the safety of its runs.
  A locked application stays quiet, one with Live Desk disabled stays dark, and what is published follows
  the policy in force. The last section gives the runs that meet the hypotheses.
\<close>

section \<open>Reachable systems\<close>

lemma init_parts:
  assumes "init_system env inp d = (Inr sy, d')" and "watch_reachable wenv (in_watcher inp)"
  shows "parts_ok wenv sy" and "coordinator_of sy = world_new" and "capture_ok u sy"
proof -
  obtain store where sy: "sy_app sy = app_new (in_media inp) (service_new env store d')"
      "sy_watcher sy = in_watcher inp" "sy_events sy = init_events (in_window inp)" "sy_capture sy = None"
    using assms(1) by (auto simp: init_system_def split: sum.splits)
  show "parts_ok wenv sy"
    using sy init_events_wired assms(2) by (simp add: parts_ok_def app_new_def)
  show "capture_ok u sy" using sy by (simp add: capture_ok_def)
  show "coordinator_of sy = world_new"
    using sy by (simp add: coordinator_of_def app_new_def service_new_def)
qed

lemma system_reachable_ok:
  assumes "system_reachable u net tm env wenv sy"
  shows "coord_reachable u net tm (coordinator_of sy) \<and> parts_ok wenv sy \<and> capture_ok u sy"
  using assms
proof induction
  case (Started inp d sy d')
  then show ?case
    using init_parts [OF Started] coord_reachable.Initial by simp
next
  case (Stepped sy sy')
  have "runs_with UNIV u net tm (coordinator_of sy) (coordinator_of sy') \<and> parts_ok wenv sy'"
    using system_step_runs [OF Stepped.hyps(2)] Stepped.IH by (simp add: queue_allowed_def)
  then show ?case using Stepped.IH run_reachable capture_step_ok [OF Stepped.hyps(2)] by blast
qed

lemma answers_elim:
  assumes "c \<in> answers sy" and "capture_ok u sy"
  obtains "c = GateRead (stored_choice sy)"
  | media snap p2 p3 where "c = CaptureResult media snap" and "captured_under u p2 p3 media snap"
      and "{p2, p3} \<subseteq> read_policies sy"
proof -
  consider "c = GateRead (stored_choice sy)" | "c \<in> returned_result (capture_now sy)"
    using assms(1) by (auto simp: answers_def)
  then show ?thesis
  proof cases
    case 2
    then obtain media p2 p3 snap where c: "capture_now sy = Some (CaptureReturned media p2 p3 snap)"
      "c = CaptureResult media snap"
      by (cases "capture_now sy" rule: returned_result.cases) auto
    then have "captured_under u p2 p3 media snap"
      using assms(2) by (auto simp: capture_now_def capture_ok_def split: option.splits if_splits)
    then show ?thesis using that(2) [OF c(2)] c(1) by (simp add: read_policies_def)
  qed (rule that)
qed

lemma quiet_system_run:
  assumes "(system_step_in True UNIV (- {StartCall, WakeCall}) u net tm env wenv)\<^sup>*\<^sup>* sy sy'"
    and "parts_ok wenv sy" and "capture_ok u sy" and "queue_allowed (- {StartCall, WakeCall}) (sy_events sy)"
    and "dormant (coordinator_of sy)" and "settled sy"
  shows "runs_with (- {StartCall, WakeCall}) u net tm (coordinator_of sy) (coordinator_of sy') \<and> parts_ok wenv sy' \<and>
    capture_ok u sy' \<and> queue_allowed (- {StartCall, WakeCall}) (sy_events sy') \<and> dormant (coordinator_of sy') \<and>
    settled sy'"
  using assms
proof induction
  case (step sy1 sy2)
  then have d: "dormant (coordinator_of sy1)" and r: "runs_with (- {StartCall, WakeCall}) u net tm (coordinator_of sy) (coordinator_of sy1)"
    by simp_all
  have rest: "coord_state (w_inner (coordinator_of sy1)) \<in> dormant_states" using d by (simp add: dormant_def)
  have settled: "settled sy1" and ok: "capture_ok u sy1" using step by simp_all
  have "answers sy1 \<subseteq> - {StartCall, WakeCall}" by (auto split: option.splits elim!: answers_elim [OF _ ok])
  then have s: "runs_with (- {StartCall, WakeCall}) u net tm (coordinator_of sy1) (coordinator_of sy2)" "parts_ok wenv sy2"
    "queue_allowed (- {StartCall, WakeCall}) (sy_events sy2)"
    using step settled system_step_runs [OF step.hyps(2)] by simp_all
  show ?case
    using r s dormant_run [OF s(1) d] settled_step [OF step.hyps(2) settled rest] capture_step_ok [OF step.hyps(2) s(1) ok]
    by (auto intro: rtranclp_trans)
qed simp

text \<open>The store of a reachable system is sound.\<close>

lemma system_reachable_store:
  assumes "system_reachable u net tm env wenv sy"
  shows "store_ok (app_service (sy_app sy))"
  using assms
proof induction
  case (Started inp d sy d')
  obtain p st where "config_store_at (in_copy_ok inp) d p = (st, d')"
    "sy_app sy = app_new (in_media inp) (service_new env st d')"
    using Started(1) by (auto simp: init_system_def config_store_new_def split: sum.splits)
  moreover from this(1) have "cst_listeners st = []" "\<not> cst_update_held st" "config_valid (cst_config st)"
    by (auto simp: config_store_at_def Let_def cs_load_valid split: prod.splits)
  ultimately show ?case by (simp add: store_ok_def quiet_def app_new_def service_new_def the_config_def)
next
  case (Stepped sy sy')
  show ?case
    by (rule sound_store.kept_system_step [OF Stepped.hyps(2) Stepped.IH])
      (assumption, rule sound_store.kept_result [OF sound_store.kept_any_command Stepped.IH])
qed

text \<open>Without a confirmation a system with Live Desk off stays off, and its coordinator reads no other connection.\<close>

lemma off_system_run:
  assumes "(system_step_in False UNIV (- enabled_reads) u net tm env wenv)\<^sup>*\<^sup>* sy sy'"
    and "parts_ok wenv sy" and "capture_ok u sy" and "desk_off (app_service (sy_app sy))"
  shows "runs_with (- enabled_reads) u net tm (coordinator_of sy) (coordinator_of sy') \<and> parts_ok wenv sy' \<and>
    capture_ok u sy' \<and> desk_off (app_service (sy_app sy'))"
  using assms
proof induction
  case (step sy1 sy2)
  then have off: "desk_off (app_service (sy_app sy1))" and parts: "parts_ok wenv sy1" and ok: "capture_ok u sy1"
    and r: "runs_with (- enabled_reads) u net tm (coordinator_of sy) (coordinator_of sy1)" by simp_all
  have calls: "{FreshCall, SleepCall, ShutdownCall, DiscardCall} \<subseteq> - enabled_reads" "StartCall \<in> - enabled_reads"
    by (auto simp: enabled_reads_def)
  have queue: "queue_allowed (- enabled_reads) (sy_events sy1)"
    by (auto simp: queue_allowed_def enabled_reads_def split: if_splits elim: event_call.elims)
  have reads: "answers sy1 \<subseteq> - enabled_reads"
    using off by (auto simp: enabled_reads_def stored_choice_def desk_off_def live_desk_on_def split: option.splits elim!: answers_elim [OF _ ok])
  have "desk_off (app_service (sy_app sy2))"
  proof (rule off_store.kept_system_step [OF step.hyps(2) off])
    fix c others r s
    assume "others_keep desk_off others" and none: "\<And>inp ui. c = Confirm inp ui \<Longrightarrow> False"
      and run: "command_with env others c (app_service (sy_app sy1)) = Some (r, s)"
    then have "keeps desk_off (command_with env others c)" by (intro off_store.kept_command) auto
    then show "desk_off s" using off run unfolding keeps_def by blast
  qed simp
  then show ?case
    using r system_step_runs [OF step.hyps(2) calls(1) parts queue reads disjI1 [OF calls(2)]]
      capture_step_ok [OF step.hyps(2) _ ok]
    by (auto intro: rtranclp_trans)
qed simp

text \<open>
  What a policy allows to be published: an application only as it was captured of a foreground window
  that one of the policies shares, and media only as it was sanitized of a playing session that one of
  them shares.
\<close>

definition shared_application :: "unicode \<Rightarrow> privacy_config set \<Rightarrow> sanitized_application \<Rightarrow> bool" where
  "shared_application u policies a \<longleftrightarrow>
     (\<exists>dl info. dl_config3 dl \<in> policies \<and> dl_foreground dl = Some info \<and> capture_application u dl = Some a \<and>
        application_ok a \<and> src_application (sources (dl_config3 dl)) \<and>
        effective_application u (dl_config3 dl) (fg_app_id info) = DShare \<and>
        (sa_window_title a \<noteq> None \<longrightarrow> effective_title u (dl_config3 dl) (fg_app_id info) = DShare \<and>
           share_window_titles (dl_config3 dl)))"

definition shared_media :: "unicode \<Rightarrow> privacy_config set \<Rightarrow> sanitized_media \<Rightarrow> bool" where
  "shared_media u policies m \<longleftrightarrow>
     (\<exists>p raw w sid. p \<in> policies \<and> sanitize_raw_media u p raw = Some w \<and> m = with_session sid w \<and>
        src_media (sources p) \<and> ms_playing raw \<and>
        effective_media u p (ms_app_id raw) (player_name_of raw) = DShare)"

definition shared_by :: "unicode \<Rightarrow> privacy_config set \<Rightarrow> sanitized_snapshot \<Rightarrow> bool" where
  "shared_by u policies s \<longleftrightarrow>
     (\<forall>a. snap_application s = Some a \<longrightarrow> shared_application u policies a) \<and>
     (\<forall>m. snap_media s = Some m \<longrightarrow> shared_media u policies m)"

lemma captured_shared:
  assumes "captured_under u p2 p3 media s" and "{p2, p3} \<subseteq> policies"
  shows "shared_by u policies s"
proof -
  obtain dl t t' where dl: "capture_for_delivery u dl media t = (s, t')" "dl_config2 dl = p2" "dl_config3 dl = p3"
    using assms(1) by (auto simp: captured_under_def)
  then obtain m where m: "capture_media u dl media t = (m, t')"
    and s: "s = \<lparr>observed_at = dl_now dl, snap_application = capture_application u dl, snap_media = m\<rparr>"
    by (auto simp: capture_split)
  have "shared_application u policies a" if "capture_application u dl = Some a" for a
    using capture_application_Some [OF that] that dl(3) assms(2) unfolding shared_application_def by blast
  moreover have "shared_media u policies x" if x: "m = Some x" for x
  proof -
    obtain raw w sid where w: "sanitize_raw_media u (dl_config2 dl) raw = Some w" "x = with_session sid w"
      using capture_media_Some [of u dl media t x t'] m x by blast
    then show ?thesis using sanitize_raw_media_Some [OF w(1)] dl(2) assms(2) unfolding shared_media_def by blast
  qed
  ultimately show ?thesis by (simp add: shared_by_def s)
qed

text \<open>The calls of a run in which every capture is made under the given policies.\<close>

definition captures_under :: "unicode \<Rightarrow> privacy_config set \<Rightarrow> coord_call set" where
  "captures_under u policies =
     {c. \<forall>media s. c = CaptureResult media s \<longrightarrow>
        (\<exists>p2 p3. {p2, p3} \<subseteq> policies \<and> captured_under u p2 p3 media s)}"

lemma captures_under_shared: "s \<in> answered (captures_under u policies) \<Longrightarrow> shared_by u policies s"
  by (fastforce simp: answered_def captures_under_def intro: captured_shared)

lemma policy_system_run:
  assumes "(system_step_in True policies (captures_under u policies) u net tm env wenv)\<^sup>*\<^sup>* sy sy'"
    and "parts_ok wenv sy" and "capture_ok u sy" and "policy_in policies (app_service (sy_app sy))"
    and "read_policies sy \<subseteq> policies"
  shows "runs_with (captures_under u policies) u net tm (coordinator_of sy) (coordinator_of sy') \<and> parts_ok wenv sy' \<and>
    capture_ok u sy' \<and> policy_in policies (app_service (sy_app sy')) \<and> read_policies sy' \<subseteq> policies"
  using assms
proof induction
  case (step sy1 sy2)
  then have p: "policy_in policies (app_service (sy_app sy1))" and parts: "parts_ok wenv sy1"
    and ok: "capture_ok u sy1" and read: "read_policies sy1 \<subseteq> policies"
    and r: "runs_with (captures_under u policies) u net tm (coordinator_of sy) (coordinator_of sy1)" by simp_all
  have calls: "{FreshCall, SleepCall, ShutdownCall, DiscardCall} \<subseteq> captures_under u policies"
    "StartCall \<in> captures_under u policies"
    by (simp_all add: captures_under_def)
  have queue: "queue_allowed (captures_under u policies) (sy_events sy1)"
    by (auto simp: queue_allowed_def captures_under_def split: if_splits elim: event_call.elims)
  have reads: "answers sy1 \<subseteq> captures_under u policies"
    using read by (auto simp: captures_under_def elim!: answers_elim [OF _ ok])
  have "policy_in policies (app_service (sy_app sy2))"
    by (rule policy_store.kept_system_step [OF step.hyps(2) p])
  then show ?case
    using r system_step_runs [OF step.hyps(2) calls(1) parts queue reads disjI1 [OF calls(2)]] p read
      capture_step_ok [OF step.hyps(2) _ ok]
    by (auto simp: policy_in_def policy_in_force_def intro: rtranclp_trans)
qed simp

section \<open>Properties\<close>

lemma snapshots_publishes: "length (snapshots_of es) = length (filter is_publish es)"
  by (induction es rule: snapshots_of.induct) simp_all

text \<open>
  C12: the application keeps every part in the states its own theory describes. From any \<open>init\<close> that
  succeeds, through any interleaving of window messages, dispatched events, foreground and media
  changes, detected gaps, commands (also concurrent ones) and the exit, the coordinator is in a state
  its own steps reach, so it has one refresh loop at most and holds only the registered client; the
  watcher is in a state it reaches itself; both session listeners stay wired; the configuration in force
  is a valid one and the store has no listener that could lock it; and the list of recent applications
  has no duplicates and at most ten entries.
\<close>

theorem application_composes:
  assumes "system_reachable u net tm env wenv sy"
  shows "coord_reachable u net tm (coordinator_of sy) \<and>
    count_tasks is_refresh (tasks (coordinator_of sy)) \<le> 1 \<and> authority_ok (coordinator_of sy) \<and>
    watch_reachable wenv (sy_watcher sy) \<and>
    map snd (ss_lock_listeners (sy_events sy)) = [SleepListener] \<and>
    map snd (ss_resume_listeners (sy_events sy)) = [WakeListener] \<and>
    config_valid (the_config (app_service (sy_app sy))) \<and> quiet (app_service (sy_app sy)) \<and>
    distinct (app_recent (sy_app sy)) \<and> length (app_recent (sy_app sy)) \<le> 10"
  using system_reachable_ok [OF assms] system_reachable_store [OF assms] single_flight_reachable [of u net tm "coordinator_of sy"]
    authority_ok_reachable [of u net tm "coordinator_of sy"]
  by (auto simp: parts_ok_def store_ok_def listeners_wired_def RECENT_APP_IDS_MAX_def single_flight_def)

text \<open>
  C6: a locked application publishes nothing new. From any reachable state in which the coordinator is
  suspended (or disabled, or outdated), \<open>init\<close> has made its start of the service, no unlock or
  confirmation is under way (a command is one step, with the segments of others inside it) and no unlock is
  queued, and no gap callback is about to restart (it has not seen a publishing coordinator just before
  the lock), and until an unlock or resume message arrives or the user confirms a preview, whatever else
  happens (timers, network, foreground and media changes, detected gaps, every other command, the
  exit), it stays in these states, captures nothing and sends at most the one publish that had passed its
  last check. \<open>gap_restart_undoes_lock\<close> shows that the condition on the gap callback is needed.
\<close>

theorem locked_application_stays_quiet:
  assumes "system_reachable u net tm env wenv sy"
    and "coord_state (w_inner (coordinator_of sy)) \<in> {Disabled, Suspended, UpdateRequired}"
    and "sy_started sy" and "sy_gap sy \<noteq> GapLive"
    and "\<forall>h. WakeJoin h \<notin> set (tasks (coordinator_of sy))" and "UnlockOrResume \<notin> set (ss_channel (sy_events sy))"
    and "(system_step_in True UNIV (- {StartCall, WakeCall}) u net tm env wenv)\<^sup>*\<^sup>* sy sy'"
  shows "coord_state (w_inner (coordinator_of sy')) \<in> {Disabled, Suspended, UpdateRequired} \<and>
    captures (coordinator_of sy') = captures (coordinator_of sy) \<and>
    publishes (coordinator_of sy') \<le> publishes (coordinator_of sy) + count_tasks is_checked (tasks (coordinator_of sy)) \<and>
    count_tasks is_checked (tasks (coordinator_of sy)) \<le> 1"
proof -
  have ok: "coord_reachable u net tm (coordinator_of sy)" "parts_ok wenv sy" "capture_ok u sy"
    using system_reachable_ok [OF assms(1)] by simp_all
  have settled: "settled sy" using assms(3,4) by (simp add: settled_def)
  have allowed: "event_call k \<in> - {StartCall, WakeCall}" if "k \<noteq> UnlockOrResume" for k
    using that by (cases k) simp_all
  have q: "queue_allowed (- {StartCall, WakeCall}) (sy_events sy)"
    unfolding queue_allowed_def
  proof (rule image_subsetI)
    fix k
    assume "k \<in> set (ss_channel (sy_events sy))"
    then show "event_call k \<in> - {StartCall, WakeCall}" using assms(6) by (intro allowed) auto
  qed
  have d: "dormant (coordinator_of sy)" by (rule dormant_world [OF ok(1) assms(2,5)])
  show ?thesis
    by (rule dormant_world_quiet [OF ok(1) d conjunct1 [OF quiet_system_run [OF assms(7) ok(2,3) q d settled]]])
qed

text \<open>
  C7: with Live Desk disabled the application publishes nothing. From any reachable state in which Live
  Desk is off (or the device is not paired), the coordinator is at rest and no confirmation is under way,
  and until a preview is confirmed, whatever else happens (locks and unlocks, gaps, retries, foreground and media changes, any
  other command, pairing included, also concurrent ones, the exit), Live Desk stays off, a coordinator
  that is woken gets no further than reading the stored connection, nothing is captured, and at most the
  one publish that had passed its last check is sent.
\<close>

theorem disabled_application_is_dark:
  assumes "system_reachable u net tm env wenv sy"
    and "\<not> live_desk_on (the_config (app_service (sy_app sy)))"
    and "coord_state (w_inner (coordinator_of sy)) \<in> {Disabled, Suspended, UpdateRequired}"
    and "(system_step_in False UNIV (- enabled_reads) u net tm env wenv)\<^sup>*\<^sup>* sy sy'"
  shows "\<not> live_desk_on (the_config (app_service (sy_app sy'))) \<and>
    coord_state (w_inner (coordinator_of sy')) \<in> {Disabled, Suspended, UpdateRequired, Connecting} \<and>
    captures (coordinator_of sy') = captures (coordinator_of sy) \<and>
    publishes (coordinator_of sy') \<le> publishes (coordinator_of sy) + count_tasks is_checked (tasks (coordinator_of sy)) \<and>
    count_tasks is_checked (tasks (coordinator_of sy)) \<le> 1"
proof -
  have ok: "coord_reachable u net tm (coordinator_of sy)" "parts_ok wenv sy" "capture_ok u sy"
    using system_reachable_ok [OF assms(1)] by simp_all
  have off: "desk_off (app_service (sy_app sy))"
    using system_reachable_store [OF assms(1)] assms(2) by (simp add: desk_off_def store_ok_def)
  note run = off_system_run [OF assms(4) ok(2,3) off]
  from run have "\<not> live_desk_on (the_config (app_service (sy_app sy')))" by (simp add: desk_off_def)
  then show ?thesis
    using unlit_world_dark [OF ok(1) resting_unlit [OF ok(1) assms(3)] conjunct1 [OF run]] by (rule conjI)
qed


text \<open>
  C8: what is published follows the policy in force. From any reachable state in which a capture under
  way has read none but \<open>policies\<close>, and as long as the policy in force is one of them (one policy, or all
  that agree on what they hide), through any interleaving of callbacks, commands, messages and the separate
  reads of a capture, whatever is published is what a capture under them gives: an application only of a
  foreground window whose application one of them shares, its title only if titles are shared, and media
  only of a playing session that one of them shares. The one exception is the publish that had passed its
  last check before. A capture that has read the policy before it changed is therefore no exception only
  when the old policy is among \<open>policies\<close>: \<open>stale_capture_is_published\<close> shows that its result goes out.
\<close>

theorem published_follows_policy:
  assumes "system_reachable u net tm env wenv sy" and "policy_in policies (app_service (sy_app sy))"
    and "read_policies sy \<subseteq> policies"
    and "(system_step_in True policies (captures_under u policies) u net tm env wenv)\<^sup>*\<^sup>* sy sy'"
  shows "policy_in policies (app_service (sy_app sy')) \<and> read_policies sy' \<subseteq> policies \<and>
    (\<exists>new. published (coordinator_of sy') = published (coordinator_of sy) @ new \<and>
       (\<forall>s \<in> set new. s \<in> in_flight (coordinator_of sy) \<or> shared_by u policies s)) \<and>
    (\<exists>late. in_flight (coordinator_of sy) \<subseteq> {late})"
proof -
  have ok: "coord_reachable u net tm (coordinator_of sy)" "parts_ok wenv sy" "capture_ok u sy"
    using system_reachable_ok [OF assms(1)] by simp_all
  note run = policy_system_run [OF assms(4) ok(2,3) assms(2,3)]
  obtain new where "published (coordinator_of sy') = published (coordinator_of sy) @ new"
    "set new \<subseteq> in_flight (coordinator_of sy) \<union> answered (captures_under u policies)"
    using publishes_only_run [OF conjunct1 [OF run]] by auto
  with captures_under_shared run one_in_flight [OF ok(1)] show ?thesis by blast
qed

section \<open>A run\<close>

text \<open>
  An application that starts with an enabled connection, negotiates, and then meets a lock message.
\<close>

definition sample_core :: core_config where
  "sample_core = default_core_config\<lparr>connection := Some sample_connection\<rparr>"

definition sample_disk :: disk where
  "sample_disk = (\<lambda>_. None)(path_join (lit ''d'') (lit ''config.json'') \<mapsto> Parsed (en_core_config sample_core))"

definition sample_init :: init_inputs where
  "sample_init = \<lparr>in_data_dir = Inr (lit ''d''), in_config_created = True, in_sequence_created = True,
     in_copy_ok = True, in_media = None, in_watcher = watcher_new, in_window = True\<rparr>"

abbreviation sample_watch :: watch_env where
  "sample_watch \<equiv> \<lparr>we_unicode = ascii_unicode, we_upper = (\<lambda>c. [c]), we_mtime = (\<lambda>_. None)\<rparr>"

abbreviation sample_reach :: "unit system \<Rightarrow> bool" where
  "sample_reach \<equiv> system_reachable ascii_unicode sample_env default_timings sample_service_env sample_watch"

abbreviation sample_step :: "coord_call set \<Rightarrow> unit system \<Rightarrow> unit system \<Rightarrow> bool" where
  "sample_step calls \<equiv> system_step_in True UNIV calls ascii_unicode sample_env default_timings sample_service_env sample_watch"

lemma parse_sample: "parse_config (Parsed (en_core_config sample_core)) = Inr sample_core"
proof -
  have "config_widths sample_core" "version sample_core = 1"
    by (simp_all add: config_widths_def sample_core_def default_core_config_def sample_connection_def)
  then show ?thesis
    by (simp add: de_en_core_config validate_config_semantics_def)
      (simp add: sample_core_def default_core_config_def default_privacy_config_def)
qed

lemma started_run:
  obtains sy where "sample_reach sy" and "coordinator_of sy = coord_start world_new"
    and "stored_choice sy = Some sample_connection"
    and "policy_in {default_privacy_config} (app_service (sy_app sy))"
    and "sy_started sy" and "sy_gap sy = GapIdle" and "sy_capture sy = None"
    and "ss_channel (sy_events sy) = []" and "ss_tx (sy_events sy)" and "\<not> ss_suspended (sy_events sy)"
proof -
  have load: "cs_load True sample_disk (path_join (lit ''d'') (lit ''config.json'')) = (sample_core, sample_disk)"
    by (simp add: cs_load_def sample_disk_def parse_sample del: parse_config.simps)
  have on: "connection sample_core = Some sample_connection" "live_desk_enabled sample_connection"
    by (simp_all add: sample_core_def sample_connection_def)
  obtain sy where sy: "init_system sample_service_env sample_init sample_disk = (Inr (sy :: unit system), sample_disk)"
    and c: "the_config (app_service (sy_app sy)) = sample_core" "\<not> sy_started sy" and e: "sy_events sy = init_events True"
      "sy_gap sy = GapIdle" "sy_capture sy = None"
    by (simp add: init_system_def sample_init_def config_store_new_def open_directory_def config_store_at_def load fss_new_def
        app_new_def service_new_def the_config_def)
  have r: "sample_reach sy"
    by (rule system_reachable.Started [OF sy]) (simp add: sample_init_def watch_reachable.Start)
  have w: "coordinator_of sy = world_new"
    using init_parts(2) [OF sy] by (simp add: sample_init_def watch_reachable.Start)
  note run = start_service_def service_start_def start_coordinator_def sv_bind_def on_world_def sv_modify_def act_def
    sv_read_def interfere_def
  let ?start = "start_service (\<lambda>s. s)"
  have "sample_reach (?start sy)"
    by (rule system_reachable.Stepped [OF r ServiceStarts]) (simp_all add: c others_moving_def others_keep_def)
  moreover have "coordinator_of (?start sy) = coord_start world_new"
    using c w on by (simp add: run coordinator_of_def)
  moreover have "stored_choice (?start sy) = Some sample_connection"
    using c on by (simp add: run stored_choice_def)
  moreover have "policy_in {default_privacy_config} (app_service (sy_app (?start sy)))"
    using c on by (simp add: run policy_in_def sample_core_def default_core_config_def)
  ultimately show ?thesis
    using e by (intro that [of "?start sy"])
      (simp_all add: start_service_def init_events_def register_listener_def sys_start_def sys_new_def Let_def)
qed

lemma on_coordinator_id: "on_coordinator (\<lambda>_. coordinator_of sy) sy = sy"
  by (simp add: on_coordinator_def coordinator_of_def Let_def)

lemma on_coordinator_twice: "on_coordinator (\<lambda>_. w) (on_coordinator f sy) = on_coordinator (\<lambda>_. w) sy"
  by (simp add: on_coordinator_def Let_def)

lemma coordinator_run:
  assumes "task_step\<^sup>*\<^sup>* (coordinator_of sy) w" and "stored_choice sy = Some sample_connection"
  shows "(sample_step calls)\<^sup>*\<^sup>* sy (on_coordinator (\<lambda>_. w) sy)"
  using assms
proof induction
  case base
  then show ?case by (simp add: on_coordinator_id)
next
  case (step w w')
  then have "sample_step calls (on_coordinator (\<lambda>_. w) sy) (on_coordinator (\<lambda>_. w') (on_coordinator (\<lambda>_. w) sy))"
    using assms(2) coord_step_mono [OF step.hyps(2), of "answers (on_coordinator (\<lambda>_. w) sy)"]
    by (intro system_step_in.CoordinatorSteps) (simp add: answers_def)
  with step.IH assms(2) show ?case by (simp add: on_coordinator_twice)
qed

lemma system_run_reachable: "(sample_step UNIV)\<^sup>*\<^sup>* sy sy' \<Longrightarrow> sample_reach sy \<Longrightarrow> sample_reach sy'"
  by (induction rule: rtranclp_induct) (auto intro: system_reachable.Stepped)

lemma active_system:
  obtains sy where "sample_reach sy" and "coord_state (w_inner (coordinator_of sy)) = Active"
    and "coord_client (w_inner (coordinator_of sy)) \<noteq> None" and "stored_choice sy = Some sample_connection"
    and "\<not> stopping (w_inner (coordinator_of sy))" and "sy_started sy" and "sy_gap sy = GapIdle"
    and "\<exists>h. tasks (coordinator_of sy) = [Finished, HeartbeatTimer 1 h, Refresh 1 RHead]"
    and "ss_channel (sy_events sy) = []" and "ss_tx (sy_events sy)" and "\<not> ss_suspended (sy_events sy)"
proof -
  obtain sy where sy: "sample_reach sy" "coordinator_of sy = coord_start world_new" "ss_channel (sy_events sy) = []"
    "ss_tx (sy_events sy)" "\<not> ss_suspended (sy_events sy)" "stored_choice sy = Some sample_connection"
    "sy_started sy" "sy_gap sy = GapIdle"
    by (rule started_run)
  obtain w h where w: "tasks w = [Finished, HeartbeatTimer 1 h, Refresh 1 RHead]" "coord_state (w_inner w) = Active"
    "\<not> stopping (w_inner w)" "coord_client (w_inner w) \<noteq> None" "task_step\<^sup>*\<^sup>* (coord_start world_new) w"
    by (rule active_run)
  have "sample_reach (on_coordinator (\<lambda>_. w) sy)"
    by (rule system_run_reachable [OF coordinator_run sy(1)]) (simp_all add: sy w(5))
  then show ?thesis by (rule that) (simp_all add: sy w)
qed

text \<open>The session is locked: the message arrives, and the dispatcher runs the listener.\<close>

lemma lock_arrives:
  assumes r: "sample_reach sy" and "coord_state (w_inner (coordinator_of sy)) = Active"
    and "\<not> stopping (w_inner (coordinator_of sy))"
    and "tasks (coordinator_of sy) = [Finished, HeartbeatTimer 1 h, Refresh 1 RHead]"
    and "ss_channel (sy_events sy) = []" and "ss_tx (sy_events sy)" and "\<not> ss_suspended (sy_events sy)"
  obtains sy' where "sample_reach sy'" and "coordinator_of sy' = handle_sleep_or_lock default_timings (coordinator_of sy)"
    and "ss_channel (sy_events sy') = []" and "coord_state (w_inner (coordinator_of sy')) = Suspended"
    and "\<forall>h. WakeJoin h \<notin> set (tasks (coordinator_of sy'))" and "sy_started sy' = sy_started sy"
    and "sy_gap sy' = sy_gap sy" and "stored_choice sy' = stored_choice sy"
proof -
  let ?sy2 = "sy\<lparr>sy_events := snd (wndproc (WtsSessionChange 7) (sy_events sy))\<rparr>"
  let ?sy3 = "dispatch_event default_timings ?sy2"
  have r2: "sample_reach ?sy2"
    by (rule system_reachable.Stepped [OF r QuietMessage]) (simp add: wts_wparam_transition_def)
  have r3: "sample_reach ?sy3" by (rule system_reachable.Stepped [OF r2 Dispatch])
  have wired: "listeners_wired (sy_events ?sy2)" using system_reachable_ok [OF r2] by (simp add: parts_ok_def)
  have channel: "ss_channel (sy_events ?sy2) = [LockOrSleep]"
    using assms by (simp add: wndproc_channel wts_wparam_transition_def dedupe_transition_def)
  have c3: "coordinator_of ?sy3 = handle_sleep_or_lock default_timings (coordinator_of sy)" "ss_channel (sy_events ?sy3) = []"
    using dispatch_event_simps(1,2) [OF wired, of default_timings] channel by simp_all
  have "coord_state (w_inner (handle_sleep_or_lock default_timings (coordinator_of sy))) = Suspended"
    "\<forall>h. WakeJoin h \<notin> set (tasks (handle_sleep_or_lock default_timings (coordinator_of sy)))"
    using assms(2-4) by (auto simp: handle_sleep_or_lock_def Let_def case_prod_beta split: option.split)
  moreover have "stored_choice ?sy3 = stored_choice sy" by (simp add: stored_choice_def the_config_def)
  ultimately show ?thesis using r3 c3 by (intro that [of ?sy3]) simp_all
qed

lemma locked_run:
  obtains sy w where "sample_reach sy" and "coord_state (w_inner w) = Active"
    and "coordinator_of sy = handle_sleep_or_lock default_timings w" and "ss_channel (sy_events sy) = []"
    and "coord_state (w_inner (coordinator_of sy)) = Suspended" and "sy_started sy" and "sy_gap sy = GapIdle"
    and "\<forall>h. WakeJoin h \<notin> set (tasks (coordinator_of sy))"
proof -
  obtain sy h where sy: "sample_reach sy" "coord_state (w_inner (coordinator_of sy)) = Active"
    "\<not> stopping (w_inner (coordinator_of sy))"
    "tasks (coordinator_of sy) = [Finished, HeartbeatTimer 1 h, Refresh 1 RHead]"
    "ss_channel (sy_events sy) = []" "ss_tx (sy_events sy)" "\<not> ss_suspended (sy_events sy)"
    and flags: "sy_started sy" "sy_gap sy = GapIdle"
    using active_system by metis
  obtain sy' where s: "sample_reach sy'" "coordinator_of sy' = handle_sleep_or_lock default_timings (coordinator_of sy)"
    "ss_channel (sy_events sy') = []" "coord_state (w_inner (coordinator_of sy')) = Suspended"
    "\<forall>h. WakeJoin h \<notin> set (tasks (coordinator_of sy'))" and kept: "sy_started sy'" "sy_gap sy' = GapIdle"
    by (rule lock_arrives [OF sy]) (simp add: flags)
  show ?thesis by (rule that [OF s(1) sy(2) s(2-4) kept s(5)])
qed

lemma locked_application_stays_quiet_witness:
  "\<exists>(sy :: unit system) w. sample_reach sy \<and> coord_state (w_inner w) = Active \<and>
     coordinator_of sy = handle_sleep_or_lock default_timings w \<and>
     captures (coordinator_of (on_coordinator request_fresh_snapshot (gap_turn (gap_turn sy)))) =
       captures (coordinator_of sy)"
proof -
  obtain sy w where sy: "sample_reach sy" "coord_state (w_inner w) = Active"
    "coordinator_of sy = handle_sleep_or_lock default_timings w" "ss_channel (sy_events sy) = []"
    "coord_state (w_inner (coordinator_of sy)) = Suspended" "\<forall>h. WakeJoin h \<notin> set (tasks (coordinator_of sy))"
    and flags: "sy_started sy" "sy_gap sy = GapIdle"
    by (rule locked_run)
  let ?sy1 = "gap_turn (gap_turn sy)" and ?calls = "- {StartCall, WakeCall}"
  have "sample_step ?calls sy (gap_turn sy)" "sample_step ?calls (gap_turn sy) ?sy1" by (rule Gap)+
  moreover have "sample_step ?calls ?sy1 (on_coordinator request_fresh_snapshot ?sy1)" by (rule MediaChanges) simp
  ultimately have run: "(sample_step ?calls)\<^sup>*\<^sup>* sy (on_coordinator request_fresh_snapshot ?sy1)"
    by (meson rtranclp.rtrancl_into_rtrancl rtranclp.rtrancl_refl)
  have "coord_state (w_inner (coordinator_of sy)) \<in> {Disabled, Suspended, UpdateRequired}"
    "UnlockOrResume \<notin> set (ss_channel (sy_events sy))" "sy_gap sy \<noteq> GapLive"
    using sy(4,5) flags by simp_all
  from locked_application_stays_quiet [OF sy(1) this(1) flags(1) this(3) sy(6) this(2) run]
  have "captures (coordinator_of (on_coordinator request_fresh_snapshot ?sy1)) = captures (coordinator_of sy)"
    by (elim conjE)
  then show ?thesis by (intro exI [of _ sy] exI [of _ w] conjI sy(1-3))
qed

text \<open>
  A gap can undo a lock. The gap callback reads the state of the coordinator and starts it in two
  separate calls. When the lock is handled in between, the start finds a suspended coordinator, which it
  restarts: with the session locked and no unlock in sight, the coordinator negotiates, becomes active and
  requests a snapshot.
\<close>

theorem gap_restart_undoes_lock:
  "\<exists>(sy :: unit system) sy'. sample_reach sy \<and> coord_state (w_inner (coordinator_of sy)) = Suspended \<and>
     sy_started sy \<and> (\<forall>h. WakeJoin h \<notin> set (tasks (coordinator_of sy))) \<and> ss_channel (sy_events sy) = [] \<and>
     (sample_step (- {StartCall, WakeCall}))\<^sup>*\<^sup>* sy sy' \<and>
     coord_state (w_inner (coordinator_of sy')) = Active \<and> refresh_requested (w_inner (coordinator_of sy')) \<and>
     coord_client (w_inner (coordinator_of sy')) \<noteq> None"
proof -
  obtain sy h where sy: "sample_reach sy" "coord_state (w_inner (coordinator_of sy)) = Active"
    "\<not> stopping (w_inner (coordinator_of sy))"
    "tasks (coordinator_of sy) = [Finished, HeartbeatTimer 1 h, Refresh 1 RHead]"
    "ss_channel (sy_events sy) = []" "ss_tx (sy_events sy)" "\<not> ss_suspended (sy_events sy)"
    and flags: "sy_started sy" "sy_gap sy = GapIdle" "stored_choice sy = Some sample_connection"
    using active_system by metis
  let ?sy1 = "gap_turn (gap_turn sy)"
  have r1: "sample_reach ?sy1"
    by (rule system_reachable.Stepped [OF system_reachable.Stepped [OF sy(1) Gap] Gap])
  have live: "sy_gap ?sy1 = GapLive" "coordinator_of ?sy1 = coordinator_of sy" "stored_choice ?sy1 = stored_choice sy"
    using sy(2) flags
    by (auto simp: gap_turn_def stored_choice_def current_state_def coordinator_of_def Let_def)
  obtain sy2 where sy2: "sample_reach sy2" "coordinator_of sy2 = handle_sleep_or_lock default_timings (coordinator_of sy)"
    "ss_channel (sy_events sy2) = []" "coord_state (w_inner (coordinator_of sy2)) = Suspended"
    "\<forall>h. WakeJoin h \<notin> set (tasks (coordinator_of sy2))" "sy_started sy2" "sy_gap sy2 = GapLive"
    "stored_choice sy2 = Some sample_connection"
    by (rule lock_arrives [OF r1]) (simp_all add: sy live flags)
  let ?sy3 = "gap_turn sy2" and ?w = "coordinator_of (gap_turn sy2)"
  have w: "?w = coord_start (coordinator_of sy2)" using sy2(7) by (simp add: gap_turn_coordinator)
  have "\<not> stopping (w_inner (coordinator_of sy2))"
    using sy(3) by (auto simp: sy2(2) handle_sleep_or_lock_def Let_def case_prod_beta split: option.split)
  then have t: "tasks ?w = tasks (coordinator_of sy2) @ [Configure (generation (w_inner ?w)) CfgEntry]"
    "coord_state (w_inner ?w) = Connecting"
    by (simp_all add: w coord_start_def start_locked_simps)
  have "sample_reach ?sy3" by (rule system_reachable.Stepped [OF sy2(1) Gap])
  then have reach: "reach ?w" using system_reachable_ok by blast
  obtain w' where w': "task_step\<^sup>*\<^sup>* ?w w'" "coord_state (w_inner w') = Active" "refresh_requested (w_inner w')"
    "coord_client (w_inner w') \<noteq> None"
    by (rule negotiation_run [OF reach, of "length (tasks (coordinator_of sy2))" "generation (w_inner ?w)"])
      (simp_all add: t)
  have stored: "stored_choice ?sy3 = Some sample_connection"
    using sy2(8) by (simp add: stored_choice_def the_config_def)
  have "sample_step (- {StartCall, WakeCall}) sy2 ?sy3" by (rule Gap)
  then have "(sample_step (- {StartCall, WakeCall}))\<^sup>*\<^sup>* sy2 (on_coordinator (\<lambda>_. w') ?sy3)"
    using coordinator_run [OF w'(1) stored] by (rule converse_rtranclp_into_rtranclp)
  with sy2 w' show ?thesis
    by (intro exI [of _ sy2] exI [of _ "on_coordinator (\<lambda>_. w') ?sy3"]) simp
qed

text \<open>The user disables Live Desk.\<close>

abbreviation off_step :: "unit system \<Rightarrow> unit system \<Rightarrow> bool" where
  "off_step \<equiv> system_step_in False UNIV (- enabled_reads) ascii_unicode sample_env default_timings sample_service_env sample_watch"

lemma disabled_run:
  assumes "sample_reach sy" and "\<not> stopping (w_inner (coordinator_of sy))"
  obtains sy1 where "sample_step UNIV sy sy1" and "\<not> live_desk_on (the_config (app_service (sy_app sy1)))"
    and "coord_state (w_inner (coordinator_of sy1)) = Disabled"
proof -
  let ?s = "app_service (sy_app sy)" and ?f = "set_live_desk False"
  have ok: "quiet ?s" "config_valid (the_config ?s)"
    using system_reachable_store [OF assms(1)] by (simp_all add: store_ok_def)
  then have valid: "config_valid (?f (the_config ?s))" by simp
  obtain d where u: "sv_update sample_service_env NoFault ?f ?s =
      Some (Inr (), ?s\<lparr>sv_store := (sv_store ?s)\<lparr>cst_config := ?f (the_config ?s)\<rparr>, sv_disk := d,
        sv_actions := sv_actions ?s @ [Persisted (?f (the_config ?s))]\<rparr>)"
    by (rule quiet_update_ends [OF ok(1), of sample_service_env NoFault ?f]) (use valid in simp_all)
  obtain s where run: "run_command sample_service_env (Disable NoFault) ?s = Some (Inr (), s)"
    and s: "the_config s = ?f (the_config ?s)" "sv_world s = shutdown CPaused (coordinator_of sy)"
    by (simp add: disable_live_desk_def sv_bind_def u interfere_def sv_modify_def stop_coordinator_def on_world_def act_def
        coordinator_of_app the_config_def)
  let ?sy1 = "sy\<lparr>sy_app := (sy_app sy)\<lparr>app_service := s\<rparr>\<rparr>"
  have "sample_step UNIV sy ?sy1"
    by (rule Command [OF _ _ _ _ _ _ run]) (simp_all add: others_moving_def others_keep_def policy_in_def)
  moreover have "\<not> live_desk_on (the_config s)"
    by (simp add: s live_desk_on_def set_live_desk_def split: option.split)
  ultimately show ?thesis using assms(2) by (intro that [of ?sy1]) (simp_all add: s shutdown_def Let_def)
qed


lemma disabled_application_is_dark_witness:
  "\<exists>(sy :: unit system) sy1. sample_reach sy \<and> coord_state (w_inner (coordinator_of sy)) = Active \<and>
     live_desk_on (the_config (app_service (sy_app sy))) \<and> (sample_step UNIV)\<^sup>*\<^sup>* sy sy1 \<and>
     (\<exists>sy2. sy2 = on_coordinator request_fresh_snapshot (gap_turn sy1) \<and>
        \<not> live_desk_on (the_config (app_service (sy_app sy2))) \<and>
        captures (coordinator_of sy2) = captures (coordinator_of sy1))"
proof -
  obtain sy where sy: "sample_reach sy" "coord_state (w_inner (coordinator_of sy)) = Active"
    "stored_choice sy = Some sample_connection" "\<not> stopping (w_inner (coordinator_of sy))"
    by (rule active_system)
  let ?s = "app_service (sy_app sy)"
  obtain sy1 where sy1: "sample_step UNIV sy sy1" "\<not> live_desk_on (the_config (app_service (sy_app sy1)))"
    "coord_state (w_inner (coordinator_of sy1)) = Disabled"
    by (rule disabled_run [OF sy(1,4)])
  let ?sy2 = "gap_turn sy1"
  let ?sy3 = "on_coordinator request_fresh_snapshot ?sy2"
  have r1: "sample_reach sy1" by (rule system_reachable.Stepped [OF sy(1) sy1(1)])
  have "off_step sy1 ?sy2" by (rule Gap)
  moreover have "off_step ?sy2 ?sy3" by (rule MediaChanges) (simp add: enabled_reads_def)
  ultimately have run: "off_step\<^sup>*\<^sup>* sy1 ?sy3" by (meson rtranclp.rtrancl_into_rtrancl rtranclp.rtrancl_refl)
  have rest: "coord_state (w_inner (coordinator_of sy1)) \<in> {Disabled, Suspended, UpdateRequired}" by (simp add: sy1(3))
  note dark = disabled_application_is_dark [OF r1 sy1(2) rest run]
  have off: "\<not> live_desk_on (the_config (app_service (sy_app ?sy3)))" by (rule conjunct1 [OF dark])
  have same: "captures (coordinator_of ?sy3) = captures (coordinator_of sy1)" using dark by (elim conjE)
  have on: "live_desk_on (the_config ?s)"
    using sy(3) by (simp add: live_desk_on_def stored_choice_def sample_connection_def)
  show ?thesis
  proof (rule exI [of _ sy], rule exI [of _ sy1], intro conjI sy(1,2) on)
    show "(sample_step UNIV)\<^sup>*\<^sup>* sy sy1" using sy1(1) by (rule r_into_rtranclp)
    show "\<exists>sy2. sy2 = ?sy3 \<and> \<not> live_desk_on (the_config (app_service (sy_app sy2))) \<and>
        captures (coordinator_of sy2) = captures (coordinator_of sy1)"
      by (rule exI [of _ ?sy3], intro conjI refl off same)
  qed
qed

text \<open>The started application publishes its first snapshot.\<close>

abbreviation policy_step :: "unit system \<Rightarrow> unit system \<Rightarrow> bool" where
  "policy_step \<equiv> system_step_in True {default_privacy_config} (captures_under ascii_unicode {default_privacy_config})
     ascii_unicode sample_env default_timings sample_service_env sample_watch"

lemma sample_captured_under:
  "captured_under ascii_unicode default_privacy_config default_privacy_config media sample_snapshot"
proof -
  have "capture_for_delivery ascii_unicode sample_delivery media None = (sample_snapshot, None)"
    using sample_capture by (simp add: capture_for_delivery_def capture_media_def sample_delivery_def tracker_reset_def)
  then show ?thesis unfolding captured_under_def
    by (intro exI [of _ sample_delivery] exI [of _ None] conjI) (simp_all add: sample_delivery_def)
qed

text \<open>A capture that has returned is published.\<close>

lemma publish_from_capture:
  assumes "tasks (coordinator_of sy) ! 2 = Refresh 1 (RCapture c media)" and "2 < length (tasks (coordinator_of sy))"
    and "generation (w_inner (coordinator_of sy)) = 1" and "capture_now sy = Some (CaptureReturned media p2 p3 snap)"
  obtains sy' where "(system_step_in consents policies calls u net tm env wenv)\<^sup>*\<^sup>* sy sy'"
    and "published (coordinator_of sy') = published (coordinator_of sy) @ [snap]"
proof -
  let ?step = "system_step_in consents policies calls u net tm env wenv"
  define w2 where "w2 = refresh_captured 2 1 c snap (coordinator_of sy)"
  have "coord_step_in (answers sy) u net tm (coordinator_of sy) w2"
    unfolding w2_def by (rule StepCaptured) (simp_all add: assms answers_def)
  then have s1: "?step sy (on_coordinator (\<lambda>_. w2) sy)" by (rule CoordinatorSteps)
  obtain lease where t2: "tasks w2 = (tasks (coordinator_of sy))[2 := Refresh 1 (RSend c snap lease)]"
    and p2: "published w2 = published (coordinator_of sy)"
    by (simp add: w2_def refresh_captured_def assms)
  let ?w3 = "refresh_send 2 1 c snap lease w2"
  have "coord_step_in (answers (on_coordinator (\<lambda>_. w2) sy)) u net tm w2 ?w3"
    by (rule StepSend) (simp_all add: t2 assms)
  then have "?step (on_coordinator (\<lambda>_. w2) sy) (on_coordinator (\<lambda>_. ?w3) (on_coordinator (\<lambda>_. w2) sy))"
    by (intro CoordinatorSteps) simp
  with s1 have "?step\<^sup>*\<^sup>* sy (on_coordinator (\<lambda>_. ?w3) (on_coordinator (\<lambda>_. w2) sy))"
    by (meson rtranclp.rtrancl_into_rtrancl rtranclp.rtrancl_refl)
  then show ?thesis by (rule that) (simp add: refresh_send_def p2)
qed

text \<open>The refresh loop waits for a capture, which has made its reads and returned.\<close>

lemma captured_run:
  obtains sy sy' h c media where "sample_reach sy" and "policy_in {default_privacy_config} (app_service (sy_app sy))"
    and "read_policies sy = {}" and "in_flight (coordinator_of sy) = {}" and "policy_step\<^sup>*\<^sup>* sy sy'"
    and "tasks (coordinator_of sy') = [Finished, HeartbeatTimer 1 h, Refresh 1 (RCapture c media)]"
    and "generation (w_inner (coordinator_of sy')) = 1" and "published (coordinator_of sy') = published (coordinator_of sy)"
    and "capture_now sy' = Some (CaptureReturned media default_privacy_config default_privacy_config sample_snapshot)"
proof -
  obtain sy0 where sy0: "sample_reach sy0" "coordinator_of sy0 = coord_start world_new"
    "stored_choice sy0 = Some sample_connection" "policy_in {default_privacy_config} (app_service (sy_app sy0))"
    "sy_capture sy0 = None"
    by (rule started_run)
  obtain w h where w: "tasks w = [Finished, HeartbeatTimer 1 h, Refresh 1 RStamp]" "generation (w_inner w) = 1"
    "coord_client (w_inner w) \<noteq> None" "task_step\<^sup>*\<^sup>* (coord_start world_new) w"
    by (rule stamp_run)
  obtain c where c: "coord_client (w_inner w) = Some c" using w(3) by blast
  let ?sy = "on_coordinator (\<lambda>_. w) sy0"
  have r: "sample_reach ?sy"
    by (rule system_run_reachable [OF coordinator_run sy0(1)]) (simp_all add: sy0 w(4))
  define w1 where "w1 = refresh_stamp 2 1 w"
  let ?sy1 = "on_coordinator (\<lambda>_. w1) ?sy"
  have "coord_step_in (answers ?sy) ascii_unicode sample_env default_timings (coordinator_of ?sy) w1"
    unfolding w1_def by (simp, rule StepStamp) (simp_all add: w)
  then have s1: "policy_step ?sy ?sy1" by (rule CoordinatorSteps)
  obtain media where t1: "tasks w1 = [Finished, HeartbeatTimer 1 h, Refresh 1 (RCapture c media)]"
    and i1: "generation (w_inner w1) = 1" "published w1 = published w"
    by (simp add: w1_def refresh_stamp_def w c)
  have waits: "waits_for_capture media w1" by (simp add: waits_for_capture_def t1)
  then have under: "waits_for_capture True w1 \<or> waits_for_capture False w1" by (cases media) simp_all
  let ?sy2 = "read_for_media media ?sy1"
  have s2: "policy_step ?sy1 ?sy2"
    by (rule CaptureReadsMedia) (simp_all add: waits capture_now_def sy0)
  have force: "policy_in_force sy0 = default_privacy_config" using sy0(4) by (simp add: policy_in_def policy_in_force_def)
  have same: "policy_in_force (on_coordinator f sy) = policy_in_force sy" for f and sy :: "unit system"
    by (simp add: policy_in_force_def on_coordinator_def the_config_def Let_def)
  have "policy_in_force ?sy2 = default_privacy_config"
    using same force by (simp add: read_for_media_def policy_in_force_def)
  moreover have now: "capture_now ?sy2 = Some (MediaRead media default_privacy_config)"
    using under by (simp add: capture_now_def read_for_media_def capture_number_def same force)
  ultimately have s3: "policy_step ?sy2 (read_for_application media default_privacy_config sample_snapshot ?sy2)"
    by (intro CaptureReturns) (simp_all add: sample_captured_under)
  let ?sy3 = "read_for_application media default_privacy_config sample_snapshot ?sy2"
  have "capture_now ?sy3 = Some (CaptureReturned media default_privacy_config default_privacy_config sample_snapshot)"
    using under same force
    by (simp add: capture_now_def read_for_application_def read_for_media_def capture_number_def policy_in_force_def)
  moreover have "policy_step\<^sup>*\<^sup>* ?sy ?sy3"
    using s1 s2 s3 by (meson rtranclp.rtrancl_into_rtrancl rtranclp.rtrancl_refl)
  moreover have "policy_in {default_privacy_config} (app_service (sy_app ?sy))"
    using force same by (simp add: policy_in_def policy_in_force_def)
  ultimately show ?thesis
    by (intro that [OF r, of ?sy3])
      (simp_all add: read_policies_def capture_now_def sy0 in_flight_def w read_for_application_def read_for_media_def t1 i1)
qed

lemma first_publish_run:
  obtains sy sy' where "sample_reach sy" and "policy_in {default_privacy_config} (app_service (sy_app sy))"
    and "read_policies sy \<subseteq> {default_privacy_config}" and "policy_step\<^sup>*\<^sup>* sy sy'" and "in_flight (coordinator_of sy) = {}"
    and "published (coordinator_of sy') = published (coordinator_of sy) @ [sample_snapshot]"
proof -
  obtain sy sy1 h c media where r: "sample_reach sy" "policy_in {default_privacy_config} (app_service (sy_app sy))"
    "read_policies sy = {}" "in_flight (coordinator_of sy) = {}" "policy_step\<^sup>*\<^sup>* sy sy1"
    and t: "tasks (coordinator_of sy1) = [Finished, HeartbeatTimer 1 h, Refresh 1 (RCapture c media)]"
    "generation (w_inner (coordinator_of sy1)) = 1" "published (coordinator_of sy1) = published (coordinator_of sy)"
    "capture_now sy1 = Some (CaptureReturned media default_privacy_config default_privacy_config sample_snapshot)"
    by (rule captured_run)
  obtain sy' where sy': "policy_step\<^sup>*\<^sup>* sy1 sy'" "published (coordinator_of sy') = published (coordinator_of sy1) @ [sample_snapshot]"
    by (rule publish_from_capture [OF _ _ t(2,4)]) (simp_all add: t)
  then show ?thesis using r t(3) by (intro that [of sy sy'] rtranclp_trans [OF r(5)]) simp_all
qed

lemma published_follows_policy_witness:
  "\<exists>sy sy'. sample_reach sy \<and> policy_step\<^sup>*\<^sup>* sy sy' \<and>
     published (coordinator_of sy') = published (coordinator_of sy) @ [sample_snapshot] \<and>
     shared_by ascii_unicode {default_privacy_config} sample_snapshot"
proof -
  obtain sy sy' where sy: "sample_reach sy" "policy_in {default_privacy_config} (app_service (sy_app sy))"
    "read_policies sy \<subseteq> {default_privacy_config}" "policy_step\<^sup>*\<^sup>* sy sy'" "in_flight (coordinator_of sy) = {}"
    "published (coordinator_of sy') = published (coordinator_of sy) @ [sample_snapshot]"
    by (rule first_publish_run)
  have "shared_by ascii_unicode {default_privacy_config} sample_snapshot"
    using published_follows_policy [OF sy(1-4)] sy(5,6) by auto
  then show ?thesis using sy by blast
qed

text \<open>
  A capture under way is not recalled. After its last read of the policy, and before the last check of the
  refresh loop, the user turns the application source off; the loop compares generations only, so the
  snapshot with the application is published although nothing was in flight and the policy no longer
  shares it.
\<close>

lemma restricted_run_reachable:
  assumes "(system_step_in consents policies calls u net tm env wenv)\<^sup>*\<^sup>* sy sy'" and "system_reachable u net tm env wenv sy"
  shows "system_reachable u net tm env wenv sy'"
  using assms
proof (induction rule: rtranclp_induct)
  case (step sy1 sy2)
  have moving: "others_moving ((coord_step_in UNIV u net tm)\<^sup>*\<^sup>*) others"
    if "others_moving ((coord_step_in calls u net tm)\<^sup>*\<^sup>*) others" for others :: "nat \<Rightarrow> 'a service \<Rightarrow> 'a service"
    using that rtranclp_mono [of "coord_step_in calls u net tm" "coord_step_in UNIV u net tm"]
    by (auto simp: others_moving_def intro: coord_step_mono)
  have any: "others_keep (policy_in UNIV) others" for others :: "nat \<Rightarrow> 'a service \<Rightarrow> 'a service"
    by (simp add: others_keep_def policy_in_def)
  from step.hyps(2) have "system_step_in True UNIV UNIV u net tm env wenv sy1 sy2"
    by cases (auto intro: system_step_in.intros moving any simp: policy_in_def)
  then show ?case using step by (blast intro: system_reachable.Stepped)
qed

lemma policy_check_runs:
  obtains s' where "policy_maybe_changed env (from_point 1 (\<lambda>_ s. s)) s = Some (Inr (), s')"
    and "the_config s' = the_config s" and "sv_world s' \<in> {sv_world s, request_fresh_snapshot (sv_world s)}"
proof (cases "capture_fingerprint env s = cg_fingerprint (sv_gate s)")
  case True
  then show ?thesis
    by (intro that [of s]) (simp_all add: policy_maybe_changed_def sv_bind_def interfere_def sv_modify_def sv_read_def
        sv_return_def from_point_def)
next
  case False
  then show ?thesis
    by (simp add: policy_maybe_changed_def sv_bind_def interfere_def sv_modify_def sv_read_def act_def on_world_def
        from_point_def the_config_def that)
qed

lemma sources_off_run:
  assumes "sample_reach sy"
  obtains sy' where "sample_step UNIV sy sy'" and "sy_capture sy' = sy_capture sy"
    and "policy_in_force sy' = patch_sources (Some False) None (policy_in_force sy)"
    and "coordinator_of sy' \<in> {coordinator_of sy, request_fresh_snapshot (coordinator_of sy)}"
proof -
  let ?s = "app_service (sy_app sy)" and ?p = "patch_sources (Some False) None"
  let ?f = "\<lambda>c. c\<lparr>privacy := ?p (privacy c)\<rparr>"
  have ok: "quiet ?s" "config_valid (the_config ?s)"
    using system_reachable_store [OF assms] by (simp_all add: store_ok_def)
  have valid: "config_valid (?f (the_config ?s))"
    using ok(2) by (simp add: config_valid_def config_widths_def patch_sources_def)
  obtain d where u: "sv_update sample_service_env NoFault ?f ?s =
      Some (Inr (), ?s\<lparr>sv_store := (sv_store ?s)\<lparr>cst_config := ?f (the_config ?s)\<rparr>, sv_disk := d,
        sv_actions := sv_actions ?s @ [Persisted (?f (the_config ?s))]\<rparr>)"
    by (rule quiet_update_ends [OF ok(1), of sample_service_env NoFault ?f]) (use valid in simp_all)
  let ?t = "?s\<lparr>sv_store := (sv_store ?s)\<lparr>cst_config := ?f (the_config ?s)\<rparr>, sv_disk := d,
        sv_actions := sv_actions ?s @ [Persisted (?f (the_config ?s))]\<rparr>"
  obtain s where check: "policy_maybe_changed sample_service_env (from_point 1 (\<lambda>_ s. s)) ?t = Some (Inr (), s)"
    and s: "the_config s = ?f (the_config ?s)" "sv_world s \<in> {sv_world ?s, request_fresh_snapshot (sv_world ?s)}"
    by (rule policy_check_runs [of sample_service_env ?t]) (simp add: the_config_def)
  have run: "run_command sample_service_env (SetSources NoFault (Some False) None) ?s = Some (Inr (), s)"
    using check by (simp add: set_sources_def change_privacy_def sv_bind_def u interfere_def sv_modify_def)
  let ?sy = "sy\<lparr>sy_app := (sy_app sy)\<lparr>app_service := s\<rparr>\<rparr>"
  have "sample_step UNIV sy ?sy"
    by (rule Command [OF _ _ _ _ _ _ run]) (simp_all add: others_moving_def others_keep_def policy_in_def)
  then show ?thesis using s by (intro that [of ?sy]) (simp_all add: policy_in_force_def coordinator_of_def)
qed

lemma fresh_request_simps:
  "captures (request_fresh_snapshot w) = captures w" "generation (w_inner (request_fresh_snapshot w)) = generation (w_inner w)"
  "published (request_fresh_snapshot w) = published w"
  by (simp_all add: request_fresh_snapshot_def trigger_refresh_simps)

lemma fresh_request_tasks: "\<exists>rest. tasks (request_fresh_snapshot w) = tasks w @ rest \<and> list_all (\<lambda>t. carried t = None) rest"
  by (auto simp: request_fresh_snapshot_def trigger_refresh_simps)

theorem stale_capture_is_published:
  "\<exists>(sy :: unit system) sy'. sample_reach sy \<and> \<not> src_application (sources (policy_in_force sy)) \<and>
     in_flight (coordinator_of sy) = {} \<and>
     (system_step_in False {policy_in_force sy} UNIV ascii_unicode sample_env default_timings sample_service_env
        sample_watch)\<^sup>*\<^sup>* sy sy' \<and>
     published (coordinator_of sy') = published (coordinator_of sy) @ [sample_snapshot] \<and>
     snap_application sample_snapshot \<noteq> None"
proof -
  obtain sy0 sy h c media where r0: "sample_reach sy0" "policy_step\<^sup>*\<^sup>* sy0 sy"
    and t: "tasks (coordinator_of sy) = [Finished, HeartbeatTimer 1 h, Refresh 1 (RCapture c media)]"
    "generation (w_inner (coordinator_of sy)) = 1"
    and now: "capture_now sy = Some (CaptureReturned media default_privacy_config default_privacy_config sample_snapshot)"
    by (rule captured_run)
  have r: "sample_reach sy" by (rule restricted_run_reachable [OF r0(2,1)])
  obtain sy1 where sy1: "sample_step UNIV sy sy1" "sy_capture sy1 = sy_capture sy"
    "policy_in_force sy1 = patch_sources (Some False) None (policy_in_force sy)"
    "coordinator_of sy1 \<in> {coordinator_of sy, request_fresh_snapshot (coordinator_of sy)}"
    by (rule sources_off_run [OF r])
  obtain rest where rest: "tasks (coordinator_of sy1) = tasks (coordinator_of sy) @ rest"
    "list_all (\<lambda>t. carried t = None) rest"
    using sy1(4) fresh_request_tasks [of "coordinator_of sy"] by auto
  have same: "captures (coordinator_of sy1) = captures (coordinator_of sy)"
    "generation (w_inner (coordinator_of sy1)) = 1"
    using sy1(4) t by (auto simp: fresh_request_simps)
  have "waits_for_capture True (coordinator_of sy1) \<or> waits_for_capture False (coordinator_of sy1)"
    by (cases media) (simp_all add: waits_for_capture_def rest t)
  then have "capture_now sy1 = Some (CaptureReturned media default_privacy_config default_privacy_config sample_snapshot)"
    using now same(1) sy1(2) by (auto simp: capture_now_def capture_number_def split: option.splits if_splits)
  then obtain sy' where sy': "(system_step_in False {policy_in_force sy1} UNIV ascii_unicode sample_env default_timings
      sample_service_env sample_watch)\<^sup>*\<^sup>* sy1 sy'"
    "published (coordinator_of sy') = published (coordinator_of sy1) @ [sample_snapshot]"
    by (rule publish_from_capture [rotated 3]) (simp_all add: rest t same)
  have "in_flight (coordinator_of sy1) = {}" using rest by (auto simp: in_flight_def t list_all_iff)
  moreover have "\<not> src_application (sources (policy_in_force sy1))" by (simp add: sy1(3) patch_sources_def unwrap_or_def)
  moreover have "sample_reach sy1" by (rule system_reachable.Stepped [OF r sy1(1)])
  moreover have "snap_application sample_snapshot \<noteq> None" by (simp add: sample_snapshot_def)
  ultimately show ?thesis using sy' by blast
qed

lemma application_composes_witness:
  "\<exists>sy :: unit system. sample_reach sy \<and> reach (coordinator_of sy) \<and>
     map snd (ss_lock_listeners (sy_events sy)) = [SleepListener]"
proof -
  obtain sy where sy: "sample_reach sy" by (rule started_run)
  note parts = application_composes [OF sy]
  show ?thesis
    by (intro exI [of _ sy] conjI sy conjunct1 [OF parts]) (use parts in \<open>elim conjE\<close>)
qed

end
