(* ===== verification/Version_Info.thy ===== *)
theory Version_Info
  imports Foreground Fingerprint
begin

text \<open>
  The version resource of an executable (\<open>core/src/capture/foreground.rs\<close>,
  \<open>read_file_description\<close> and its two queries) on the memory it reads: a block of \<open>u16\<close> words
  that \<open>GetFileVersionInfoW\<close> fills, and pointers into it that \<open>VerQueryValueW\<close> answers, given
  here as byte offsets. A write or a read past the block is undefined behaviour: \<open>None\<close>.
  The property shows that the result is \<open>read_file_description\<close> of \<open>Foreground\<close>.
\<close>

section \<open>The block\<close>

type_synonym block = "nat list"

definition block_byte :: "block \<Rightarrow> nat \<Rightarrow> nat" where
  "block_byte block i = (if even i then block ! (i div 2) mod 256 else block ! (i div 2) div 256)"

definition word_at :: "block \<Rightarrow> nat \<Rightarrow> nat" where
  "word_at block i = block_byte block i + 256 * block_byte block (Suc i)"

text \<open>\<open>read_unaligned\<close> of a \<open>u16\<close>.\<close>

definition read_unaligned :: "block \<Rightarrow> nat \<Rightarrow> nat option" where
  "read_unaligned block i = (if i + 2 \<le> 2 * length block then Some (word_at block i) else None)"

text \<open>
  The calls: the size of the resource (0 when there is none), the last error, filling a buffer, and
  a query: whether it succeeded, the pointer it stored (\<open>None\<close> is null) and the length.
\<close>

record version_api =
  va_size :: "nat list \<Rightarrow> nat"
  va_last_error :: nat
  va_info :: "nat list \<Rightarrow> nat \<Rightarrow> block \<Rightarrow> block option"
  va_query :: "block \<Rightarrow> nat list \<Rightarrow> bool \<times> nat option \<times> nat"

definition wide_nul :: "rstr \<Rightarrow> nat list" where
  "wide_nul value = utf16_units value @ [0]"

definition ERROR_RESOURCE_DATA_NOT_FOUND :: nat where
  "ERROR_RESOURCE_DATA_NOT_FOUND = 1812"

definition ERROR_RESOURCE_TYPE_NOT_FOUND :: nat where
  "ERROR_RESOURCE_TYPE_NOT_FOUND = 1813"

definition ERROR_RESOURCE_NAME_NOT_FOUND :: nat where
  "ERROR_RESOURCE_NAME_NOT_FOUND = 1814"

section \<open>The queries\<close>

definition translation_name :: "nat list" where
  "translation_name = wide_nul (92 # lit ''VarFileInfo'' @ 92 # lit ''Translation'')"

definition first_translation_pair :: "version_api \<Rightarrow> block \<Rightarrow> (nat \<times> nat) option option" where
  "first_translation_pair api block =
     (case va_query api block translation_name of (ok, ptr, len) \<Rightarrow>
        case ptr of
          None \<Rightarrow> Some None
        | Some p \<Rightarrow>
            if \<not> ok \<or> len < 4 then Some None
            else
              Option.bind (read_unaligned block p) (\<lambda>lang.
              Option.bind (read_unaligned block (p + 2)) (\<lambda>codepage. Some (Some (lang, codepage)))))"

fun read_until_nul :: "block \<Rightarrow> nat \<Rightarrow> nat \<Rightarrow> nat list option" where
  "read_until_nul block p 0 = Some []"
| "read_until_nul block p (Suc n) =
     Option.bind (read_unaligned block p) (\<lambda>unit.
       if unit = 0 then Some [] else map_option (Cons unit) (read_until_nul block (p + 2) n))"

definition query_wide_string :: "version_api \<Rightarrow> block \<Rightarrow> rstr \<Rightarrow> rstr option option" where
  "query_wide_string api block sub_block =
     (case va_query api block (wide_nul sub_block) of (ok, ptr, len) \<Rightarrow>
        case ptr of
          None \<Rightarrow> Some None
        | Some p \<Rightarrow>
            if \<not> ok \<or> len = 0 then Some None
            else map_option (\<lambda>units. Some (from_utf16_lossy units)) (read_until_nul block p len))"

text \<open>\<open>{:04x}\<close> of a \<open>u16\<close>.\<close>

definition hex4 :: "nat \<Rightarrow> rstr" where
  "hex4 n = map hex_digit [n div 4096, n div 256 mod 16, n div 16 mod 16, n mod 16]"

definition description_block :: "nat \<times> nat \<Rightarrow> rstr" where
  "description_block pair =
     92 # lit ''StringFileInfo'' @ 92 # hex4 (fst pair) @ hex4 (snd pair) @ 92 # lit ''FileDescription''"

fun try_candidates :: "version_api \<Rightarrow> block \<Rightarrow> (nat \<times> nat) list \<Rightarrow> rstr option option" where
  "try_candidates api block [] = Some None"
| "try_candidates api block (pair # pairs) =
     Option.bind (query_wide_string api block (description_block pair)) (\<lambda>found.
       case found of
         Some value \<Rightarrow>
           let trimmed = str_trim value
           in if trimmed \<noteq> [] then Some (Some trimmed) else try_candidates api block pairs
       | None \<Rightarrow> try_candidates api block pairs)"

definition read_description :: "version_api \<Rightarrow> rstr \<Rightarrow> (unit + rstr option) option" where
  "read_description api exe_path =
     (let wide_path = wide_nul exe_path; size = va_size api wide_path
      in if size = 0 then
           let err = va_last_error api
           in if err = ERROR_RESOURCE_DATA_NOT_FOUND \<or> err = ERROR_RESOURCE_TYPE_NOT_FOUND \<or>
                err = ERROR_RESOURCE_NAME_NOT_FOUND
              then Some (Inr None) else Some (Inl ())
         else
           let buffer = replicate (size div 2 + 1) 0
           in if 2 * length buffer < size then None
              else
                (case va_info api wide_path size buffer of
                   None \<Rightarrow> Some (Inl ())
                 | Some block \<Rightarrow>
                     Option.bind (first_translation_pair api block) (\<lambda>first.
                       map_option Inr (try_candidates api block (translation_candidates first)))))"

section \<open>What a resource holds\<close>

text \<open>
  Filling a buffer keeps its length, and a query that succeeds answers a pointer whose value lies in
  the block: a length in bytes for the translation table, in characters for a string.
\<close>

definition answers_inside :: "block \<Rightarrow> nat \<Rightarrow> bool \<times> nat option \<times> nat \<Rightarrow> bool" where
  "answers_inside block width answer \<longleftrightarrow>
     (case answer of (ok, ptr, len) \<Rightarrow> ok \<longrightarrow> (case ptr of None \<Rightarrow> True | Some p \<Rightarrow> p + width * len \<le> 2 * length block))"

definition version_contract :: "version_api \<Rightarrow> bool" where
  "version_contract api \<longleftrightarrow>
     (\<forall>path size buffer block. va_info api path size buffer = Some block \<longrightarrow> length block = length buffer) \<and>
     (\<forall>block name. answers_inside block (if name = translation_name then 1 else 2) (va_query api block name))"

definition units_at :: "block \<Rightarrow> nat \<Rightarrow> nat \<Rightarrow> nat list" where
  "units_at block p len = map (\<lambda>i. word_at block (p + 2 * i)) [0..<len]"

definition version_info_of :: "version_api \<Rightarrow> rstr \<Rightarrow> version_info" where
  "version_info_of api exe_path =
     (let path = wide_nul exe_path; size = va_size api path
      in if size = 0 then
           (if va_last_error api \<in> {ERROR_RESOURCE_DATA_NOT_FOUND, ERROR_RESOURCE_TYPE_NOT_FOUND,
              ERROR_RESOURCE_NAME_NOT_FOUND} then NoResource else QueryFailed)
         else
           (case va_info api path size (replicate (size div 2 + 1) 0) of
              None \<Rightarrow> QueryFailed
            | Some block \<Rightarrow>
                Resource
                  (case va_query api block translation_name of
                     (True, Some p, len) \<Rightarrow> if len < 4 then None else Some (word_at block p, word_at block (p + 2))
                   | _ \<Rightarrow> None)
                  (\<lambda>pair. case va_query api block (wide_nul (description_block pair)) of
                     (True, Some p, len) \<Rightarrow> if len = 0 then None else Some (units_at block p len)
                   | _ \<Rightarrow> None)))"

section \<open>Properties\<close>

lemma units_at_Suc: "units_at block p (Suc n) = word_at block p # units_at block (p + 2) n"
  by (simp add: units_at_def map_upt_Suc del: upt_Suc)

lemma units_at_0 [simp]: "units_at block p 0 = []"
  by (simp add: units_at_def)

lemma buffer_large_enough: "\<not> 2 * length (replicate (n div 2 + 1) x) < n"
  by simp

lemma read_until_nul_in_bounds:
  "p + 2 * n \<le> 2 * length block \<Longrightarrow>
    read_until_nul block p n = Some (takeWhile (\<lambda>v. v \<noteq> 0) (units_at block p n))"
  by (induction n arbitrary: p) (simp_all add: units_at_Suc read_unaligned_def)

text \<open>A string's name differs from the table's: it starts otherwise.\<close>

lemma names_differ: "wide_nul (description_block pair) \<noteq> translation_name"
  by (simp add: wide_nul_def description_block_def translation_name_def lit_def utf16_units_def utf16_def)

lemma query_wide_string_in_bounds:
  assumes "version_contract api"
  shows "query_wide_string api block (description_block pair) =
    Some (case va_query api block (wide_nul (description_block pair)) of
       (True, Some p, len) \<Rightarrow>
         if len = 0 then None else Some (from_utf16_lossy (takeWhile (\<lambda>v. v \<noteq> 0) (units_at block p len)))
     | _ \<Rightarrow> None)"
proof -
  obtain ok ptr len where q: "va_query api block (wide_nul (description_block pair)) = (ok, ptr, len)"
    by (metis prod_cases3)
  have "answers_inside block 2 (ok, ptr, len)"
    using assms q names_differ [of pair] unfolding version_contract_def by (metis (full_types))
  then show ?thesis
    using q by (cases ok; cases ptr) (simp_all add: query_wide_string_def answers_inside_def read_until_nul_in_bounds)
qed

lemma first_translation_pair_in_bounds:
  assumes "version_contract api"
  shows "first_translation_pair api block =
    Some (case va_query api block translation_name of
       (True, Some p, len) \<Rightarrow> if len < 4 then None else Some (word_at block p, word_at block (p + 2))
     | _ \<Rightarrow> None)"
proof -
  obtain ok ptr len where q: "va_query api block translation_name = (ok, ptr, len)"
    by (metis prod_cases3)
  have "answers_inside block 1 (ok, ptr, len)"
    using assms q unfolding version_contract_def by (metis (full_types))
  then show ?thesis
    using q by (cases ok; cases ptr) (simp_all add: first_translation_pair_def answers_inside_def read_unaligned_def)
qed

lemma try_candidates_first_description:
  assumes "version_contract api"
  shows "try_candidates api block pairs =
    Some (first_description
      (\<lambda>pair. case va_query api block (wide_nul (description_block pair)) of
         (True, Some p, len) \<Rightarrow> if len = 0 then None else Some (units_at block p len)
       | _ \<Rightarrow> None) str_trim pairs)"
proof (induction pairs)
  case (Cons pair pairs)
  obtain ok ptr len where q: "va_query api block (wide_nul (description_block pair)) = (ok, ptr, len)"
    by (metis prod_cases3)
  show ?case
    using Cons.IH q query_wide_string_in_bounds [OF assms, of block pair]
    by (cases ok; cases ptr) (simp_all add: Let_def)
qed simp

lemma first_description_not_blank: "first_description query trim pairs = Some v \<Longrightarrow> v \<noteq> []"
  by (induction pairs) (auto split: option.splits if_splits)

text \<open>
  C33: reading a file description stays inside its buffer. When filling the buffer keeps its length
  and \<open>VerQueryValueW\<close> answers values that lie in the block, the buffer is large enough for the
  resource, every unaligned read of the translation table and of the strings is in bounds, and
  the result is the first description that is not blank among the translation candidates.
\<close>

theorem version_query_in_bounds:
  assumes contract: "version_contract api"
  shows "read_description api path = Some (read_file_description str_trim (version_info_of api path)) \<and>
    (case read_file_description str_trim (version_info_of api path) of Inr (Some v) \<Rightarrow> v \<noteq> [] | _ \<Rightarrow> True)"
proof
  show "read_description api path = Some (read_file_description str_trim (version_info_of api path))"
    using first_translation_pair_in_bounds [OF contract] try_candidates_first_description [OF contract]
    unfolding read_description_def version_info_of_def Let_def if_not_P [OF buffer_large_enough]
    by (auto split: option.split simp del: replicate.simps)
  show "case read_file_description str_trim (version_info_of api path) of Inr (Some v) \<Rightarrow> v \<noteq> [] | _ \<Rightarrow> True"
    by (cases "version_info_of api path") (auto split: option.split dest: first_description_not_blank)
qed

text \<open>A resource of 13 bytes that holds the name at an odd offset.\<close>

definition sample_version_api :: version_api where
  "sample_version_api =
     \<lparr>va_size = (\<lambda>_. 13), va_last_error = 0,
      va_info = (\<lambda>_ _ buffer. if length buffer = 7 then Some [1033, 1200, 17920 + 32, 111 * 256, 111 * 256, 0, 0] else None),
      va_query = (\<lambda>block name.
        if length block \<noteq> 7 then (False, None, 0)
        else if name = translation_name then (True, Some 0, 4)
        else if name = wide_nul (description_block (1033, 1200)) then (True, Some 5, 4) else (False, None, 0))\<rparr>"

lemma version_query_in_bounds_witness:
  "read_description sample_version_api (lit ''foo.exe'') = Some (Inr (Some (lit ''Foo'')))"
proof -
  have "version_contract sample_version_api"
    by (auto simp: version_contract_def sample_version_api_def answers_inside_def names_differ)
  from conjunct1 [OF version_query_in_bounds [OF this, of "lit ''foo.exe''"]] show ?thesis
    by (simp add: version_info_of_def sample_version_api_def translation_candidates_def names_differ
        units_at_def word_at_def block_byte_def upt_rec str_trim_def trim_matches_def is_white_space_def lit_def)
qed

end
