(* ===== verification/Media_Provider.thy ===== *)
theory Media_Provider
  imports Foreground
begin

text \<open>
  The media provider (\<open>core/src/capture/media.rs\<close>): one read of the current session, its mapping
  to a snapshot with the extrapolated position, the semantic key, and the provider with its event
  task, its listeners and its registrations at WinRT. What WinRT answers is an argument; a
  registration token is a number, and the tokens WinRT still holds are part of the state.
\<close>

section \<open>Conversions\<close>

definition PLAYBACK_STATUS_PLAYING :: int where
  "PLAYBACK_STATUS_PLAYING = 4"

definition EXTRAPOLATION_MAX_ELAPSED_SECONDS :: f64 where
  "EXTRAPOLATION_MAX_ELAPSED_SECONDS = Fin 21600"

definition TICKS_PER_SECOND :: rat where
  "TICKS_PER_SECOND = 10000000"

definition TICKS_PER_MILLISECOND :: int where
  "TICKS_PER_MILLISECOND = 10000"

definition UNIX_EPOCH_OFFSET_TICKS :: int where
  "UNIX_EPOCH_OFFSET_TICKS = 116444736000000000"

definition to_null :: "rstr \<Rightarrow> rstr option" where
  "to_null value = (let trimmed = str_trim value in if trimmed = [] then None else Some trimmed)"

definition app_id_from_source :: "unicode \<Rightarrow> rstr \<Rightarrow> rstr option" where
  "app_id_from_source u source =
     (let len = length (str_bytes source)
      in if len < 4 then None
         else case split_at_byte (len - 4) source of
                Some (_, suffix) \<Rightarrow> if ends_exe suffix then Some (lowercase u source) else None
              | None \<Rightarrow> None)"

definition media_kind_from_playback_type :: "int option \<Rightarrow> media_kind" where
  "media_kind_from_playback_type t =
     (if t = Some 1 then Music else if t = Some 3 then Video else UnknownKind)"

definition ticks_to_seconds :: "int \<Rightarrow> f64" where
  "ticks_to_seconds ticks = f_div_by (f_of_int ticks) TICKS_PER_SECOND"

text \<open>The subtraction of two \<open>i64\<close> values, which wraps in a release build.\<close>

definition i64_sub :: "int \<Rightarrow> int \<Rightarrow> int" where
  "i64_sub a b = sint (word_of_int (a - b) :: 64 word)"

lemma i64_sub_in_range: "- (2 ^ 63) \<le> a - b \<Longrightarrow> a - b < 2 ^ 63 \<Longrightarrow> i64_sub a b = a - b"
  unfolding i64_sub_def by transfer (simp add: signed_take_bit_int_eq_self_iff)

text \<open>Integer division truncates toward zero.\<close>

definition winrt_datetime_to_epoch_ms :: "int \<Rightarrow> epoch_ms" where
  "winrt_datetime_to_epoch_ms ticks =
     (let d = i64_sub ticks UNIX_EPOCH_OFFSET_TICKS
      in if 0 \<le> d then d div TICKS_PER_MILLISECOND else - ((- d) div TICKS_PER_MILLISECOND))"

definition extrapolated_position :: "f64 \<Rightarrow> bool \<Rightarrow> epoch_ms \<Rightarrow> epoch_ms \<Rightarrow> f64 option \<Rightarrow> f64 option" where
  "extrapolated_position raw_position playing updated_at now duration =
     (if \<not> is_finite raw_position \<or> f_lt raw_position (Fin 0) then None
      else if playing then
        let elapsed = f_div_by (f_of_int (i64_sub now updated_at)) 1000;
            position = (if f_lt (Fin 0) elapsed \<and> f_lt elapsed EXTRAPOLATION_MAX_ELAPSED_SECONDS
                        then f_add raw_position elapsed else raw_position)
        in Some (case duration of
                   Some d \<Rightarrow> if f_lt d position then d else position
                 | None \<Rightarrow> position)
      else Some raw_position)"

section \<open>Frames\<close>

record raw_frame =
  fr_source_app_id :: rstr
  fr_title :: rstr
  fr_artist :: rstr
  fr_album :: rstr
  fr_kind :: media_kind
  fr_playing :: bool
  fr_duration_seconds :: f64
  fr_position_seconds :: f64
  fr_updated_at :: epoch_ms

type_synonym semantic_key = "(rstr \<times> rstr \<times> rstr \<times> rstr \<times> bool) option"

definition semantic_key :: "raw_frame option \<Rightarrow> semantic_key" where
  "semantic_key frame =
     map_option (\<lambda>f. (fr_source_app_id f, fr_title f, fr_artist f, fr_album f, fr_playing f)) frame"

text \<open>
  What a session answers to the reads, in their order; \<open>None\<close> is an error. Texts are UTF-16, a
  playback type that is null or fails is \<open>None\<close>.
\<close>

record winrt_session =
  ws_title :: "nat list option"
  ws_artist :: "nat list option"
  ws_album :: "nat list option"
  ws_end_time :: "int option"
  ws_position :: "int option"
  ws_last_updated :: "int option"
  ws_status :: "int option"
  ws_playback_type :: "int option"
  ws_source :: "nat list option"

text \<open>The outer \<open>None\<close> is a failed read, the inner one no current session.\<close>

definition read_raw_frame :: "winrt_session option \<Rightarrow> raw_frame option option" where
  "read_raw_frame current =
     (case current of
        None \<Rightarrow> Some None
      | Some s \<Rightarrow>
          Option.bind (ws_title s) (\<lambda>title.
          Option.bind (ws_artist s) (\<lambda>artist.
          Option.bind (ws_album s) (\<lambda>album.
          Option.bind (ws_end_time s) (\<lambda>end_time.
          Option.bind (ws_position s) (\<lambda>position.
          Option.bind (ws_last_updated s) (\<lambda>updated.
          Option.bind (ws_status s) (\<lambda>status.
          Option.bind (ws_source s) (\<lambda>source.
            Some (Some
              \<lparr>fr_source_app_id = from_utf16_lossy source, fr_title = from_utf16_lossy title,
               fr_artist = from_utf16_lossy artist, fr_album = from_utf16_lossy album,
               fr_kind = media_kind_from_playback_type (ws_playback_type s),
               fr_playing = (status = PLAYBACK_STATUS_PLAYING),
               fr_duration_seconds = ticks_to_seconds end_time,
               fr_position_seconds = ticks_to_seconds position,
               fr_updated_at = winrt_datetime_to_epoch_ms updated\<rparr>))))))))))"

text \<open>
  \<open>exe_display_name\<close> may panic (\<open>None\<close>), and then so does the mapping. The result is the snapshot,
  or none for a meaningless session.
\<close>

definition frame_to_snapshot ::
  "unicode \<Rightarrow> (rstr \<Rightarrow> rstr option) \<Rightarrow> raw_frame \<Rightarrow> epoch_ms \<Rightarrow> media_snapshot option option" where
  "frame_to_snapshot u exe_display_name frame now =
     (let source = str_trim (fr_source_app_id frame);
          title = to_null (fr_title frame)
      in if source = [] \<and> title = None then Some None
         else
           let app = app_id_from_source u source;
               playing = fr_playing frame;
               duration = (if is_finite (fr_duration_seconds frame) \<and> f_lt (Fin 0) (fr_duration_seconds frame)
                           then Some (fr_duration_seconds frame) else None);
               position = extrapolated_position (fr_position_seconds frame) playing (fr_updated_at frame) now duration
           in map_option (\<lambda>player. Some
                \<lparr>ms_app_id = app, ms_source_aumid = (if source = [] then None else Some source),
                 ms_player_display_name = player, ms_kind = fr_kind frame, ms_title = title,
                 ms_artist = to_null (fr_artist frame), ms_album = to_null (fr_album frame),
                 ms_playing = playing, ms_duration_seconds = duration, ms_position_seconds = position,
                 ms_sampled_at = now\<rparr>)
                (case app of Some i \<Rightarrow> map_option Some (exe_display_name i) | None \<Rightarrow> Some (to_null source)))"

section \<open>The provider\<close>

datatype provider_event = SessionChanged | SessionPropsChanged | StopEvent

text \<open>A registration WinRT holds: the event and its token.\<close>

datatype registration = ManagerEvent nat | MediaEvent nat | PlaybackEvent nat

text \<open>
  Where the event task is: waiting for an event, holding one it has not looked at, about to move the
  session handlers, awaiting a read, holding a frame, about to fire a changed key, or ended. Between two
  of these the other threads run; \<open>AtReceive\<close> and \<open>AtRead\<close> are its awaits, where an abort takes effect.
\<close>

datatype task_phase =
    AtReceive | Received provider_event | Moving | AtRead | Comparing "raw_frame option" | Firing semantic_key | Ended

text \<open>How far \<open>stop\<close> has come; the phase names what it does next.\<close>

datatype stop_phase =
    NotStopping | RemovingManager | DetachingSession | SendingStop | AbortingTask | ClearingListeners | StopDone

text \<open>\<open>pv_registering\<close>: the listeners whose registration has passed its check and not reached the table.\<close>

record 'l provider =
  pv_stopped :: bool
  pv_listeners :: "(nat \<times> 'l) list"
  pv_next_listener :: nat
  pv_registering :: "'l list"
  pv_subscription :: "(nat \<times> nat) option"
  pv_manager_token :: "nat option"
  pv_last_key :: semantic_key
  pv_queue :: "provider_event list"
  pv_task :: task_phase
  pv_stop :: stop_phase
  pv_held :: "registration set"
  pv_fired :: "semantic_key list"

text \<open>Construction with the manager's token, and the initial nudge.\<close>

definition provider_new :: "nat \<Rightarrow> 'l provider" where
  "provider_new token =
     \<lparr>pv_stopped = False, pv_listeners = [], pv_next_listener = 0, pv_registering = [], pv_subscription = None,
      pv_manager_token = Some token, pv_last_key = None, pv_queue = [SessionChanged], pv_task = AtReceive,
      pv_stop = NotStopping, pv_held = {ManagerEvent token}, pv_fired = []\<rparr>"

text \<open>
  \<open>{:#010X}\<close> of an \<open>HRESULT\<close>, an \<open>i32\<close> printed in two's complement.
\<close>

definition upper_hex_digit :: "nat \<Rightarrow> scalar" where
  "upper_hex_digit n = (if n < 10 then 48 + n else 55 + n)"

definition hresult_text :: "32 word \<Rightarrow> rstr" where
  "hresult_text code = lit ''0x'' @ map (\<lambda>i. upper_hex_digit (unat code div 16 ^ i mod 16)) (rev [0..<8])"

text \<open>
  The construction with its three outcomes: the request of the session manager, its completion within
  the bound (\<open>None\<close> is the timeout) and the subscription. No failure leaves a provider behind.
\<close>

datatype media_provider_error = MediaUnavailable rstr

definition provider_connect ::
  "32 word + unit \<Rightarrow> (32 word + unit) option \<Rightarrow> 32 word + nat \<Rightarrow> media_provider_error + 'l provider" where
  "provider_connect request awaited subscribed =
     (let failed = (\<lambda>what code. Inl (MediaUnavailable (what @ lit '' ('' @ hresult_text code @ lit '')'')))
      in case request of
           Inl code \<Rightarrow> failed (lit ''session manager request failed'') code
         | Inr _ \<Rightarrow>
             (case awaited of
                None \<Rightarrow> Inl (MediaUnavailable (lit ''WinRT await timeout''))
              | Some (Inl code) \<Rightarrow> failed (lit ''session manager request failed'') code
              | Some (Inr _) \<Rightarrow>
                  (case subscribed of
                     Inl code \<Rightarrow> failed (lit ''session event subscription failed'') code
                   | Inr token \<Rightarrow> Inr (provider_new token))))"

text \<open>Every preference selects the one implementation.\<close>

definition select_media_provider ::
  "media_provider_choice \<Rightarrow> media_provider_error + 'l provider \<Rightarrow> media_provider_error + 'l provider" where
  "select_media_provider preference outcome = outcome"

definition provider_kind :: rstr where
  "provider_kind = lit ''winrt''"

text \<open>
  Moving the session handlers, one step under the subscription lock, in which the flag is read again:
  \<open>regs\<close> is \<open>None\<close> when there is no current session, otherwise the outcomes of the two registrations.
\<close>

definition detach :: "(nat \<times> nat) option \<Rightarrow> 'l provider \<Rightarrow> 'l provider" where
  "detach sub p = (case sub of None \<Rightarrow> p | Some (a, b) \<Rightarrow> p\<lparr>pv_held := pv_held p - {MediaEvent a, PlaybackEvent b}\<rparr>)"

definition resubscribe ::
  "(nat option \<times> nat option) option \<Rightarrow> 'l provider \<Rightarrow> 'l provider" where
  "resubscribe regs p =
     (let p1 = (detach (pv_subscription p) p)\<lparr>pv_subscription := None\<rparr>
      in if pv_stopped p then p1
         else case regs of
                None \<Rightarrow> p1
              | Some (Some a, Some b) \<Rightarrow>
                  p1\<lparr>pv_held := pv_held p1 \<union> {MediaEvent a, PlaybackEvent b}, pv_subscription := Some (a, b)\<rparr>
              | Some (Some a, None) \<Rightarrow> p1\<lparr>pv_held := (pv_held p1 \<union> {MediaEvent a}) - {MediaEvent a}\<rparr>
              | Some (None, Some b) \<Rightarrow> p1\<lparr>pv_held := (pv_held p1 \<union> {PlaybackEvent b}) - {PlaybackEvent b}\<rparr>
              | Some (None, None) \<Rightarrow> p1)"

text \<open>The locked comparison with the last key.\<close>

definition key_changed :: "raw_frame option \<Rightarrow> 'l provider \<Rightarrow> bool \<times> 'l provider" where
  "key_changed frame p =
     (let key = semantic_key frame
      in if pv_last_key p = key then (False, p) else (True, p\<lparr>pv_last_key := key\<rparr>))"

interpretation provider_keys: change_detector pv_last_key semantic_key key_changed
  by unfold_locales (auto simp: key_changed_def Let_def)

text \<open>
  The phases of the event task. A turn begins with an event and the check of the flag; \<open>recompute\<close> awaits
  the bounded read (\<open>None\<close> is an error or a timeout), compares the key, and fires unless stopped by then.
\<close>

definition to_phase :: "task_phase \<Rightarrow> 'l provider \<Rightarrow> 'l provider" where
  "to_phase ph p = p\<lparr>pv_task := ph\<rparr>"

definition task_receive :: "'l provider \<Rightarrow> 'l provider" where
  "task_receive p =
     (case pv_queue p of
        e # es \<Rightarrow> if pv_task p = AtReceive then p\<lparr>pv_queue := es, pv_task := Received e\<rparr> else p
      | [] \<Rightarrow> p)"

definition task_check :: "'l provider \<Rightarrow> 'l provider" where
  "task_check p =
     (case pv_task p of
        Received e \<Rightarrow>
          if pv_stopped p then to_phase Ended p
          else (case e of
                  StopEvent \<Rightarrow> to_phase Ended p
                | SessionChanged \<Rightarrow> to_phase Moving p
                | SessionPropsChanged \<Rightarrow> to_phase AtRead p)
      | _ \<Rightarrow> p)"

definition task_move :: "(nat option \<times> nat option) option \<Rightarrow> 'l provider \<Rightarrow> 'l provider" where
  "task_move regs p = (if pv_task p = Moving then to_phase AtRead (resubscribe regs p) else p)"

definition task_read :: "raw_frame option option \<Rightarrow> 'l provider \<Rightarrow> 'l provider" where
  "task_read read p =
     (if pv_task p = AtRead
      then to_phase (case read of None \<Rightarrow> AtReceive | Some frame \<Rightarrow> Comparing frame) p
      else p)"

definition task_compare :: "'l provider \<Rightarrow> 'l provider" where
  "task_compare p =
     (case pv_task p of
        Comparing frame \<Rightarrow>
          (case key_changed frame p of
             (changed, p1) \<Rightarrow> to_phase (if changed then Firing (semantic_key frame) else AtReceive) p1)
      | _ \<Rightarrow> p)"

definition task_fire :: "'l provider \<Rightarrow> 'l provider" where
  "task_fire p =
     (case pv_task p of
        Firing key \<Rightarrow>
          to_phase AtReceive (if pv_stopped p then p else p\<lparr>pv_fired := pv_fired p @ [key]\<rparr>)
      | _ \<Rightarrow> p)"

text \<open>One whole evaluation, when nothing comes in between.\<close>

definition recompute_semantic_key :: "raw_frame option option \<Rightarrow> 'l provider \<Rightarrow> 'l provider" where
  "recompute_semantic_key read p = task_fire (task_compare (task_read read (to_phase AtRead p)))"

text \<open>A WinRT thread sends while its handler is registered.\<close>

definition notify_provider :: "provider_event \<Rightarrow> 'l provider \<Rightarrow> 'l provider" where
  "notify_provider e p = p\<lparr>pv_queue := pv_queue p @ [e]\<rparr>"

definition get_snapshot ::
  "unicode \<Rightarrow> (rstr \<Rightarrow> rstr option) \<Rightarrow> raw_frame option option \<Rightarrow> epoch_ms \<Rightarrow> 'l provider \<Rightarrow>
   media_snapshot option option" where
  "get_snapshot u exe_display_name read now p =
     (if pv_stopped p then Some None
      else case read of
             Some (Some frame) \<Rightarrow> frame_to_snapshot u exe_display_name frame now
           | _ \<Rightarrow> Some None)"

text \<open>\<open>on_semantic_change\<close>: the check of the flag, and the later insertion under a fresh id.\<close>

definition register_check :: "'l \<Rightarrow> 'l provider \<Rightarrow> 'l provider" where
  "register_check l p = (if pv_stopped p then p else p\<lparr>pv_registering := pv_registering p @ [l]\<rparr>)"

definition register_insert :: "'l provider \<Rightarrow> 'l provider" where
  "register_insert p =
     (case pv_registering p of
        [] \<Rightarrow> p
      | l # ls \<Rightarrow>
          p\<lparr>pv_registering := ls, pv_next_listener := pv_next_listener p + 1,
            pv_listeners := pv_listeners p @ [(pv_next_listener p, l)]\<rparr>)"

definition forget_listener :: "nat \<Rightarrow> 'l provider \<Rightarrow> 'l provider" where
  "forget_listener i p = p\<lparr>pv_listeners := filter (\<lambda>(j, _). j \<noteq> i) (pv_listeners p)\<rparr>"

definition healthy :: "'l provider \<Rightarrow> bool" where
  "healthy p \<longleftrightarrow> \<not> pv_stopped p"

text \<open>
  \<open>stop\<close> as its sequence of steps; a second call returns at once. The abort waits until the task is at an
  await or has ended.
\<close>

definition stop_begin :: "'l provider \<Rightarrow> 'l provider" where
  "stop_begin p = (if pv_stopped p then p else p\<lparr>pv_stopped := True, pv_stop := RemovingManager\<rparr>)"

definition stop_continue :: "'l provider \<Rightarrow> 'l provider" where
  "stop_continue p =
     (case pv_stop p of
        RemovingManager \<Rightarrow>
          (case pv_manager_token p of
             Some t \<Rightarrow> p\<lparr>pv_manager_token := None, pv_held := pv_held p - {ManagerEvent t}\<rparr>
           | None \<Rightarrow> p)\<lparr>pv_stop := DetachingSession\<rparr>
      | DetachingSession \<Rightarrow>
          (detach (pv_subscription p) p)\<lparr>pv_subscription := None, pv_stop := SendingStop\<rparr>
      | SendingStop \<Rightarrow> p\<lparr>pv_queue := pv_queue p @ [StopEvent], pv_stop := AbortingTask\<rparr>
      | AbortingTask \<Rightarrow>
          if pv_task p = AtReceive \<or> pv_task p = AtRead \<or> pv_task p = Ended
          then p\<lparr>pv_task := Ended, pv_stop := ClearingListeners\<rparr> else p
      | ClearingListeners \<Rightarrow> p\<lparr>pv_listeners := [], pv_stop := StopDone\<rparr>
      | _ \<Rightarrow> p)"

inductive provider_step :: "'l provider \<Rightarrow> 'l provider \<Rightarrow> bool" where
  Receive: "provider_step p (task_receive p)"
| Check: "provider_step p (task_check p)"
| Move: "provider_step p (task_move regs p)"
| Read: "provider_step p (task_read read p)"
| Compare: "provider_step p (task_compare p)"
| Fire: "provider_step p (task_fire p)"
| Notify: "provider_step p (notify_provider e p)"
| RegisterCheck: "provider_step p (register_check l p)"
| RegisterInsert: "provider_step p (register_insert p)"
| Forget: "provider_step p (forget_listener i p)"
| StopBegin: "provider_step p (stop_begin p)"
| StopContinue: "provider_step p (stop_continue p)"

inductive provider_reachable :: "'l provider \<Rightarrow> bool" where
  New: "provider_reachable (provider_new token)"
| Step: "provider_reachable p \<Longrightarrow> provider_step p p' \<Longrightarrow> provider_reachable p'"

section \<open>Registrations\<close>

text \<open>
  Before the stop reaches the session handlers the flag is already set, so a task that moves them later
  only removes; after the abort the task has ended.
\<close>

definition session_gone :: "stop_phase set" where
  "session_gone = {SendingStop, AbortingTask, ClearingListeners, StopDone}"

definition registrations_ok :: "'l provider \<Rightarrow> bool" where
  "registrations_ok p \<longleftrightarrow>
     pv_held p = ManagerEvent ` set_option (pv_manager_token p) \<union>
       (case pv_subscription p of None \<Rightarrow> {} | Some (a, b) \<Rightarrow> {MediaEvent a, PlaybackEvent b}) \<and>
     (pv_stopped p \<longleftrightarrow> pv_stop p \<noteq> NotStopping) \<and>
     (pv_stop p \<in> insert DetachingSession session_gone \<longrightarrow> pv_manager_token p = None) \<and>
     (pv_stop p \<in> session_gone \<longrightarrow> pv_subscription p = None) \<and>
     (pv_stop p = ClearingListeners \<or> pv_stop p = StopDone \<longrightarrow> pv_task p = Ended)"

lemmas task_step_defs =
  task_receive_def task_check_def task_read_def task_compare_def task_fire_def to_phase_def key_changed_def

lemma resubscribe_ok: "registrations_ok p \<Longrightarrow> pv_task p = Moving \<Longrightarrow> registrations_ok (to_phase AtRead (resubscribe regs p))"
  by (auto simp: registrations_ok_def resubscribe_def detach_def to_phase_def session_gone_def Let_def
      split: option.splits prod.splits)

lemma task_fields:
  assumes "q \<in> {task_receive p, task_check p, task_read read p, task_compare p, task_fire p}"
  shows "pv_held q = pv_held p" "pv_manager_token q = pv_manager_token p" "pv_subscription q = pv_subscription p"
    "pv_stopped q = pv_stopped p" "pv_stop q = pv_stop p" "pv_listeners q = pv_listeners p"
    "pv_registering q = pv_registering p" "pv_task p = Ended \<Longrightarrow> pv_task q = Ended \<and> pv_fired q = pv_fired p"
  using assms
  by (auto simp: task_step_defs Let_def split: task_phase.splits list.splits provider_event.splits option.splits if_splits)

lemma task_ok:
  assumes "registrations_ok p" and "q \<in> {task_receive p, task_check p, task_read read p, task_compare p, task_fire p}"
  shows "registrations_ok q"
  using assms(1) task_fields [OF assms(2)] unfolding registrations_ok_def by auto

lemma stop_continue_ok: "registrations_ok p \<Longrightarrow> registrations_ok (stop_continue p)"
  by (auto simp: registrations_ok_def stop_continue_def detach_def session_gone_def
      split: stop_phase.splits option.splits)

lemma provider_step_ok: "provider_step p p' \<Longrightarrow> registrations_ok p \<Longrightarrow> registrations_ok p'"
proof (induction rule: provider_step.induct)
  case (Move p regs)
  then show ?case by (simp add: task_move_def resubscribe_ok)
next
  case (StopContinue p)
  then show ?case by (rule stop_continue_ok)
qed (auto intro: task_ok, auto simp: registrations_ok_def notify_provider_def register_check_def register_insert_def
    forget_listener_def stop_begin_def session_gone_def split: list.splits)

lemma provider_reachable_ok: "provider_reachable p \<Longrightarrow> registrations_ok p"
proof (induction rule: provider_reachable.induct)
  case (New token)
  show ?case by (simp add: registrations_ok_def provider_new_def session_gone_def)
qed (rule provider_step_ok)

lemma provider_run_reachable: "provider_step\<^sup>*\<^sup>* p p' \<Longrightarrow> provider_reachable p \<Longrightarrow> provider_reachable p'"
  by (induction rule: rtranclp_induct) (auto intro: provider_reachable.Step)

text \<open>
  After the flag is set no registration begins, so the table holds at most the ones that were under way
  once it has been cleared; and an ended task fires nothing.
\<close>

definition stop_measure :: "'l provider \<Rightarrow> nat" where
  "stop_measure p = length (pv_registering p) + (if pv_stop p = StopDone then length (pv_listeners p) else 0)"

lemma stopped_step:
  assumes "provider_step p p'" and "pv_stopped p" and "registrations_ok p"
  shows "pv_stopped p' \<and> stop_measure p' \<le> stop_measure p \<and>
    (pv_stop p = StopDone \<longrightarrow> pv_stop p' = StopDone \<and> pv_fired p' = pv_fired p)"
  using assms
proof cases
  case (Move regs)
  then show ?thesis using assms
    by (auto simp: task_move_def resubscribe_def detach_def to_phase_def stop_measure_def registrations_ok_def Let_def
        split: option.splits prod.splits)
next
  case RegisterInsert
  then show ?thesis using assms by (auto simp: register_insert_def stop_measure_def split: list.split)
next
  case (Forget i)
  then show ?thesis using assms by (auto simp: forget_listener_def stop_measure_def intro: order_trans [OF length_filter_le])
next
  case StopContinue
  then show ?thesis using assms
    by (auto simp: stop_continue_def detach_def stop_measure_def split: stop_phase.splits option.splits)
qed (use assms in \<open>auto simp: task_step_defs stop_measure_def registrations_ok_def notify_provider_def register_check_def
    stop_begin_def Let_def split: task_phase.splits list.splits provider_event.splits option.splits if_splits\<close>)

lemma stopped_run:
  assumes "provider_step\<^sup>*\<^sup>* p p'" and "pv_stopped p" and "provider_reachable p"
  shows "pv_stopped p' \<and> stop_measure p' \<le> stop_measure p \<and>
    (pv_stop p = StopDone \<longrightarrow> pv_stop p' = StopDone \<and> pv_fired p' = pv_fired p)"
  using assms
proof induction
  case (step q r)
  then have "provider_reachable q" using provider_run_reachable by blast
  with step stopped_step [OF step.hyps(2)] provider_reachable_ok show ?case by fastforce
qed simp

lemma observed_keys_only:
  "pv_last_key p = pv_last_key q \<Longrightarrow> fst (observe_all key_changed xs p) = fst (observe_all key_changed xs q)"
proof (induction xs arbitrary: p q)
  case (Cons x xs)
  have "fst (key_changed x p) = fst (key_changed x q)"
    "pv_last_key (snd (key_changed x p)) = pv_last_key (snd (key_changed x q))"
    using Cons.prems by (auto simp: key_changed_def Let_def)
  with Cons.IH [of "snd (key_changed x p)" "snd (key_changed x q)"] show ?case
    by (simp add: case_prod_beta)
qed simp

lemma key_changed_fields [simp]:
  "pv_fired (snd (key_changed frame p)) = pv_fired p" "pv_stopped (snd (key_changed frame p)) = pv_stopped p"
  by (simp_all add: key_changed_def Let_def)

section \<open>Properties\<close>

text \<open>
  C31: no event handler leaks. Whatever registrations fail and however the steps of the event task,
  notifications, registrations of listeners and the steps of a stop interleave (a stop may come between
  the check of the flag and the moving of the session handlers), WinRT holds exactly the handlers the
  provider knows of: at most the manager's and one pair of the current session. When a stop has finished,
  WinRT holds none, and never does again; the event task has ended and fires nothing any more; and no
  listener is left but one whose own registration had passed its check before the stop.
\<close>

theorem no_handler_leaks:
  assumes "provider_reachable p"
  shows "pv_held p = ManagerEvent ` set_option (pv_manager_token p) \<union>
      (case pv_subscription p of None \<Rightarrow> {} | Some (a, b) \<Rightarrow> {MediaEvent a, PlaybackEvent b}) \<and>
    (\<forall>p1 p2. \<not> pv_stopped p \<and> provider_step\<^sup>*\<^sup>* (stop_begin p) p1 \<and> pv_stop p1 = StopDone \<and>
       provider_step\<^sup>*\<^sup>* p1 p2 \<longrightarrow>
       pv_held p2 = {} \<and> pv_task p2 = Ended \<and> pv_fired p2 = pv_fired p1 \<and> \<not> healthy p2 \<and>
       length (pv_listeners p2) \<le> length (pv_registering p))"
proof (intro conjI allI impI; (elim conjE)?)
  show "pv_held p = ManagerEvent ` set_option (pv_manager_token p) \<union>
      (case pv_subscription p of None \<Rightarrow> {} | Some (a, b) \<Rightarrow> {MediaEvent a, PlaybackEvent b})"
    using provider_reachable_ok [OF assms] by (simp add: registrations_ok_def)
next
  fix p1 p2
  assume run: "\<not> pv_stopped p" "provider_step\<^sup>*\<^sup>* (stop_begin p) p1" "pv_stop p1 = StopDone" "provider_step\<^sup>*\<^sup>* p1 p2"
  have r0: "provider_reachable (stop_begin p)" by (rule provider_reachable.Step [OF assms StopBegin])
  have r1: "provider_reachable p1" by (rule provider_run_reachable [OF run(2) r0])
  have ok: "registrations_ok p2" by (rule provider_reachable_ok [OF provider_run_reachable [OF run(4) r1]])
  have flag: "pv_stopped (stop_begin p)" by (simp add: stop_begin_def)
  note s1 = stopped_run [OF run(2) flag r0]
  then have s2: "pv_stopped p2 \<and> stop_measure p2 \<le> stop_measure p1 \<and> pv_stop p2 = StopDone \<and> pv_fired p2 = pv_fired p1"
    using stopped_run [OF run(4) _ r1] run(3) by blast
  have "stop_measure (stop_begin p) = length (pv_registering p)" using run(1) by (simp add: stop_begin_def stop_measure_def)
  then have "stop_measure p2 \<le> length (pv_registering p)" using s1 s2 by linarith
  then have "length (pv_listeners p2) \<le> length (pv_registering p)" using s2 by (simp add: stop_measure_def)
  moreover have "pv_held p2 = {}" "pv_task p2 = Ended"
    using ok s2 by (simp_all add: registrations_ok_def session_gone_def)
  ultimately show "pv_held p2 = {}" "pv_task p2 = Ended" "pv_fired p2 = pv_fired p1" "\<not> healthy p2"
    "length (pv_listeners p2) \<le> length (pv_registering p)"
    using s2 by (simp_all add: healthy_def)
qed

text \<open>The task has checked the flag and holds its first event when the stop begins.\<close>

lemma no_handler_leaks_witness:
  "\<exists>p p1 p2 :: unit provider. provider_reachable p \<and> pv_task p = Moving \<and> pv_held p = {ManagerEvent 7} \<and>
     provider_step\<^sup>*\<^sup>* (stop_begin p) p1 \<and> pv_task p1 = Moving \<and> pv_held p1 = {} \<and>
     provider_step\<^sup>*\<^sup>* p1 p2 \<and> pv_stop p2 = StopDone \<and> pv_held p2 = {} \<and> pv_listeners p2 = []"
proof -
  let ?p = "task_check (task_receive (provider_new 7 :: unit provider))"
  let ?p1 = "stop_continue (stop_continue (stop_continue (stop_begin ?p)))"
  let ?p2 = "stop_continue (stop_continue (task_move (Some (Some 1, Some 2)) ?p1))"
  have r: "provider_reachable ?p"
    by (rule provider_reachable.Step [OF provider_reachable.Step [OF provider_reachable.New provider_step.Receive] provider_step.Check])
  have m: "pv_task ?p = Moving" "\<not> pv_stopped ?p" "pv_held ?p = {ManagerEvent 7}" "pv_registering ?p = []"
    by (simp_all add: task_check_def task_receive_def provider_new_def to_phase_def)
  have c: "provider_step\<^sup>*\<^sup>* a (stop_continue b)" if "provider_step\<^sup>*\<^sup>* a b" for a b :: "unit provider"
    using that StopContinue by (rule rtranclp.rtrancl_into_rtrancl)
  have run: "provider_step\<^sup>*\<^sup>* (stop_begin ?p) ?p1" by (rule c [OF c [OF c [OF rtranclp.rtrancl_refl]]])
  have "provider_step\<^sup>*\<^sup>* ?p1 (task_move (Some (Some 1, Some 2)) ?p1)" by (rule r_into_rtranclp) (rule Move)
  then have run2: "provider_step\<^sup>*\<^sup>* ?p1 ?p2" by (rule c [OF c])
  have m1: "pv_task ?p1 = Moving" "pv_held ?p1 = {}" "pv_stop ?p2 = StopDone"
    by (simp_all add: stop_begin_def stop_continue_def task_check_def task_receive_def provider_new_def to_phase_def
        detach_def task_move_def resubscribe_def)
  have "provider_step\<^sup>*\<^sup>* (stop_begin ?p) ?p2" by (rule rtranclp_trans [OF run run2])
  with no_handler_leaks [OF r] m m1 have "pv_held ?p2 = {} \<and> length (pv_listeners ?p2) \<le> 0" by fastforce
  then show ?thesis using r m m1 run run2 by blast
qed

text \<open>
  Semantic changes fire once each, position ticks never. Over any sequence of reads of a
  running provider, with failed reads anywhere, the fired keys are the successive distinct keys of
  the successful reads after the last one known.
\<close>

theorem semantic_changes_fire:
  assumes "\<not> pv_stopped p"
  shows "pv_fired (fold recompute_semantic_key reads p) =
    pv_fired p @ tl (remdups_adj (pv_last_key p # map semantic_key (List.map_filter id reads)))"
proof -
  have "pv_fired (fold recompute_semantic_key reads p) =
      pv_fired p @ map semantic_key (fst (observe_all key_changed (List.map_filter id reads) p))"
    using assms
  proof (induction reads arbitrary: p)
    case (Cons r reads)
    let ?p1 = "recompute_semantic_key r p"
    have running: "\<not> pv_stopped ?p1" and fired: "pv_fired ?p1 = pv_fired p @ (case r of
        Some frame \<Rightarrow> if fst (key_changed frame p) then [semantic_key frame] else [] | None \<Rightarrow> [])"
      and key: "pv_last_key ?p1 = (case r of None \<Rightarrow> pv_last_key p | Some frame \<Rightarrow> pv_last_key (snd (key_changed frame p)))"
      using Cons.prems
      by (auto simp: recompute_semantic_key_def task_step_defs Let_def split: option.splits)
    have again: "fst (observe_all key_changed xs ?p1) =
        fst (observe_all key_changed xs (case r of None \<Rightarrow> p | Some frame \<Rightarrow> snd (key_changed frame p)))" for xs
      using key by (intro observed_keys_only) (simp split: option.split)
    have "pv_fired (fold recompute_semantic_key (r # reads) p) = pv_fired ?p1 @
        map semantic_key (fst (observe_all key_changed (List.map_filter id reads) ?p1))"
      using Cons.IH [OF running] by (simp add: id_def)
    then show ?case
      unfolding again fired by (cases r) (simp_all add: map_filter_simps case_prod_beta id_def)
  qed (simp add: map_filter_simps)
  then show ?thesis using provider_keys.fired_keys by metis
qed

definition sample_frame :: "bool \<Rightarrow> raw_frame" where
  "sample_frame playing =
     \<lparr>fr_source_app_id = lit ''a.exe'', fr_title = lit ''Song'', fr_artist = [], fr_album = [], fr_kind = Music,
      fr_playing = playing, fr_duration_seconds = Fin 259, fr_position_seconds = Fin 100, fr_updated_at = 0\<rparr>"

lemma semantic_changes_fire_witness:
  "map Option.is_none (pv_fired (fold recompute_semantic_key
      [Some (Some (sample_frame True)), None, Some (Some (sample_frame True)), Some None]
      (provider_new 7 :: unit provider))) = [False, True]"
proof -
  have run: "\<not> pv_stopped (provider_new 7 :: unit provider)" by (simp add: provider_new_def)
  show ?thesis
    unfolding semantic_changes_fire [OF run]
    by (simp add: provider_new_def map_filter_simps semantic_key_def)
qed

section \<open>Snapshots\<close>

lemma to_null_Some: "to_null v = Some t \<Longrightarrow> t \<noteq> [] \<and> str_trim t = t"
  by (auto simp: to_null_def Let_def str_trim_def split: if_splits)

text \<open>
  Where a session has got to by \<open>now\<close>: its position then, and while it plays the seconds since, when they
  are more than none and less than six hours.
\<close>

definition reached_position :: "raw_frame \<Rightarrow> epoch_ms \<Rightarrow> f64" where
  "reached_position frame now =
     (let seconds = f_div_by (f_of_int (now - fr_updated_at frame)) 1000
      in if fr_playing frame \<and> f_lt (Fin 0) seconds \<and> f_lt seconds (Fin 21600)
         then f_add (fr_position_seconds frame) seconds else fr_position_seconds frame)"

definition i64_apart :: "epoch_ms \<Rightarrow> epoch_ms \<Rightarrow> bool" where
  "i64_apart a b \<longleftrightarrow> - (2 ^ 63) \<le> a - b \<and> a - b < 2 ^ 63"

lemma extrapolated_position_None:
  "extrapolated_position raw playing up now dur = None \<longleftrightarrow> \<not> is_finite raw \<or> f_lt raw (Fin 0)"
  by (simp add: extrapolated_position_def Let_def)

lemma extrapolated_position_Some:
  assumes "extrapolated_position (fr_position_seconds frame) (fr_playing frame) (fr_updated_at frame) now dur = Some x"
  shows "(\<not> fr_playing frame \<longrightarrow> x = fr_position_seconds frame) \<and>
    (\<forall>d. fr_playing frame \<and> dur = Some d \<longrightarrow> \<not> f_lt d x) \<and>
    (i64_apart now (fr_updated_at frame) \<longrightarrow>
       x = reached_position frame now \<or> (\<exists>d. dur = Some d \<and> fr_playing frame \<and> x = d \<and> f_lt d (reached_position frame now)))"
  using assms i64_sub_in_range [of now "fr_updated_at frame"]
  by (auto simp: extrapolated_position_def reached_position_def i64_apart_def EXTRAPOLATION_MAX_ELAPSED_SECONDS_def Let_def
      f_lt_irrefl split: if_splits option.splits)

lemma ends_exe_no_separator: "ends_exe x \<Longrightarrow> c \<in> set x \<Longrightarrow> \<not> is_path_separator c"
proof
  assume e: "ends_exe x" and c: "c \<in> set x" and "is_path_separator c"
  then have "utf8 c = [92] \<or> utf8 c = [47]" by (auto simp: is_path_separator_def utf8_def)
  moreover have "set (utf8 c) \<subseteq> set (str_bytes x)" using c by (auto simp: str_bytes_def)
  ultimately have "92 \<in> set (str_bytes x) \<or> 47 \<in> set (str_bytes x)" by auto
  moreover have "lower_byte 92 = 92" "lower_byte 47 = 47" by (simp_all add: lower_byte_def ascii_upper_def)
  ultimately have "92 \<in> set (map lower_byte (str_bytes x)) \<or> 47 \<in> set (map lower_byte (str_bytes x))"
    by (metis image_eqI set_map)
  moreover have "set (map lower_byte (str_bytes x)) = set (map lower_byte (str_bytes (lit ''.exe'')))"
    using e unfolding ends_exe_def eq_ignore_ascii_case_def by (rule arg_cong)
  moreover have "set (map lower_byte (str_bytes (lit ''.exe''))) = {46, 101, 120}"
    by (auto simp: lit_def utf8_def lower_byte_def ascii_upper_def)
  ultimately have "92 \<in> {46, 101, 120 :: u8} \<or> 47 \<in> {46, 101, 120 :: u8}" by metis
  then show False by simp
qed

lemma win_basename_suffix:
  assumes "\<And>c. c \<in> set x \<Longrightarrow> \<not> is_path_separator c"
  shows "win_basename (q @ x) = win_basename q @ x"
proof -
  have "takeWhile (\<lambda>c. \<not> is_path_separator c) (rev x @ rev q) =
      rev x @ takeWhile (\<lambda>c. \<not> is_path_separator c) (rev q)"
    by (rule takeWhile_append2) (use assms in auto)
  then show ?thesis by (simp add: win_basename_def)
qed

lemma app_id_from_source_Some:
  "app_id_from_source u source = Some i \<Longrightarrow> \<exists>q x. source = q @ x \<and> ends_exe x \<and> i = lowercase u source"
  by (auto simp: app_id_from_source_def Let_def split_at_byte_Some split: if_splits option.splits prod.splits)

text \<open>What lowercasing does to a name that ends in \<open>.exe\<close>: ASCII letters map to themselves.\<close>

definition keeps_exe :: "unicode \<Rightarrow> bool" where
  "keeps_exe u \<longleftrightarrow> (\<forall>q x. ends_exe x \<longrightarrow> (\<exists>q' x'. lowercase u (q @ x) = q' @ x' \<and> ends_exe x'))"

definition trimmed :: "rstr option \<Rightarrow> bool" where
  "trimmed t \<longleftrightarrow> (case t of None \<Rightarrow> True | Some v \<Rightarrow> v \<noteq> [] \<and> str_trim v = v)"

lemma trimmed_to_null [simp]: "trimmed (to_null v)"
  by (auto simp: trimmed_def split: option.split dest: to_null_Some)

definition snapshot_ok :: "raw_frame \<Rightarrow> media_snapshot \<Rightarrow> bool" where
  "snapshot_ok frame s \<longleftrightarrow>
     trimmed (ms_title s) \<and> trimmed (ms_artist s) \<and> trimmed (ms_album s) \<and> trimmed (ms_source_aumid s) \<and>
     (ms_title s \<noteq> None \<or> ms_source_aumid s \<noteq> None) \<and>
     (\<forall>d. ms_duration_seconds s = Some d \<longrightarrow> is_finite d \<and> f_lt (Fin 0) d) \<and>
     ms_playing s = fr_playing frame \<and>
     (ms_position_seconds s = None \<longleftrightarrow> \<not> is_finite (fr_position_seconds frame) \<or> f_lt (fr_position_seconds frame) (Fin 0)) \<and>
     (\<forall>x. ms_position_seconds s = Some x \<longrightarrow>
        (\<not> fr_playing frame \<longrightarrow> x = fr_position_seconds frame) \<and>
        (\<forall>d. fr_playing frame \<and> ms_duration_seconds s = Some d \<longrightarrow> \<not> f_lt d x) \<and>
        (i64_apart (ms_sampled_at s) (fr_updated_at frame) \<longrightarrow>
           x = reached_position frame (ms_sampled_at s) \<or>
           (\<exists>d. ms_duration_seconds s = Some d \<and> fr_playing frame \<and> x = d \<and> f_lt d (reached_position frame (ms_sampled_at s)))))"


lemma ascii_keeps_exe: "keeps_exe ascii_unicode"
  unfolding keeps_exe_def
proof (intro allI impI)
  fix q x assume e: "ends_exe x"
  let ?l = "map ascii_lower_char"
  have low: "map lower_byte (utf8 (ascii_lower_char c)) = map lower_byte (utf8 c)" for c
  proof (cases "65 \<le> c \<and> c \<le> 90")
    case True
    then have "unat (word_of_nat c + 32 :: u8) = c + 32"
      by (simp add: unat_word_ariths unat_of_nat take_bit_nat_def)
    then show ?thesis using True
      by (auto simp: ascii_lower_char_def utf8_def lower_byte_def ascii_upper_def word_le_nat_alt unat_of_nat)
  qed (auto simp: ascii_lower_char_def)
  have "map lower_byte (str_bytes (?l x)) = map lower_byte (str_bytes x)"
    by (induction x) (simp_all add: low)
  then have "ends_exe (?l x)" using e by (simp add: ends_exe_def eq_ignore_ascii_case_def)
  then show "\<exists>q' x'. lowercase ascii_unicode (q @ x) = q' @ x' \<and> ends_exe x'"
    by (auto simp: ascii_unicode_def)
qed


end
