(* ===== verification/Window_Thread.thy ===== *)
theory Window_Thread
  imports Runtime
begin

text \<open>
  The hidden window of the system events (\<open>core/src/capture/system_events.rs\<close>, \<open>window_thread\<close> and
  \<open>wndproc\<close>) with the reference it keeps to the shared state. Subclassing stores an
  \<open>Arc::into_raw\<close> pointer in the window; every message reads the shared state through it, and
  \<open>WM_NCDESTROY\<close> releases it. Reading through the pointer when no reference is left, and releasing
  it twice, are undefined behaviour: \<open>None\<close>.
\<close>

section \<open>State\<close>

datatype win_message = WmSession nat | WmPower nat | WmClose | WmDestroy | WmNcDestroy | WmOther nat

text \<open>
  The window: whether it exists, whether its user data points to the shared state, whether its
  procedure is the subclass, whether session notifications are registered and whether \<open>WM_QUIT\<close> was
  posted. \<open>ht_raw\<close> counts the references held through \<open>into_raw\<close>, \<open>ht_owned\<close> the others.
\<close>

record 'l window_thread =
  ht_alive :: bool
  ht_userdata :: bool
  ht_subclassed :: bool
  ht_registered :: bool
  ht_quit :: bool
  ht_raw :: nat
  ht_owned :: nat
  ht_shared :: "'l sys_shared"

definition thread_new :: "nat \<Rightarrow> 'l sys_shared \<Rightarrow> 'l window_thread" where
  "thread_new owned s =
     \<lparr>ht_alive = False, ht_userdata = False, ht_subclassed = False, ht_registered = False, ht_quit = False,
      ht_raw = 0, ht_owned = owned, ht_shared = s\<rparr>"

section \<open>The window procedure\<close>

text \<open>Everything but \<open>WM_CLOSE\<close>, which calls back into the procedure.\<close>

definition leaf_proc :: "win_message \<Rightarrow> 'l window_thread \<Rightarrow> 'l window_thread option" where
  "leaf_proc msg t =
     (if \<not> ht_userdata t then Some t
      else if ht_raw t + ht_owned t = 0 then None
      else case msg of
             WmSession w \<Rightarrow>
               Some (case wts_wparam_transition w of
                       Some b \<Rightarrow> t\<lparr>ht_shared := transition b (ht_shared t)\<rparr> | None \<Rightarrow> t)
           | WmPower w \<Rightarrow>
               Some (case power_wparam_transition w of
                       Some b \<Rightarrow> t\<lparr>ht_shared := transition b (ht_shared t)\<rparr> | None \<Rightarrow> t)
           | WmDestroy \<Rightarrow> Some (t\<lparr>ht_quit := True\<rparr>)
           | WmNcDestroy \<Rightarrow>
               if ht_raw t = 0 then None
               else Some (t\<lparr>ht_userdata := False, ht_subclassed := False, ht_raw := ht_raw t - 1\<rparr>)
           | _ \<Rightarrow> Some t)"

text \<open>\<open>DestroyWindow\<close> sends its two messages to the procedure before it returns.\<close>

definition destroy_window :: "'l window_thread \<Rightarrow> 'l window_thread option" where
  "destroy_window t =
     (if \<not> ht_alive t then Some t
      else Option.bind (leaf_proc WmDestroy t) (\<lambda>t1.
           Option.bind (leaf_proc WmNcDestroy t1) (\<lambda>t2. Some (t2\<lparr>ht_alive := False\<rparr>))))"

definition window_proc :: "win_message \<Rightarrow> 'l window_thread \<Rightarrow> 'l window_thread option" where
  "window_proc msg t =
     (if msg = WmClose \<and> ht_userdata t then
        (if ht_raw t + ht_owned t = 0 then None else destroy_window (t\<lparr>ht_registered := False\<rparr>))
      else if msg = WmClose then destroy_window t
      else leaf_proc msg t)"

section \<open>The thread\<close>

text \<open>The loop ends at \<open>WM_QUIT\<close>; messages to a window that is gone are not dispatched.\<close>

fun pump :: "win_message list \<Rightarrow> 'l window_thread \<Rightarrow> 'l window_thread option" where
  "pump [] t = Some t"
| "pump (m # ms) t =
     (if ht_quit t then Some t
      else Option.bind (if ht_alive t then window_proc m t else Some t) (pump ms))"

text \<open>
  \<open>created\<close> is the outcome of \<open>CreateWindowExW\<close> (an error code, or whether the handle is valid),
  \<open>registered\<close> that of the registration. The first component is what the thread reports as ready.
\<close>

definition subclassed :: "'l window_thread \<Rightarrow> 'l window_thread" where
  "subclassed t = t\<lparr>ht_alive := True, ht_raw := ht_raw t + 1, ht_userdata := True, ht_subclassed := True\<rparr>"

definition window_start ::
  "rstr + bool \<Rightarrow> rstr + unit \<Rightarrow> 'l window_thread \<Rightarrow> ((rstr + unit) \<times> 'l window_thread) option" where
  "window_start created registered t =
     (case created of
        Inl code \<Rightarrow> Some (Inl (lit ''CreateWindowExW failed ('' @ code @ lit '')''), t)
      | Inr False \<Rightarrow> Some (Inl (lit ''CreateWindowExW returned a null handle''), t)
      | Inr True \<Rightarrow>
          (case registered of
             Inl code \<Rightarrow>
               map_option (Pair (Inl (lit ''WTSRegisterSessionNotification failed ('' @ code @ lit '')'')))
                 (destroy_window (subclassed t))
           | Inr _ \<Rightarrow> Some (Inr (), (subclassed t)\<lparr>ht_registered := True\<rparr>)))"

text \<open>A whole life of the thread; its own reference is dropped when it returns.\<close>

definition window_run ::
  "rstr + bool \<Rightarrow> rstr + unit \<Rightarrow> win_message list \<Rightarrow> 'l window_thread \<Rightarrow> ((rstr + unit) \<times> 'l window_thread) option"
where
  "window_run created registered msgs t =
     Option.bind (window_start created registered t) (\<lambda>(ready, t1).
       case ready of
         Inl e \<Rightarrow> Some (Inl e, t1\<lparr>ht_owned := ht_owned t1 - 1\<rparr>)
       | Inr _ \<Rightarrow> map_option (\<lambda>t2. (Inr (), if ht_quit t2 then t2\<lparr>ht_owned := ht_owned t2 - 1\<rparr> else t2)) (pump msgs t1))"

section \<open>Properties\<close>

fun genuine :: "win_message \<Rightarrow> bool" where
  "genuine WmDestroy \<longleftrightarrow> False"
| "genuine WmNcDestroy \<longleftrightarrow> False"
| "genuine _ \<longleftrightarrow> True"

fun session_message :: "win_message \<Rightarrow> window_message option" where
  "session_message (WmSession w) = Some (WtsSessionChange w)"
| "session_message (WmPower w) = Some (PowerBroadcast w)"
| "session_message _ = None"

text \<open>A window in service, and one that is gone.\<close>

definition in_service :: "'l window_thread \<Rightarrow> bool" where
  "in_service t \<longleftrightarrow> ht_alive t \<and> ht_userdata t \<and> ht_subclassed t \<and> ht_registered t \<and> \<not> ht_quit t \<and> ht_raw t = 1"

definition retired :: "'l window_thread \<Rightarrow> bool" where
  "retired t \<longleftrightarrow> \<not> ht_alive t \<and> \<not> ht_userdata t \<and> \<not> ht_subclassed t \<and> \<not> ht_registered t \<and> ht_raw t = 0"

lemma destroy_in_service:
  "ht_alive t \<Longrightarrow> ht_userdata t \<Longrightarrow> ht_raw t = 1 \<Longrightarrow> destroy_window t =
    Some (t\<lparr>ht_alive := False, ht_userdata := False, ht_subclassed := False, ht_quit := True, ht_raw := 0\<rparr>)"
  by (cases t) (simp add: destroy_window_def leaf_proc_def)

lemma proc_in_service:
  assumes "in_service t" and "genuine m" and "m \<noteq> WmClose"
  shows "window_proc m t = Some (t\<lparr>ht_shared :=
    (case session_message m of None \<Rightarrow> ht_shared t | Some x \<Rightarrow> snd (wndproc x (ht_shared t)))\<rparr>)"
  using assms
  by (cases m) (auto simp: window_proc_def leaf_proc_def in_service_def wndproc_def split: option.split)

lemma pump_in_service:
  assumes "in_service t" and "list_all genuine ms"
  shows "\<exists>t'. pump ms t = Some t' \<and>
    (if WmClose \<in> set ms then retired t' \<and> ht_quit t' else in_service t') \<and> ht_owned t' = ht_owned t \<and>
    ht_shared t' = deliver_messages (List.map_filter session_message (takeWhile (\<lambda>m. m \<noteq> WmClose) ms)) (ht_shared t)"
  using assms
proof (induction ms arbitrary: t)
  case Nil
  then show ?case by (simp add: deliver_messages_def map_filter_simps)
next
  case (Cons m ms)
  show ?case
  proof (cases "m = WmClose")
    case True
    let ?gone = "t\<lparr>ht_registered := False, ht_alive := False, ht_userdata := False, ht_subclassed := False,
      ht_quit := True, ht_raw := 0\<rparr>"
    have "window_proc WmClose t = Some ?gone"
      using Cons.prems(1) destroy_in_service [of "t\<lparr>ht_registered := False\<rparr>"]
      by (simp add: window_proc_def in_service_def)
    moreover have "pump ms ?gone = Some ?gone" by (cases ms) simp_all
    ultimately show ?thesis
      using True Cons.prems(1) by (simp add: in_service_def retired_def deliver_messages_def map_filter_simps)
  next
    case False
    have m: "genuine m" and ms: "list_all genuine ms" using Cons.prems(2) by simp_all
    let ?t = "t\<lparr>ht_shared := (case session_message m of None \<Rightarrow> ht_shared t | Some x \<Rightarrow> snd (wndproc x (ht_shared t)))\<rparr>"
    have "in_service ?t" using Cons.prems(1) by (simp add: in_service_def)
    from Cons.IH [OF this ms] proc_in_service [OF Cons.prems(1) m False] Cons.prems(1) False show ?thesis
      by (auto simp: in_service_def deliver_messages_def map_filter_simps split: option.split)
  qed
qed

text \<open>
  C32: the shared state outlives the window, and its reference is released exactly once. Whatever the
  creation and the registration give and whatever session, power, close and other messages arrive, the
  procedure never reads the state without a reference and never releases it twice. A start that
  fails leaves no window and no reference; until a close the window is in service and holds one
  reference; after it the window, its registration and the reference are gone and the loop has
  ended. The state sees exactly the session and power messages before the close.
\<close>

theorem window_reference_balanced:
  assumes "list_all genuine msgs"
  shows "\<exists>ready t. window_run created registered msgs (thread_new (Suc owned) s) = Some (ready, t) \<and>
    (ready = Inr () \<longleftrightarrow> created = Inr True \<and> registered = Inr ()) \<and>
    (if ready = Inr () \<and> WmClose \<notin> set msgs
     then ht_alive t \<and> ht_registered t \<and> ht_raw t = 1 \<and> ht_owned t = Suc owned
     else \<not> ht_alive t \<and> \<not> ht_userdata t \<and> \<not> ht_registered t \<and> ht_raw t = 0 \<and> ht_owned t = owned) \<and>
    ht_shared t =
      (if ready = Inr () then deliver_messages (List.map_filter session_message (takeWhile (\<lambda>m. m \<noteq> WmClose) msgs)) s else s)"
proof -
  let ?t = "thread_new (Suc owned) s"
  have sub: "destroy_window (subclassed ?t) = Some ((subclassed ?t)\<lparr>ht_alive := False, ht_userdata := False,
      ht_subclassed := False, ht_quit := True, ht_raw := 0\<rparr>)"
    by (rule destroy_in_service) (simp_all add: subclassed_def thread_new_def)
  show ?thesis
  proof (cases "created = Inr True \<and> registered = Inr ()")
    case True
    let ?up = "(subclassed ?t)\<lparr>ht_registered := True\<rparr>"
    have "in_service ?up" by (simp add: in_service_def subclassed_def thread_new_def)
    from pump_in_service [OF this assms] obtain t' where t': "pump msgs ?up = Some t'"
      "if WmClose \<in> set msgs then retired t' \<and> ht_quit t' else in_service t'" "ht_owned t' = Suc owned"
      "ht_shared t' = deliver_messages (List.map_filter session_message (takeWhile (\<lambda>m. m \<noteq> WmClose) msgs)) s"
      by (auto simp: subclassed_def thread_new_def)
    then show ?thesis
      using True by (cases "WmClose \<in> set msgs") (auto simp: window_run_def window_start_def retired_def in_service_def)
  next
    case False
    then show ?thesis
      using sub by (cases created; cases registered; cases "created = Inr True")
        (auto simp: window_run_def window_start_def subclassed_def thread_new_def split: bool.split)
  qed
qed

lemma window_reference_balanced_witness:
  "\<exists>t. window_run (Inr True) (Inr ()) [WmSession 7, WmOther 15, WmClose, WmSession 8]
      (thread_new 2 (sys_new :: unit sys_shared)) = Some (Inr (), t) \<and> ht_raw t = 0 \<and> ss_suspended (ht_shared t)"
proof -
  have "list_all genuine [WmSession 7, WmOther 15, WmClose, WmSession 8]" by simp
  from window_reference_balanced [OF this, of "Inr True" "Inr ()" 1 "sys_new :: unit sys_shared"] show ?thesis
    by (auto simp: numeral_2_eq_2 map_filter_simps deliver_messages_def wndproc_def wts_wparam_transition_def transition_def
        dedupe_transition_def sys_new_def)
qed

end
