(* ===== verification/Polling.thy ===== *)
theory Polling
  imports Runtime
begin

text \<open>
  The threads of the two polling loops with their timed waits (\<open>poll_loop\<close> of
  \<open>core/src/capture/foreground.rs\<close>, \<open>sample_loop\<close> of \<open>core/src/runtime/suspend_detector.rs\<close>). A thread works,
  takes the lock of the control, computes a deadline and waits until it has passed; a stop or a newer
  start makes it return when it next wakes. The watcher works first, the detector waits first. The clock
  is the monotonic one of the waits.
\<close>

section \<open>Threads\<close>

text \<open>About to work, about to compute its deadline, waiting for it.\<close>

datatype poll_pc = PollWork | PollLock | PollWait nat

record polling =
  po_control :: loop_control
  po_clock :: nat
  po_pc :: "nat \<Rightarrow> poll_pc option"
  po_log :: "(nat \<times> nat) list"

definition polling_new :: polling where
  "polling_new = \<lparr>po_control = loop_new, po_clock = 0, po_pc = (\<lambda>_. None), po_log = []\<rparr>"

definition POLL_INTERVAL_MS :: nat where
  "POLL_INTERVAL_MS = 1000"

definition SAMPLE_INTERVAL_MS :: nat where
  "SAMPLE_INTERVAL_MS = 5000"

text \<open>\<open>start\<close>: the new thread begins with its work or with its first wait.\<close>

definition poll_start :: "bool \<Rightarrow> polling \<Rightarrow> polling" where
  "poll_start works_first p =
     (let c = loop_start (po_control p)
      in if lc_join (po_control p) \<noteq> None then p
         else p\<lparr>po_control := c, po_pc := (po_pc p)(lc_epoch c \<mapsto> (if works_first then PollWork else PollLock))\<rparr>)"

definition poll_stop :: "polling \<Rightarrow> polling" where
  "poll_stop p = p\<lparr>po_control := loop_stop (po_control p)\<rparr>"

definition poll_work :: "nat \<Rightarrow> polling \<Rightarrow> polling" where
  "poll_work e p = p\<lparr>po_pc := (po_pc p)(e \<mapsto> PollLock), po_log := po_log p @ [(e, po_clock p)]\<rparr>"

definition poll_lock :: "nat \<Rightarrow> nat \<Rightarrow> polling \<Rightarrow> polling" where
  "poll_lock interval e p = p\<lparr>po_pc := (po_pc p)(e \<mapsto> PollWait (po_clock p + interval))\<rparr>"

text \<open>A thread wakes at its deadline, when it is notified, or without a reason, and looks again.\<close>

definition poll_wake :: "nat \<Rightarrow> nat \<Rightarrow> polling \<Rightarrow> polling" where
  "poll_wake e deadline p =
     (if \<not> loop_goes_on (po_control p) e
      then p\<lparr>po_control := loop_exit e (po_control p), po_pc := (po_pc p)(e := None)\<rparr>
      else if deadline \<le> po_clock p then p\<lparr>po_pc := (po_pc p)(e \<mapsto> PollWork)\<rparr>
      else p)"

inductive poll_step :: "bool \<Rightarrow> nat \<Rightarrow> bool \<Rightarrow> polling \<Rightarrow> polling \<Rightarrow> bool"
  for works_first interval starts
where
  PollStarts: "starts \<Longrightarrow> poll_step works_first interval starts p (poll_start works_first p)"
| PollStops: "poll_step works_first interval starts p (poll_stop p)"
| PollTick: "poll_step works_first interval starts p (p\<lparr>po_clock := po_clock p + d\<rparr>)"
| PollWorks: "po_pc p e = Some PollWork \<Longrightarrow> poll_step works_first interval starts p (poll_work e p)"
| PollLocks: "po_pc p e = Some PollLock \<Longrightarrow> poll_step works_first interval starts p (poll_lock interval e p)"
| PollWakes: "po_pc p e = Some (PollWait deadline) \<Longrightarrow> poll_step works_first interval starts p (poll_wake e deadline p)"

section \<open>Invariant\<close>

text \<open>How long ago the last work of a thread must be, at each of its program points.\<close>

fun rested :: "nat \<Rightarrow> nat \<Rightarrow> nat \<Rightarrow> poll_pc \<Rightarrow> bool" where
  "rested interval now t PollWork \<longleftrightarrow> t + interval \<le> now"
| "rested interval now t PollLock \<longleftrightarrow> t \<le> now"
| "rested interval now t (PollWait deadline) \<longleftrightarrow> t + interval \<le> deadline"

definition spaced :: "nat \<Rightarrow> (nat \<times> nat) list \<Rightarrow> bool" where
  "spaced interval = sorted_wrt (\<lambda>x y. fst x = fst y \<longrightarrow> snd x + interval \<le> snd y)"

definition poll_ok :: "nat \<Rightarrow> polling \<Rightarrow> bool" where
  "poll_ok interval p \<longleftrightarrow>
     loop_reachable (po_control p) \<and>
     (\<forall>e. po_pc p e \<noteq> None \<longleftrightarrow> e \<in> set (lc_threads (po_control p))) \<and>
     (\<forall>x \<in> set (po_log p). fst x \<le> lc_epoch (po_control p)) \<and>
     (\<forall>e pc. po_pc p e = Some pc \<longrightarrow> (\<forall>x \<in> set (po_log p). fst x = e \<longrightarrow> rested interval (po_clock p) (snd x) pc)) \<and>
     (\<forall>e deadline. po_pc p e = Some (PollWait deadline) \<longrightarrow> deadline \<le> po_clock p + interval) \<and>
     spaced interval (po_log p)"

lemma rested_later: "rested interval now t pc \<Longrightarrow> rested interval (now + d) t pc"
  by (cases pc) auto

lemma poll_ok_start: "poll_ok interval p \<Longrightarrow> poll_ok interval (poll_start works_first p)"
proof (cases "lc_join (po_control p) = None")
  case True
  assume ok: "poll_ok interval p"
  let ?e = "lc_epoch (po_control p) + 1"
  have "loop_reachable (loop_start (po_control p))" using ok by (simp add: poll_ok_def LoopStart)
  moreover have "\<forall>x \<in> set (po_log p). fst x \<noteq> ?e" using ok by (fastforce simp: poll_ok_def)
  ultimately show ?thesis
    using ok True by (auto simp: poll_ok_def poll_start_def loop_start_def Let_def)
qed (simp add: poll_start_def Let_def)

lemma poll_ok_wake:
  assumes ok: "poll_ok interval p" and pc: "po_pc p e = Some (PollWait deadline)"
  shows "poll_ok interval (poll_wake e deadline p)"
proof -
  have e: "e \<in> set (lc_threads (po_control p))" using ok pc by (auto simp: poll_ok_def)
  have "loop_reachable (loop_exit e (po_control p))" using ok e by (simp add: poll_ok_def LoopExit)
  then have "poll_ok interval (p\<lparr>po_control := loop_exit e (po_control p), po_pc := (po_pc p)(e := None)\<rparr>)"
    if "\<not> loop_goes_on (po_control p) e"
    using ok that by (auto simp: poll_ok_def loop_exit_def)
  moreover have "poll_ok interval (p\<lparr>po_pc := (po_pc p)(e \<mapsto> PollWork)\<rparr>)" if "deadline \<le> po_clock p"
    using ok pc e that by (fastforce simp: poll_ok_def)
  ultimately show ?thesis using ok by (simp add: poll_wake_def)
qed

lemma poll_ok_work:
  assumes ok: "poll_ok interval p" and pc: "po_pc p e = Some PollWork"
  shows "poll_ok interval (poll_work e p)"
proof -
  have t: "e \<in> set (lc_threads (po_control p))" using ok pc by (auto simp: poll_ok_def)
  have "loop_ok (po_control p)" using ok loop_reachable_ok by (simp add: poll_ok_def)
  then have e: "e \<in> set (lc_threads (po_control p))" "e \<le> lc_epoch (po_control p)"
    using t by (auto simp: loop_ok_def)
  have rest: "snd x + interval \<le> po_clock p" if "x \<in> set (po_log p)" "fst x = e" for x
    using ok pc that by (fastforce simp: poll_ok_def)
  then have "spaced interval (po_log p @ [(e, po_clock p)])"
    using ok by (auto simp: poll_ok_def spaced_def sorted_wrt_append)
  moreover have "snd x \<le> po_clock p" if "x \<in> set (po_log p)" "fst x = e" for x
    using rest [OF that] by simp
  ultimately show ?thesis using ok e by (auto simp: poll_ok_def poll_work_def)
qed

lemma poll_ok_step: "poll_step works_first interval starts p p' \<Longrightarrow> poll_ok interval p \<Longrightarrow> poll_ok interval p'"
proof (induction rule: poll_step.induct)
  case (PollStarts p)
  then show ?case using poll_ok_start by blast
next
  case (PollStops p)
  have "lc_threads (loop_stop c) = lc_threads c" "lc_epoch (loop_stop c) = lc_epoch c" for c
    by (simp_all add: loop_stop_def)
  then show ?case using PollStops LoopStop by (simp add: poll_ok_def poll_stop_def)
next
  case (PollTick p d)
  have "rested interval (po_clock p + d) (snd x) pc" if "po_pc p (fst x) = Some pc" "x \<in> set (po_log p)" for x pc
    by (rule rested_later) (use PollTick that in \<open>simp add: poll_ok_def\<close>)
  moreover have "deadline \<le> po_clock p + d + interval" if "po_pc p e = Some (PollWait deadline)" for e deadline
  proof -
    have "deadline \<le> po_clock p + interval" using PollTick that unfolding poll_ok_def by blast
    then show ?thesis by simp
  qed
  ultimately show ?case using PollTick by (auto simp: poll_ok_def)
next
  case (PollWorks p e)
  then show ?case using poll_ok_work by blast
next
  case (PollLocks p e)
  then show ?case by (fastforce simp: poll_ok_def poll_lock_def)
next
  case (PollWakes p e deadline)
  then show ?case using poll_ok_wake by blast
qed

lemma poll_reachable_ok: "(poll_step works_first interval True)\<^sup>*\<^sup>* polling_new p \<Longrightarrow> poll_ok interval p"
proof (induction rule: rtranclp_induct)
  case base
  show ?case by (simp add: poll_ok_def polling_new_def LoopNew spaced_def) (simp add: loop_new_def)
qed (rule poll_ok_step)

section \<open>After a stop\<close>

lemma poll_stopped_step:
  assumes "poll_step works_first interval False q q'"
    and "\<not> lc_running (po_control q)" and "po_log q = po_log p @ new" and "distinct (map fst new)"
    and "fst ` set new \<subseteq> {e. po_pc p e = Some PollWork}"
    and "\<forall>e. po_pc q e = Some PollWork \<longrightarrow> po_pc p e = Some PollWork \<and> e \<notin> fst ` set new"
  shows "\<not> lc_running (po_control q') \<and> (\<exists>new. po_log q' = po_log p @ new \<and> distinct (map fst new) \<and>
    fst ` set new \<subseteq> {e. po_pc p e = Some PollWork} \<and>
    (\<forall>e. po_pc q' e = Some PollWork \<longrightarrow> po_pc p e = Some PollWork \<and> e \<notin> fst ` set new))"
  using assms(1)
proof cases
  case (PollWorks e)
  then show ?thesis using assms
    by (auto simp: poll_work_def intro!: exI [of _ "new @ [(e, po_clock q)]"])
qed (use assms in \<open>auto simp: poll_stop_def loop_stop_def poll_lock_def poll_wake_def loop_goes_on_def loop_exit_def
    split: if_splits\<close>)

lemma poll_stopped_run:
  assumes "(poll_step works_first interval False)\<^sup>*\<^sup>* p p'" and "\<not> lc_running (po_control p)"
  shows "\<exists>new. po_log p' = po_log p @ new \<and> distinct (map fst new) \<and>
    fst ` set new \<subseteq> {e. po_pc p e = Some PollWork}"
proof -
  from assms(1) have "\<not> lc_running (po_control p') \<and> (\<exists>new. po_log p' = po_log p @ new \<and> distinct (map fst new) \<and>
    fst ` set new \<subseteq> {e. po_pc p e = Some PollWork} \<and>
    (\<forall>e. po_pc p' e = Some PollWork \<longrightarrow> po_pc p e = Some PollWork \<and> e \<notin> fst ` set new))"
  proof induction
    case base
    then show ?case using assms(2) by (intro conjI exI [of _ "[]"]) auto
  next
    case (step q q')
    then show ?case using poll_stopped_step [OF step.hyps(2)] by blast
  qed
  then show ?thesis by blast
qed

section \<open>Property\<close>

text \<open>
  C35: a polling loop works at its interval, alone, and stops. However the starts, stops, wake-ups and
  turns of its threads interleave, two turns of one thread are an interval apart; while the loop runs,
  exactly one of its threads goes on, and that one is working or waits for a deadline at most an interval
  away; and after a stop, until the next start, a thread works at most once more, and only one that had
  passed its check before the stop.
\<close>

theorem polls_are_spaced:
  assumes "(poll_step works_first interval True)\<^sup>*\<^sup>* polling_new p"
  shows "spaced interval (po_log p) \<and>
    length (filter (loop_goes_on (po_control p)) (lc_threads (po_control p))) =
      (if lc_running (po_control p) then 1 else 0) \<and>
    (lc_running (po_control p) \<longrightarrow> (\<exists>pc. po_pc p (lc_epoch (po_control p)) = Some pc \<and>
       (\<forall>deadline. pc = PollWait deadline \<longrightarrow> deadline \<le> po_clock p + interval))) \<and>
    (\<not> lc_running (po_control p) \<longrightarrow> (\<forall>p'. (poll_step works_first interval False)\<^sup>*\<^sup>* p p' \<longrightarrow>
       (\<exists>new. po_log p' = po_log p @ new \<and> distinct (map fst new) \<and>
          fst ` set new \<subseteq> {e. po_pc p e = Some PollWork})))"
proof (intro conjI impI allI)
  have ok: "poll_ok interval p" by (rule poll_reachable_ok [OF assms])
  then have reach: "loop_reachable (po_control p)" by (simp add: poll_ok_def)
  show "spaced interval (po_log p)" using ok by (simp add: poll_ok_def)
  show "length (filter (loop_goes_on (po_control p)) (lc_threads (po_control p))) =
      (if lc_running (po_control p) then 1 else 0)"
    by (rule one_polling_loop [OF reach])
  show "\<exists>pc. po_pc p (lc_epoch (po_control p)) = Some pc \<and>
       (\<forall>deadline. pc = PollWait deadline \<longrightarrow> deadline \<le> po_clock p + interval)"
    if "lc_running (po_control p)"
  proof -
    have "lc_epoch (po_control p) \<in> set (lc_threads (po_control p))"
      using loop_reachable_ok [OF reach] that by (simp add: loop_ok_def)
    then have "po_pc p (lc_epoch (po_control p)) \<noteq> None" using ok unfolding poll_ok_def by blast
    then obtain pc where "po_pc p (lc_epoch (po_control p)) = Some pc" by blast
    then show ?thesis using ok by (auto simp: poll_ok_def)
  qed
qed (rule poll_stopped_run)

text \<open>The watcher polls at once, waits, polls again, and a stop at that moment lets it poll no more.\<close>

lemma polls_are_spaced_witness:
  "\<exists>p. (poll_step True POLL_INTERVAL_MS True)\<^sup>*\<^sup>* polling_new p \<and> po_log p = [(1, 0), (1, 1000)] \<and>
     spaced POLL_INTERVAL_MS (po_log p)"
proof -
  define p1 where "p1 = poll_start True polling_new"
  define p2 where "p2 = poll_lock POLL_INTERVAL_MS 1 (poll_work 1 p1)"
  define p3 where "p3 = poll_wake 1 1000 (p2\<lparr>po_clock := po_clock p2 + 1000\<rparr>)"
  note defs = p1_def p2_def p3_def poll_start_def polling_new_def loop_new_def loop_start_def poll_work_def poll_lock_def
    poll_wake_def loop_goes_on_def POLL_INTERVAL_MS_def Let_def
  let ?step = "poll_step True POLL_INTERVAL_MS True"
  have s: "?step polling_new p1" "?step p1 (poll_work 1 p1)" "?step (poll_work 1 p1) p2"
    "?step p2 (p2\<lparr>po_clock := po_clock p2 + 1000\<rparr>)" "?step (p2\<lparr>po_clock := po_clock p2 + 1000\<rparr>) p3"
    "?step p3 (poll_work 1 p3)"
    unfolding p1_def p2_def p3_def by (rule poll_step.intros; simp add: defs)+
  then have run: "?step\<^sup>*\<^sup>* polling_new (poll_work 1 p3)"
    by (meson rtranclp.rtrancl_into_rtrancl rtranclp.rtrancl_refl)
  have "po_log (poll_work 1 p3) = [(1, 0), (1, 1000)]" by (simp add: defs)
  with run conjunct1 [OF polls_are_spaced [OF run]] show ?thesis by blast
qed

end
