(* ===== verification/Updater.thy ===== *)
theory Updater
  imports Prelude
begin

text \<open>
  The update command and the start options of the shell (\<open>src/lib.rs\<close>). URL parsing, the check of
  the manifest and the download with its signature check belong to the updater plugin and are
  arguments; the choice of the endpoint, the mirror prefix, the errors and the progress that is
  emitted are the shell's own. A URL is the text it serializes to.
\<close>

definition GITHUB_UPDATE_ENDPOINT :: rstr where
  "GITHUB_UPDATE_ENDPOINT =
     lit ''https://github.com/whitebearovo/YohakuCompanion-Win/releases/latest/download/latest.json''"

definition MIRROR_PREFIX :: rstr where
  "MIRROR_PREFIX = lit ''https://ghfast.top/''"

record updater_progress =
  up_phase :: rstr
  up_downloaded :: nat
  up_total :: "nat option"
  up_version :: "rstr option"

text \<open>What a check finds, and what a download does: its chunks, whether it completes, its result.\<close>

record update_offer =
  uo_version :: rstr
  uo_url :: rstr

record download =
  dl_chunks :: "(nat \<times> nat option) list"
  dl_complete :: bool
  dl_result :: "rstr + unit"

record updater_env =
  ue_parse :: "rstr \<Rightarrow> rstr + rstr"
  ue_build :: "rstr \<Rightarrow> rstr + unit"
  ue_check :: "rstr + update_offer option"
  ue_download :: "rstr \<Rightarrow> download"

text \<open>\<open>downloaded += chunk as u64\<close> wraps.\<close>

fun chunk_events :: "rstr \<Rightarrow> (nat \<times> nat option) list \<Rightarrow> nat \<Rightarrow> updater_progress list" where
  "chunk_events version [] downloaded = []"
| "chunk_events version ((chunk, tot) # chunks) downloaded =
     (let now = (downloaded + chunk) mod 2 ^ 64
      in \<lparr>up_phase = lit ''downloading'', up_downloaded = now, up_total = tot, up_version = Some version\<rparr> #
         chunk_events version chunks now)"

definition update_mirror :: "rstr \<Rightarrow> bool option" where
  "update_mirror source =
     (if source = lit ''github'' then Some False else if source = lit ''mirror'' then Some True else None)"

definition is_prefix :: "rstr \<Rightarrow> rstr \<Rightarrow> bool" where
  "is_prefix p s \<longleftrightarrow> take (length p) s = p"

definition mirrored :: "(rstr \<Rightarrow> rstr + rstr) \<Rightarrow> bool \<Rightarrow> rstr \<Rightarrow> rstr + rstr" where
  "mirrored parse use_mirror url =
     (if use_mirror \<and> \<not> is_prefix MIRROR_PREFIX url then parse (MIRROR_PREFIX @ url) else Inr url)"

definition rbind_update :: "'e + 'a \<Rightarrow> ('a \<Rightarrow> ('e + 'b) \<times> 'o list) \<Rightarrow> ('e + 'b) \<times> 'o list" where
  "rbind_update r f = (case r of Inl e \<Rightarrow> (Inl e, []) | Inr x \<Rightarrow> f x)"

text \<open>The result of the command and the progress it has emitted.\<close>

definition check_and_install_update :: "updater_env \<Rightarrow> rstr \<Rightarrow> (rstr + unit) \<times> updater_progress list" where
  "check_and_install_update env source =
     (case update_mirror source of
        None \<Rightarrow> (Inl (lit ''invalid update source''), [])
      | Some use_mirror \<Rightarrow>
          rbind_update (ue_parse env (if use_mirror then MIRROR_PREFIX @ GITHUB_UPDATE_ENDPOINT else GITHUB_UPDATE_ENDPOINT))
            (\<lambda>endpoint. rbind_update (ue_build env endpoint) (\<lambda>_. rbind_update (ue_check env) (\<lambda>found.
             case found of
               None \<Rightarrow>
                 (Inr (), [\<lparr>up_phase = lit ''upToDate'', up_downloaded = 0, up_total = None, up_version = None\<rparr>])
             | Some update \<Rightarrow>
                 rbind_update (mirrored (ue_parse env) use_mirror (uo_url update)) (\<lambda>url.
                   let version = uo_version update; dl = ue_download env url
                   in (dl_result dl,
                       \<lparr>up_phase = lit ''downloading'', up_downloaded = 0, up_total = None, up_version = Some version\<rparr> #
                       chunk_events version (dl_chunks dl) 0 @
                       (if dl_complete dl
                        then [\<lparr>up_phase = lit ''verifying'', up_downloaded = 0, up_total = None, up_version = Some version\<rparr>]
                        else [])))))))"

definition is_hidden_launch :: "rstr list \<Rightarrow> bool" where
  "is_hidden_launch args \<longleftrightarrow> list_ex (\<lambda>a. a = lit ''--hidden'') args"

section \<open>Properties\<close>

lemma chunk_events_sums:
  "d + sum_list (map fst cs) < 2 ^ 64 \<Longrightarrow>
    map up_downloaded (chunk_events v cs d) = map (\<lambda>k. d + sum_list (map fst (take k cs))) [1..<Suc (length cs)]"
proof (induction cs arbitrary: d)
  case (Cons c cs)
  obtain n t where c: "c = (n, t)" by force
  have "[1..<Suc (length (c # cs))] = 1 # map Suc [1..<Suc (length cs)]"
    by (simp add: upt_conv_Cons map_Suc_upt del: upt_Suc)
  then show ?case using Cons.IH [of "d + n"] Cons.prems c by (simp add: Let_def ac_simps del: upt_Suc)
qed simp

lemma chunk_events_fields:
  "e \<in> set (chunk_events v cs d) \<Longrightarrow> up_phase e = lit ''downloading'' \<and> up_version e = Some v"
  by (induction v cs d rule: chunk_events.induct) (auto simp: Let_def)

lemma chunk_events_length: "length (chunk_events v cs d) = length cs"
  by (induction v cs d rule: chunk_events.induct) (simp_all add: Let_def)

lemma is_prefix_append [simp]: "is_prefix p (p @ s)"
  by (simp add: is_prefix_def)

text \<open>
  An update is announced, counted and verified, and the mirror only moves its URL. When a check
  finds an update, the events are one start of the download, one event per chunk that counts the bytes
  received so far, and the verification when the download completes, all for the offered version;
  below 16 EiB the count after each chunk is the exact sum of the chunks so far. With the mirror the
  download goes to the offered URL behind the prefix, which is never doubled, otherwise to the
  offered URL itself.
\<close>

theorem update_progress:
  assumes mirror: "update_mirror source = Some use_mirror" and found: "ue_check env = Inr (Some update)"
    and run: "check_and_install_update env source = (Inr (), events)"
    and parse: "\<And>x y. ue_parse env x = Inr y \<Longrightarrow> y = x"
  shows "\<exists>url. (is_prefix MIRROR_PREFIX url \<longleftrightarrow> use_mirror \<or> is_prefix MIRROR_PREFIX (uo_url update)) \<and>
    (url = uo_url update \<or> url = MIRROR_PREFIX @ uo_url update \<and> \<not> is_prefix MIRROR_PREFIX (uo_url update)) \<and>
    length events = 1 + length (dl_chunks (ue_download env url)) + (if dl_complete (ue_download env url) then 1 else 0) \<and>
    list_all (\<lambda>e. up_version e = Some (uo_version update)) events \<and>
    (sum_list (map fst (dl_chunks (ue_download env url))) < 2 ^ 64 \<longrightarrow>
       map up_downloaded (filter (\<lambda>e. up_phase e = lit ''downloading'') events) =
         map (\<lambda>k. sum_list (map fst (take k (dl_chunks (ue_download env url)))))
           [0..<Suc (length (dl_chunks (ue_download env url)))])"
proof -
  obtain url where url: "mirrored (ue_parse env) use_mirror (uo_url update) = Inr url"
    using mirror found run
    by (auto simp: check_and_install_update_def rbind_update_def split: sum.splits)
  let ?dl = "ue_download env url" and ?v = "uo_version update"
  let ?start = "\<lparr>up_phase = lit ''downloading'', up_downloaded = 0, up_total = None, up_version = Some ?v\<rparr>"
  let ?tail = "if dl_complete ?dl
    then [\<lparr>up_phase = lit ''verifying'', up_downloaded = 0, up_total = None, up_version = Some ?v\<rparr>] else []"
  have events: "events = ?start # chunk_events ?v (dl_chunks ?dl) 0 @ ?tail"
    using mirror found run url
    by (auto simp: check_and_install_update_def rbind_update_def Let_def split: sum.splits)
  have "url = uo_url update \<and> (use_mirror \<longrightarrow> is_prefix MIRROR_PREFIX url) \<or>
      url = MIRROR_PREFIX @ uo_url update \<and> use_mirror \<and> \<not> is_prefix MIRROR_PREFIX (uo_url update)"
    using url parse by (auto simp: mirrored_def split: if_splits)
  moreover have "filter (\<lambda>e. up_phase e = lit ''downloading'') events = ?start # chunk_events ?v (dl_chunks ?dl) 0"
    using chunk_events_fields [of _ ?v "dl_chunks ?dl" 0] by (simp add: events lit_def filter_id_conv)
  moreover have "list_all (\<lambda>e. up_version e = Some ?v) events"
    using chunk_events_fields [of _ ?v "dl_chunks ?dl" 0] by (auto simp: events list_all_iff)
  moreover have "[0..<Suc (length (dl_chunks ?dl))] = 0 # [1..<Suc (length (dl_chunks ?dl))]"
    by (simp add: upt_conv_Cons del: upt_Suc)
  ultimately show ?thesis
    using chunk_events_sums [of 0 "dl_chunks ?dl" ?v]
    by (intro exI [of _ url]) (auto simp: events chunk_events_length simp del: upt_Suc)
qed

definition sample_updater :: updater_env where
  "sample_updater =
     \<lparr>ue_parse = Inr, ue_build = (\<lambda>_. Inr ()),
      ue_check = Inr (Some \<lparr>uo_version = lit ''2.0'', uo_url = lit ''https://github.com/a''\<rparr>),
      ue_download = (\<lambda>_. \<lparr>dl_chunks = [(3, Some 5), (2, Some 5)], dl_complete = True, dl_result = Inr ()\<rparr>)\<rparr>"

lemma update_progress_witness:
  "length (snd (check_and_install_update sample_updater (lit ''mirror''))) = 4 \<and>
   map up_downloaded (filter (\<lambda>e. up_phase e = lit ''downloading'')
     (snd (check_and_install_update sample_updater (lit ''mirror'')))) = [0, 3, 5]"
proof -
  obtain r events where run: "check_and_install_update sample_updater (lit ''mirror'') = (r, events)" by force
  then have r: "r = Inr ()"
    by (auto simp: check_and_install_update_def rbind_update_def sample_updater_def update_mirror_def mirrored_def lit_def
        Let_def split: if_splits)
  have mirror: "update_mirror (lit ''mirror'') = Some True" by (simp add: update_mirror_def lit_def)
  have found: "ue_check sample_updater = Inr (Some \<lparr>uo_version = lit ''2.0'', uo_url = lit ''https://github.com/a''\<rparr>)"
    by (simp add: sample_updater_def)
  have parse: "y = x" if "ue_parse sample_updater x = Inr y" for x y using that by (simp add: sample_updater_def)
  from update_progress [OF mirror found run [unfolded r] parse] run show ?thesis
    by (auto simp: sample_updater_def upt_rec)
qed

end
